(* ===== verification/Prelude.thy ===== *)
theory Prelude
  imports Main "HOL-Library.Multiset"
begin

text \<open>
  What the components share: programs over a database state that may raise (a Python
  exception leaves the writes made so far, \<open>transaction.atomic\<close> undoes them), two-state
  guarantees of such programs (a locale, used once per guarantee), and tables of rows
  with a primary key.
\<close>

section \<open>Programs with a state and exceptions\<close>

type_synonym ('s, 'e, 'a) prog = "'s \<Rightarrow> ('e + 'a) \<times> 's"

named_theorems prog_defs "the combinators of programs, unfolded"

definition ret :: "'a \<Rightarrow> ('s, 'e, 'a) prog" where
  [prog_defs]: "ret x = (\<lambda>s. (Inr x, s))"

definition raise :: "'e \<Rightarrow> ('s, 'e, 'a) prog" where
  [prog_defs]: "raise e = (\<lambda>s. (Inl e, s))"

definition bindp :: "('s, 'e, 'a) prog \<Rightarrow> ('a \<Rightarrow> ('s, 'e, 'b) prog) \<Rightarrow> ('s, 'e, 'b) prog" where
  [prog_defs]: "bindp m f = (\<lambda>s. case m s of (Inl e, t) \<Rightarrow> (Inl e, t) | (Inr x, t) \<Rightarrow> f x t)"

definition reads :: "('s \<Rightarrow> 'a) \<Rightarrow> ('s, 'e, 'a) prog" where
  [prog_defs]: "reads f = (\<lambda>s. (Inr (f s), s))"

definition writes :: "('s \<Rightarrow> 's) \<Rightarrow> ('s, 'e, unit) prog" where
  [prog_defs]: "writes f = (\<lambda>s. (Inr (), f s))"

definition of_result :: "'e + 'a \<Rightarrow> ('s, 'e, 'a) prog" where
  [prog_defs]: "of_result r = (\<lambda>s. (r, s))"

text \<open>\<open>transaction.atomic\<close>: an exception rolls the writes of the block back.\<close>

definition atomic :: "('s, 'e, 'a) prog \<Rightarrow> ('s, 'e, 'a) prog" where
  [prog_defs]: "atomic m = (\<lambda>s. case m s of (Inl e, t) \<Rightarrow> (Inl e, s) | (Inr x, t) \<Rightarrow> (Inr x, t))"

text \<open>A \<open>for\<close> loop whose body is run for its effect.\<close>

fun for_each :: "'a list \<Rightarrow> ('a \<Rightarrow> ('s, 'e, unit) prog) \<Rightarrow> ('s, 'e, unit) prog" where
  "for_each [] f = ret ()"
| "for_each (x # xs) f = bindp (f x) (\<lambda>_. for_each xs f)"

lemma bindp_Inr: "m s = (Inr x, t) \<Longrightarrow> bindp m f s = f x t"
  by (simp add: bindp_def)

lemma bindp_Inl: "m s = (Inl e, t) \<Longrightarrow> bindp m f s = (Inl e, t)"
  by (simp add: bindp_def)

lemma bindp_result:
  assumes "bindp m f s = (Inr y, u)"
  obtains x t where "m s = (Inr x, t)" and "f x t = (Inr y, u)"
  using assms by (auto simp: bindp_def split: prod.splits sum.splits)

lemma bindp_assoc: "bindp (bindp m f) g = bindp m (\<lambda>x. bindp (f x) g)"
  by (auto simp: bindp_def fun_eq_iff split: prod.splits sum.splits)

lemma ret_bindp [simp]: "bindp (ret x) f = f x"
  by (simp add: bindp_def ret_def)

lemma raise_bindp [simp]: "bindp (raise e) f = raise e"
  by (simp add: bindp_def raise_def)

lemma bindp_ret [simp]: "bindp m ret = m"
  by (auto simp: bindp_def ret_def fun_eq_iff split: prod.splits sum.splits)

lemma for_each_append: "for_each (xs @ ys) f = bindp (for_each xs f) (\<lambda>_. for_each ys f)"
  by (induction xs) (simp_all add: bindp_assoc)

text \<open>A loop whose body cannot raise folds the state changes of its body.\<close>

lemma for_each_fold:
  assumes "\<And>x s. x \<in> set xs \<Longrightarrow> f x s = (Inr (), g x s)"
  shows "for_each xs f s = (Inr (), fold g xs s)"
  using assms by (induction xs arbitrary: s) (simp_all add: ret_def bindp_def)

text \<open>The same for a body that cannot raise as long as an invariant of the loop holds.\<close>

lemma for_each_inv:
  assumes "\<And>x s. x \<in> set xs \<Longrightarrow> I s \<Longrightarrow> f x s = (Inr (), g x s) \<and> I (g x s)" and "I s"
  shows "for_each xs f s = (Inr (), fold g xs s) \<and> I (fold g xs s)"
  using assms by (induction xs arbitrary: s) (simp_all add: ret_def bindp_def)

section \<open>Two-state guarantees\<close>

text \<open>
  A guarantee is a reflexive and transitive relation between the state before and the
  state after. A program gives it when every run does, whether it returns or raises.
\<close>

definition gives :: "('s \<Rightarrow> 's \<Rightarrow> bool) \<Rightarrow> ('s, 'e, 'a) prog \<Rightarrow> bool" where
  "gives R m \<longleftrightarrow> (\<forall>s. R s (snd (m s)))"

lemma givesI: "(\<And>s. R s (snd (m s))) \<Longrightarrow> gives R m"
  by (simp add: gives_def)

lemma givesD: "gives R m \<Longrightarrow> m s = (r, t) \<Longrightarrow> R s t"
  by (metis gives_def snd_conv)

locale guarantee =
  fixes R :: "'s \<Rightarrow> 's \<Rightarrow> bool"
  assumes R_refl: "R s s"
    and R_trans: "R s t \<Longrightarrow> R t u \<Longrightarrow> R s u"
begin

lemma gives_ret: "gives R (ret x)"
  by (simp add: gives_def ret_def R_refl)

lemma gives_raise: "gives R (raise e)"
  by (simp add: gives_def raise_def R_refl)

lemma gives_reads: "gives R (reads f)"
  by (simp add: gives_def reads_def R_refl)

lemma gives_of_result: "gives R (of_result r)"
  by (simp add: gives_def of_result_def R_refl)

lemma gives_writes: "(\<And>s. R s (f s)) \<Longrightarrow> gives R (writes f)"
  by (simp add: gives_def writes_def)

lemma gives_bindp:
  assumes m: "gives R m" and f: "\<And>x. gives R (f x)"
  shows "gives R (bindp m f)"
proof (rule givesI)
  fix s
  obtain r t where ms: "m s = (r, t)" by (cases "m s")
  from m ms have st: "R s t" by (rule givesD)
  show "R s (snd (bindp m f s))"
  proof (cases r)
    case (Inl e)
    with ms st show ?thesis by (simp add: bindp_Inl)
  next
    case (Inr x)
    from f have "R t (snd (f x t))" by (simp add: gives_def)
    with st have "R s (snd (f x t))" by (rule R_trans)
    with ms Inr show ?thesis by (simp add: bindp_Inr)
  qed
qed

lemma gives_atomic: "gives R m \<Longrightarrow> gives R (atomic m)"
  unfolding gives_def atomic_def
  by (metis (no_types, lifting) R_refl old.prod.case snd_conv sum.case_eq_if surj_pair)

lemma gives_for_each: "(\<And>x. x \<in> set xs \<Longrightarrow> gives R (f x)) \<Longrightarrow> gives R (for_each xs f)"
  by (induction xs) (simp_all add: gives_ret gives_bindp)

lemma gives_if: "gives R m \<Longrightarrow> gives R n \<Longrightarrow> gives R (if b then m else n)"
  by simp

lemmas gives_intros =
  gives_ret gives_raise gives_reads gives_of_result gives_bindp gives_atomic gives_if

end

section \<open>Tables\<close>

text \<open>
  A table is the list of its rows, in the order the database returns them when a query
  asks for none; nothing below assumes that order. Saving a row replaces the row with
  its key or adds it.
\<close>

definition upsert :: "('r \<Rightarrow> 'k) \<Rightarrow> 'r \<Rightarrow> 'r list \<Rightarrow> 'r list" where
  "upsert key r rows =
     (if list_ex (\<lambda>x. key x = key r) rows
      then map (\<lambda>x. if key x = key r then r else x) rows else rows @ [r])"

definition by_key :: "('r \<Rightarrow> 'k) \<Rightarrow> 'k \<Rightarrow> 'r list \<Rightarrow> 'r option" where
  "by_key key k rows = find (\<lambda>x. key x = k) rows"

lemma list_ex_key: "list_ex (\<lambda>x. key x = k) rows \<longleftrightarrow> k \<in> key ` set rows"
  by (induction rows) auto

lemma set_upsert: "set (upsert key r rows) = insert r {x \<in> set rows. key x \<noteq> key r}"
  by (auto simp: upsert_def list_ex_key intro: rev_image_eqI)

lemma keys_upsert:
  "map key (upsert key r rows) =
     (if key r \<in> key ` set rows then map key rows else map key rows @ [key r])"
  by (auto simp: upsert_def list_ex_key intro: rev_image_eqI)

lemma distinct_upsert: "distinct (map key rows) \<Longrightarrow> distinct (map key (upsert key r rows))"
  by (auto simp: keys_upsert)

lemma by_key_Some: "by_key key k rows = Some r \<Longrightarrow> key r = k \<and> r \<in> set rows"
  by (auto simp: by_key_def find_Some_iff)

lemma by_key_None: "by_key key k rows = None \<longleftrightarrow> k \<notin> key ` set rows"
  by (auto simp: by_key_def find_None_iff)

lemma by_key_unique:
  assumes "distinct (map key rows)" and "r \<in> set rows"
  shows "by_key key (key r) rows = Some r"
proof (cases "by_key key (key r) rows")
  case None
  with assms(2) show ?thesis by (auto simp: by_key_None)
next
  case (Some x)
  then have "key x = key r" and "x \<in> set rows" by (auto dest: by_key_Some)
  with assms have "x = r" by (auto simp: distinct_map dest: inj_onD)
  with Some show ?thesis by simp
qed

lemma find_map_replace:
  "find (\<lambda>x. key x = k) (map (\<lambda>x. if key x = key r then r else x) rows) =
     (if k = key r then (if key r \<in> key ` set rows then Some r else None)
      else find (\<lambda>x. key x = k) rows)"
  by (induction rows) auto

lemma find_append:
  "find P (xs @ ys) = (case find P xs of None \<Rightarrow> find P ys | Some x \<Rightarrow> Some x)"
  by (induction xs) auto

lemma by_key_upsert:
  "by_key key k (upsert key r rows) = (if k = key r then Some r else by_key key k rows)"
proof (cases "key r \<in> key ` set rows")
  case True
  then show ?thesis by (simp add: by_key_def upsert_def list_ex_key find_map_replace)
next
  case False
  then have "by_key key (key r) rows = None" by (simp add: by_key_None)
  with False show ?thesis
    by (auto simp: by_key_def upsert_def list_ex_key find_append split: option.split)
qed

text \<open>Saving changed versions of stored rows one after the other is one map over the table.\<close>

lemma fold_upsert_rows:
  assumes keys: "distinct (map key rows)" and "set ls \<subseteq> set rows" and h: "\<And>l. key (h l) = key l"
  shows "fold (\<lambda>l. upsert key (h l)) ls rows = map (\<lambda>x. if x \<in> set ls then h x else x) rows"
  using assms(2)
proof (induction ls rule: rev_induct)
  case Nil
  then show ?case by simp
next
  case (snoc l ls)
  let ?f = "\<lambda>x. if x \<in> set ls then h x else x"
  have same: "key y = key l \<longleftrightarrow> y = l" if "y \<in> set rows" for y
    using that keys snoc.prems by (auto simp: distinct_map dest: inj_onD)
  have key_f: "key (?f y) = key y" for y using h by simp
  have "upsert key (h l) (map ?f rows) = map (\<lambda>x. if key x = key (h l) then h l else x) (map ?f rows)"
    using snoc.prems h key_f by (simp add: upsert_def list_ex_iff) blast
  also have "\<dots> = map (\<lambda>x. if x \<in> set (ls @ [l]) then h x else x) rows"
    using same key_f h by (auto simp del: if_split_asm)
  finally show ?case using snoc by simp
qed

text \<open>A list with the elements of another one that has at most one is that list.\<close>

lemma mset_short: "mset xs = mset ys \<Longrightarrow> length ys \<le> 1 \<Longrightarrow> xs = ys"
  by (cases ys) (simp_all add: size_mset [symmetric] del: size_mset)

lemma map_eq_elem: "map f xs = map g ys \<Longrightarrow> x \<in> set xs \<Longrightarrow> \<exists>y \<in> set ys. f x = g y"
  by (metis (no_types) imageE imageI list.set_map)

lemma find_distinct:
  "distinct (map f xs) \<Longrightarrow> x \<in> set xs \<Longrightarrow> P x \<Longrightarrow> find (\<lambda>y. f y = f x \<and> P y) xs = Some x"
  by (induction xs) (auto simp: image_iff)

text \<open>
  The interface of a table as its clients see it: looking a key up after a save, and
  that a row is found under its own key.
\<close>

locale keyed_table =
  fixes key :: "'r \<Rightarrow> 'k"
    and look :: "'k \<Rightarrow> 's \<Rightarrow> 'r option"
    and put :: "'r \<Rightarrow> 's \<Rightarrow> 's"
  assumes look_put: "look k (put r s) = (if k = key r then Some r else look k s)"
    and look_key: "look k s = Some r \<Longrightarrow> key r = k"
begin

lemma look_put_same: "look (key r) (put r s) = Some r"
  by (simp add: look_put)

lemma look_put_other: "k \<noteq> key r \<Longrightarrow> look k (put r s) = look k s"
  by (simp add: look_put)

lemma put_twice: "key r = key r' \<Longrightarrow> look k (put r' (put r s)) = look k (put r' s)"
  by (simp add: look_put)

lemma put_commute: "key r \<noteq> key r' \<Longrightarrow> look k (put r' (put r s)) = look k (put r (put r' s))"
  by (simp add: look_put)

lemma put_keeps_keys: "look k s \<noteq> None \<Longrightarrow> look k (put r s) \<noteq> None"
  by (simp add: look_put)

end

end
