(* ===== verification/PyText.thy ===== *)
theory PyText
  imports Prelude
begin

text \<open>
  The operations of Python's \<open>str\<close> the code uses: decimal rendering of integers (in
  f-strings), \<open>replace\<close>, \<open>join\<close>, \<open>startswith\<close>. Texts are lists of characters.
\<close>

section \<open>Decimal numbers\<close>

definition digit_char :: "nat \<Rightarrow> char" where
  "digit_char d = char_of (48 + d)"

fun str_nat :: "nat \<Rightarrow> string" where
  "str_nat n = (if n < 10 then [digit_char n] else str_nat (n div 10) @ [digit_char (n mod 10)])"

declare str_nat.simps [simp del]

definition str_int :: "int \<Rightarrow> string" where
  "str_int i = (if i < 0 then CHR ''-'' # str_nat (nat (- i)) else str_nat (nat i))"

text \<open>Reading the digits back, to see that different numbers have different texts.\<close>

definition read_nat :: "string \<Rightarrow> nat" where
  "read_nat s = foldl (\<lambda>a c. 10 * a + (of_char c - 48)) 0 s"

lemma of_digit_char: "d < 10 \<Longrightarrow> of_char (digit_char d) = 48 + d"
  by (simp add: digit_char_def)

lemma read_str_nat: "read_nat (str_nat n) = n"
proof (induction n rule: str_nat.induct)
  case (1 n)
  show ?case
  proof (cases "n < 10")
    case True
    then show ?thesis by (simp add: str_nat.simps [of n] read_nat_def of_digit_char)
  next
    case False
    with 1 have "read_nat (str_nat (n div 10)) = n div 10" by simp
    with False show ?thesis
      by (simp add: str_nat.simps [of n] read_nat_def of_digit_char)
  qed
qed

lemma str_nat_inject [simp]: "str_nat m = str_nat n \<longleftrightarrow> m = n"
  by (metis read_str_nat)

lemma str_nat_digits: "c \<in> set (str_nat n) \<Longrightarrow> \<exists>d < 10. c = digit_char d"
proof (induction n rule: str_nat.induct)
  case (1 n)
  show ?case
  proof (cases "n < 10")
    case True
    with "1.prems" show ?thesis by (auto simp: str_nat.simps [of n])
  next
    case False
    with "1.prems" have "c \<in> set (str_nat (n div 10)) \<or> c = digit_char (n mod 10)"
      by (auto simp: str_nat.simps [of n])
    then show ?thesis
    proof
      assume "c \<in> set (str_nat (n div 10))"
      with False show ?thesis by (rule "1.IH")
    next
      assume "c = digit_char (n mod 10)"
      then show ?thesis by (auto intro: exI [of _ "n mod 10"])
    qed
  qed
qed

lemma slash_not_in_str_nat: "CHR ''/'' \<notin> set (str_nat n)"
proof
  assume "CHR ''/'' \<in> set (str_nat n)"
  then obtain d where "d < 10" and "CHR ''/'' = digit_char d" by (blast dest: str_nat_digits)
  then have "of_char (CHR ''/'') = 48 + d" using of_digit_char [of d] by simp
  then show False by simp
qed

lemma str_nat_1: "str_nat 1 = ''1''" "str_nat (Suc 0) = ''1''"
  by code_simp+

section \<open>Text operations\<close>

definition py_startswith :: "string \<Rightarrow> string \<Rightarrow> bool" where
  "py_startswith s p = (take (length p) s = p)"

text \<open>\<open>s.replace(old, new)\<close>: from the left, occurrences do not overlap.\<close>

function py_replace :: "string \<Rightarrow> string \<Rightarrow> string \<Rightarrow> string" where
  "py_replace old new s =
     (if old = [] then new @ concat (map (\<lambda>c. c # new) s)
      else if s = [] then []
      else if py_startswith s old then new @ py_replace old new (drop (length old) s)
      else hd s # py_replace old new (tl s))"
  by pat_completeness auto
termination
  by (relation "measure (\<lambda>(old, new, s). length s)") auto

declare py_replace.simps [simp del]

lemma py_replace_char:
  "py_replace [c] [d] s = map (\<lambda>x. if x = c then d else x) s"
proof (induction s)
  case Nil
  then show ?case by (simp add: py_replace.simps)
next
  case (Cons x s)
  then show ?case
    by (simp add: py_replace.simps [of "[c]" "[d]" "x # s"] py_startswith_def)
qed

fun py_join :: "string \<Rightarrow> string list \<Rightarrow> string" where
  "py_join sep [] = []"
| "py_join sep [x] = x"
| "py_join sep (x # y # ys) = x @ sep @ py_join sep (y # ys)"

end
