(* ===== verification/Clock.thy ===== *)
theory Clock
  imports PyText
begin

text \<open>
  Dates: \<open>datetime\<close> values are aware and in UTC (\<open>USE_TZ\<close> and \<open>TIME_ZONE = "UTC"\<close> of
  webapp/webapp/settings.py), so one is the number of microseconds since the epoch, and a
  \<open>timedelta\<close> is a number of microseconds.
\<close>

type_synonym datetime = int
type_synonym timedelta = int

definition microsecond :: "timedelta" where
  "microsecond = 1"

definition seconds :: "int \<Rightarrow> timedelta" where
  "seconds n = n * 1000000"

definition minutes :: "int \<Rightarrow> timedelta" where
  "minutes n = n * 60000000"

definition hours :: "int \<Rightarrow> timedelta" where
  "hours n = n * 3600000000"

text \<open>\<open>t.replace(microsecond=0)\<close> and \<open>t.replace(second=0, microsecond=0)\<close>.\<close>

definition floor_second :: "datetime \<Rightarrow> datetime" where
  "floor_second t = t - t mod 1000000"

definition floor_minute :: "datetime \<Rightarrow> datetime" where
  "floor_minute t = t - t mod 60000000"

lemmas clock_defs = seconds_def minutes_def hours_def floor_second_def floor_minute_def

lemma floor_second_bounds: "floor_second t \<le> t" "t < floor_second t + seconds 1"
  by (simp_all add: clock_defs)

lemma floor_minute_bounds: "floor_minute t \<le> t" "t < floor_minute t + minutes 1"
  by (simp_all add: clock_defs)

lemma floor_second_dvd: "seconds 1 dvd floor_second t"
  by (simp add: clock_defs dvd_minus_mod)

lemma floor_minute_dvd: "minutes 1 dvd floor_minute t"
  by (simp add: clock_defs dvd_minus_mod)

lemma floor_minute_mono: "s \<le> t \<Longrightarrow> floor_minute s \<le> floor_minute t"
proof -
  assume "s \<le> t"
  then have "s div 60000000 \<le> t div 60000000" by (rule zdiv_mono1) simp
  then show ?thesis by (simp add: floor_minute_def minus_mod_eq_mult_div)
qed

end
