(* ===== verification/Models.thy ===== *)
theory Models
  imports Clock
begin

text \<open>
  The data of webapp/loadtest/models.py: the abstract base models and the tables as
  records (the class hierarchy as record extension), the status choices, the transition
  table the \<open>@transition\<close> decorators declare, the database as its tables, and the world a
  request runs in: the clock and the third-party code the models call, as parameters.
\<close>

section \<open>The models\<close>

record base_bare_model =
  pk :: "nat option"

record base_named_model = base_bare_model +
  created_at :: datetime
  updated_at :: datetime
  name :: string

record test_location = base_named_model +
  display_name :: string
  last_ping :: "datetime option"

record test_output_config = base_named_model +
  influxdb_url :: string
  influxdb_token :: string
  influxdb_org :: string
  influxdb_bucket :: string
  insecure_skip_verify :: bool

record test_run = base_named_model +
  target :: string
  test_output :: string
  source_repo :: string
  source_ref :: string
  source_script :: string
  started_at :: "datetime option"
  completed_at :: "datetime option"
  resources_cpu :: string
  resources_memory :: string
  dedicated_nodes :: bool
  node_selector :: string
  job_deadline :: string
  draft :: bool

record test_run_label = base_bare_model +
  label_name :: string
  label_value :: string
  label_test_run :: string

record test_run_env_var = base_bare_model +
  env_var_name :: string
  env_var_value :: string
  env_var_test_run :: string

datatype status = PENDING | QUEUED | READY | RUNNING | CANCELED | COMPLETED | FAILED

fun status_value :: "status \<Rightarrow> string" where
  "status_value PENDING = ''pending''"
| "status_value QUEUED = ''queued''"
| "status_value READY = ''ready''"
| "status_value RUNNING = ''running''"
| "status_value CANCELED = ''canceled''"
| "status_value COMPLETED = ''completed''"
| "status_value FAILED = ''failed''"

fun status_label :: "status \<Rightarrow> string" where
  "status_label PENDING = ''Pending''"
| "status_label QUEUED = ''Queued''"
| "status_label READY = ''Initializing''"
| "status_label RUNNING = ''Running''"
| "status_label CANCELED = ''Canceled''"
| "status_label COMPLETED = ''Completed''"
| "status_label FAILED = ''Failed''"

lemma status_value_inject [simp]: "status_value s = status_value t \<longleftrightarrow> s = t"
  by (cases s; cases t) simp_all

lemma status_value_not_total [simp]: "status_value s \<noteq> ''total''" "''total'' \<noteq> status_value s"
  by (cases s; simp)+

record test_run_location = base_bare_model +
  test_run :: string
  location :: string
  num_workers :: nat
  online_workers :: nat
  status :: status
  status_description :: string

text \<open>The truth value of a key, as in \<open>if not self.pk\<close>.\<close>

definition pk_true :: "nat option \<Rightarrow> bool" where
  "pk_true k \<longleftrightarrow> (case k of None \<Rightarrow> False | Some i \<Rightarrow> i \<noteq> 0)"

text \<open>The field defaults of the models.\<close>

definition default_repo :: string where
  "default_repo = ''github.com/ReviewSignal/k6-WordPress-benchmarks''"

definition new_test_run :: "string \<Rightarrow> string \<Rightarrow> test_run" where
  "new_test_run tgt output =
     \<lparr>pk = None, created_at = 0, updated_at = 0, name = '''', target = tgt,
      test_output = output, source_repo = default_repo, source_ref = ''main'',
      source_script = ''loadtest.js'', started_at = None, completed_at = None,
      resources_cpu = ''1'', resources_memory = ''2G'', dedicated_nodes = True,
      node_selector = '''', job_deadline = ''1h'', draft = True\<rparr>"

definition new_test_run_location :: "string \<Rightarrow> string \<Rightarrow> test_run_location" where
  "new_test_run_location run loc =
     \<lparr>pk = None, test_run = run, location = loc, num_workers = 1, online_workers = 0,
      status = PENDING, status_description = ''''\<rparr>"

section \<open>Severity order of the statuses\<close>

text \<open>
  The linear order in which the admin page looks for the status of a whole run: a single
  failed location decides, then a canceled one, and a run is completed only when every
  location is.
\<close>

fun severity :: "status \<Rightarrow> nat" where
  "severity FAILED = 0"
| "severity CANCELED = 1"
| "severity PENDING = 2"
| "severity QUEUED = 3"
| "severity READY = 4"
| "severity RUNNING = 5"
| "severity COMPLETED = 6"

lemma severity_inject [simp]: "severity s = severity t \<longleftrightarrow> s = t"
  by (cases s; cases t) simp_all

instantiation status :: linorder
begin

definition less_eq_status :: "status \<Rightarrow> status \<Rightarrow> bool" where
  "less_eq_status s t \<longleftrightarrow> severity s \<le> severity t"

definition less_status :: "status \<Rightarrow> status \<Rightarrow> bool" where
  "less_status s t \<longleftrightarrow> severity s < severity t"

instance
  by standard (auto simp: less_eq_status_def less_status_def)

end

section \<open>The transition table\<close>

text \<open>
  One entry per \<open>@transition\<close> decorator: the method, its source (\<open>None\<close> is the default
  source \<open>"*"\<close>, any state) and its target.
\<close>

datatype transition = Transition (t_name: string) (t_source: "status option") (t_target: status)

definition status_transitions :: "transition list" where
  "status_transitions =
     [Transition ''accept'' (Some PENDING) QUEUED,
      Transition ''ready'' (Some QUEUED) READY,
      Transition ''start'' (Some READY) RUNNING,
      Transition ''finish'' (Some RUNNING) COMPLETED,
      Transition ''fail'' None FAILED,
      Transition ''cancel'' None CANCELED,
      Transition ''retry'' (Some FAILED) PENDING]"

definition t_allows :: "status \<Rightarrow> transition \<Rightarrow> bool" where
  "t_allows s t \<longleftrightarrow> t_source t = None \<or> t_source t = Some s"

text \<open>The edges the table declares, as a step relation on statuses.\<close>

inductive status_edge :: "status \<Rightarrow> status \<Rightarrow> bool" where
  edge_accept: "status_edge PENDING QUEUED"
| edge_ready: "status_edge QUEUED READY"
| edge_start: "status_edge READY RUNNING"
| edge_finish: "status_edge RUNNING COMPLETED"
| edge_fail: "status_edge s FAILED"
| edge_cancel: "status_edge s CANCELED"
| edge_retry: "status_edge FAILED PENDING"

code_pred status_edge .

inductive_simps status_edge_simps [simp]:
  "status_edge s PENDING" "status_edge s QUEUED" "status_edge s READY"
  "status_edge s RUNNING" "status_edge s COMPLETED" "status_edge s CANCELED"
  "status_edge s FAILED"

lemma status_edge_table:
  "status_edge s t \<longleftrightarrow> (\<exists>tr \<in> set status_transitions. t_allows s tr \<and> t_target tr = t)"
  by (cases t) (auto simp: status_transitions_def t_allows_def)

section \<open>Exceptions and the database\<close>

datatype exn =
    IntegrityError string
  | DoesNotExist string
  | MultipleObjectsReturned
  | TransitionNotAllowed string
  | ValidationError string
  | ValueError string
  | AttributeError string
  | Http404

record database =
  tbl_location :: "test_location list"
  tbl_output :: "test_output_config list"
  tbl_test_run :: "test_run list"
  tbl_label :: "test_run_label list"
  tbl_env_var :: "test_run_env_var list"
  tbl_run_location :: "test_run_location list"

type_synonym 'a web = "(database, exn, 'a) prog"

text \<open>The related managers: the rows that point at a run by its name.\<close>

definition locations_of :: "string \<Rightarrow> database \<Rightarrow> test_run_location list" where
  "locations_of n db = filter (\<lambda>l. test_run l = n) (tbl_run_location db)"

definition env_vars_of :: "string \<Rightarrow> database \<Rightarrow> test_run_env_var list" where
  "env_vars_of n db = filter (\<lambda>v. env_var_test_run v = n) (tbl_env_var db)"

definition labels_of :: "string \<Rightarrow> database \<Rightarrow> test_run_label list" where
  "labels_of n db = filter (\<lambda>v. label_test_run v = n) (tbl_label db)"

section \<open>The world of a request\<close>

text \<open>
  The clock reading of the request, the database's choice of a fresh key, and the
  third-party functions the code calls: \<open>get_random_string\<close>, \<open>slugify\<close>,
  \<open>durationpy.from_str\<close> (\<open>None\<close> is a \<open>DurationError\<close>), and of django-fsm the available
  transitions of a state and the target a transition method leads to (\<open>None\<close> is
  \<open>TransitionNotAllowed\<close>). \<open>fsm_bare\<close> says whether \<open>Transition.method\<close> is the undecorated
  function or the decorated one; nothing proved here depends on it.
\<close>

record env =
  now :: datetime
  new_pk :: "nat list \<Rightarrow> nat"
  random_string :: string
  slugify :: "string \<Rightarrow> string"
  duration_from_str :: "string \<Rightarrow> timedelta option"
  fsm_available :: "transition list \<Rightarrow> status \<Rightarrow> transition list"
  fsm_target :: "transition list \<Rightarrow> string \<Rightarrow> status \<Rightarrow> status option"
  fsm_bare :: bool

text \<open>
  What the code relies on, as documented: a new key is fresh, django-fsm lists the
  transitions the state allows (in some order) and moves along the first allowed one.
\<close>

definition fresh_pk :: "env \<Rightarrow> bool" where
  "fresh_pk e \<longleftrightarrow> (\<forall>ks. new_pk e ks \<notin> set ks)"

definition fsm_lists :: "env \<Rightarrow> bool" where
  "fsm_lists e \<longleftrightarrow> (\<forall>ts s. mset (fsm_available e ts s) = mset (filter (t_allows s) ts))"

definition fsm_moves :: "env \<Rightarrow> bool" where
  "fsm_moves e \<longleftrightarrow>
     (\<forall>ts m s. fsm_target e ts m s =
        map_option t_target (find (\<lambda>t. t_name t = m \<and> t_allows s t) ts))"

text \<open>
  What \<open>slugify\<close> and \<open>get_random_string\<close> are documented to do, as far as the name needs it:
  the suffix is not empty and made of digits and lower-case letters, which a slug keeps,
  and a slug has only the characters of a slug.
\<close>

definition lower_alnum :: "char \<Rightarrow> bool" where
  "lower_alnum c \<longleftrightarrow> (let n = of_char c :: nat in (97 \<le> n \<and> n \<le> 122) \<or> (48 \<le> n \<and> n \<le> 57))"

definition slug_char :: "char \<Rightarrow> bool" where
  "slug_char c \<longleftrightarrow> lower_alnum c \<or> c = CHR ''-'' \<or> c = CHR ''_''"

definition slugs :: "env \<Rightarrow> bool" where
  "slugs e \<longleftrightarrow>
     random_string e \<noteq> '''' \<and> list_all lower_alnum (random_string e) \<and>
     (\<forall>s c. c \<in> set s \<longrightarrow> lower_alnum c \<longrightarrow> c \<in> set (slugify e s)) \<and>
     (\<forall>s. list_all slug_char (slugify e s))"

text \<open>A concrete world in which these hold, for the examples.\<close>

definition max_pk :: "nat list \<Rightarrow> nat" where
  "max_pk ks = Suc (fold max ks 0)"

definition sample_env :: "datetime \<Rightarrow> env" where
  "sample_env t =
     \<lparr>now = t, new_pk = max_pk, random_string = ''k3x9a'', slugify = filter slug_char,
      duration_from_str = (\<lambda>s. if s = ''1h'' then Some 3600000000 else None),
      fsm_available = (\<lambda>ts s. filter (t_allows s) ts),
      fsm_target = (\<lambda>ts m s. map_option t_target (find (\<lambda>t. t_name t = m \<and> t_allows s t) ts)),
      fsm_bare = True\<rparr>"

lemma fold_max_ge: "a \<le> fold max ks a \<and> (\<forall>k \<in> set ks. k \<le> fold max ks (a :: nat))"
  by (induction ks arbitrary: a) (simp, force simp: max_def)

text \<open>A world with all of it.\<close>

definition env_ok :: "env \<Rightarrow> bool" where
  "env_ok e \<longleftrightarrow> fresh_pk e \<and> slugs e \<and> fsm_lists e \<and> fsm_moves e"

lemma sample_env_laws: "fresh_pk (sample_env t)" "fsm_lists (sample_env t)" "fsm_moves (sample_env t)"
  "slugs (sample_env t)"
proof -
  have "max_pk ks \<notin> set ks" for ks
    using fold_max_ge [of 0 ks] by (auto simp: max_pk_def)
  then show "fresh_pk (sample_env t)" by (simp add: fresh_pk_def sample_env_def)
  show "fsm_lists (sample_env t)" by (simp add: fsm_lists_def sample_env_def)
  show "fsm_moves (sample_env t)" by (simp add: fsm_moves_def sample_env_def)
  show "slugs (sample_env t)"
    by (auto simp: slugs_def sample_env_def slug_char_def lower_alnum_def list_all_iff)
qed

lemma sample_env_ok: "env_ok (sample_env t)"
  by (simp add: env_ok_def sample_env_laws)

text \<open>
  A concrete database: a run, a draft or not, at two locations with two workers and three,
  whose statuses are given.
\<close>

definition sample_location :: "nat \<Rightarrow> string \<Rightarrow> test_location" where
  "sample_location k n =
     \<lparr>pk = Some k, created_at = 0, updated_at = 0, name = n, display_name = n, last_ping = None\<rparr>"

definition sample_output :: "test_output_config" where
  "sample_output =
     \<lparr>pk = Some 1, created_at = 0, updated_at = 0, name = ''default'',
      influxdb_url = ''https://influx.example'', influxdb_token = ''t0'',
      influxdb_org = ''default'', influxdb_bucket = ''default'', insecure_skip_verify = False\<rparr>"

definition sample_run :: "bool \<Rightarrow> test_run" where
  "sample_run is_draft =
     (new_test_run ''https://shop.example'' ''default'')\<lparr>pk := Some 7, name := ''shop-a1'', draft := is_draft\<rparr>"

definition sample_row :: "nat \<Rightarrow> string \<Rightarrow> nat \<Rightarrow> status \<Rightarrow> test_run_location" where
  "sample_row k loc workers s =
     (new_test_run_location ''shop-a1'' loc)\<lparr>pk := Some k, num_workers := workers, status := s\<rparr>"

definition sample_db :: "bool \<Rightarrow> status \<Rightarrow> status \<Rightarrow> database" where
  "sample_db is_draft s1 s2 =
     \<lparr>tbl_location = [sample_location 1 ''eu'', sample_location 2 ''us''],
      tbl_output = [sample_output], tbl_test_run = [sample_run is_draft],
      tbl_label = [\<lparr>pk = Some 1, label_name = ''team'', label_value = ''perf'', label_test_run = ''shop-a1''\<rparr>],
      tbl_env_var = [\<lparr>pk = Some 1, env_var_name = ''VUS'', env_var_value = ''50'', env_var_test_run = ''shop-a1''\<rparr>],
      tbl_run_location = [sample_row 4 ''eu'' 2 s1, sample_row 5 ''us'' 3 s2]\<rparr>"

lemmas sample_defs = sample_db_def sample_row_def sample_run_def sample_output_def
  sample_location_def new_test_run_def new_test_run_location_def

end
