(* ===== verification/Store.thy ===== *)
theory Store
  imports Models
begin

text \<open>
  Saving and looking rows up: \<open>Model.save\<close> for each model with the constraints the models
  declare (unique names, \<open>unique_together\<close>, foreign keys), the key and timestamp fields a
  save fills in, the integrity of the database and that saves keep it.
\<close>

section \<open>Saving a row\<close>

text \<open>A new object gets a key, a stored one keeps its own.\<close>

definition assign_pk ::
  "env \<Rightarrow> 'a base_bare_model_scheme list \<Rightarrow> 'a base_bare_model_scheme \<Rightarrow> 'a base_bare_model_scheme" where
  "assign_pk e rows r =
     (case pk r of None \<Rightarrow> r\<lparr>pk := Some (new_pk e (List.map_filter pk rows))\<rparr> | Some k \<Rightarrow> r)"

definition has_row :: "'a base_bare_model_scheme list \<Rightarrow> 'a base_bare_model_scheme \<Rightarrow> bool" where
  "has_row rows r \<longleftrightarrow> list_ex (\<lambda>x. pk x = pk r) rows"

text \<open>\<open>auto_now_add\<close> writes \<open>created_at\<close> on the insert, \<open>auto_now\<close> \<open>updated_at\<close> on every save.\<close>

definition stamp ::
  "env \<Rightarrow> 'a base_named_model_scheme list \<Rightarrow> 'a base_named_model_scheme \<Rightarrow> 'a base_named_model_scheme" where
  "stamp e rows r =
     r\<lparr>created_at := (if has_row rows r then created_at r else now e), updated_at := now e\<rparr>"

definition name_taken :: "'a base_named_model_scheme list \<Rightarrow> 'a base_named_model_scheme \<Rightarrow> bool" where
  "name_taken rows r \<longleftrightarrow> list_ex (\<lambda>x. pk x \<noteq> pk r \<and> name x = name r) rows"

definition has_name :: "string \<Rightarrow> 'a base_named_model_scheme list \<Rightarrow> bool" where
  "has_name n rows \<longleftrightarrow> list_ex (\<lambda>x. name x = n) rows"

definition put_location :: "test_location \<Rightarrow> database \<Rightarrow> database" where
  "put_location r db = db\<lparr>tbl_location := upsert pk r (tbl_location db)\<rparr>"

definition put_output :: "test_output_config \<Rightarrow> database \<Rightarrow> database" where
  "put_output r db = db\<lparr>tbl_output := upsert pk r (tbl_output db)\<rparr>"

definition put_run :: "test_run \<Rightarrow> database \<Rightarrow> database" where
  "put_run r db = db\<lparr>tbl_test_run := upsert pk r (tbl_test_run db)\<rparr>"

definition put_label :: "test_run_label \<Rightarrow> database \<Rightarrow> database" where
  "put_label r db = db\<lparr>tbl_label := upsert pk r (tbl_label db)\<rparr>"

definition put_env_var :: "test_run_env_var \<Rightarrow> database \<Rightarrow> database" where
  "put_env_var r db = db\<lparr>tbl_env_var := upsert pk r (tbl_env_var db)\<rparr>"

definition put_run_location :: "test_run_location \<Rightarrow> database \<Rightarrow> database" where
  "put_run_location r db = db\<lparr>tbl_run_location := upsert pk r (tbl_run_location db)\<rparr>"

lemmas put_defs = put_location_def put_output_def put_run_def put_label_def put_env_var_def
  put_run_location_def

definition save_location :: "env \<Rightarrow> test_location \<Rightarrow> test_location web" where
  "save_location e l = (\<lambda>db.
     let r = stamp e (tbl_location db) (assign_pk e (tbl_location db) l)
     in if name_taken (tbl_location db) r then (Inl (IntegrityError ''name''), db)
        else (Inr r, put_location r db))"

definition save_output :: "env \<Rightarrow> test_output_config \<Rightarrow> test_output_config web" where
  "save_output e x = (\<lambda>db.
     let r = stamp e (tbl_output db) (assign_pk e (tbl_output db) x)
     in if name_taken (tbl_output db) r then (Inl (IntegrityError ''name''), db)
        else (Inr r, put_output r db))"

definition save_run_row :: "env \<Rightarrow> test_run \<Rightarrow> test_run web" where
  "save_run_row e x = (\<lambda>db.
     let r = stamp e (tbl_test_run db) (assign_pk e (tbl_test_run db) x)
     in if name_taken (tbl_test_run db) r then (Inl (IntegrityError ''name''), db)
        else if \<not> has_name (test_output r) (tbl_output db)
        then (Inl (IntegrityError ''test_output''), db)
        else (Inr r, put_run r db))"

text \<open>\<open>TestRun.save\<close>: a run without a name is named after its target.\<close>

definition generated_name :: "env \<Rightarrow> string \<Rightarrow> string" where
  "generated_name e tgt =
     (let host = py_replace ''http://'' '''' (py_replace ''https://'' '''' tgt)
      in slugify e (py_replace ''.'' ''-'' (py_replace ''/'' ''-'' host) @ ''-'' @ random_string e))"

definition save_test_run :: "env \<Rightarrow> test_run \<Rightarrow> test_run web" where
  "save_test_run e x =
     save_run_row e (if name x = '''' then x\<lparr>name := generated_name e (target x)\<rparr> else x)"

definition save_label :: "env \<Rightarrow> test_run_label \<Rightarrow> test_run_label web" where
  "save_label e x = (\<lambda>db.
     let r = assign_pk e (tbl_label db) x
     in if \<not> has_name (label_test_run r) (tbl_test_run db)
        then (Inl (IntegrityError ''test_run''), db) else (Inr r, put_label r db))"

definition save_env_var :: "env \<Rightarrow> test_run_env_var \<Rightarrow> test_run_env_var web" where
  "save_env_var e x = (\<lambda>db.
     let r = assign_pk e (tbl_env_var db) x
     in if \<not> has_name (env_var_test_run r) (tbl_test_run db)
        then (Inl (IntegrityError ''test_run''), db) else (Inr r, put_env_var r db))"

definition pair_taken :: "test_run_location list \<Rightarrow> test_run_location \<Rightarrow> bool" where
  "pair_taken rows r \<longleftrightarrow>
     list_ex (\<lambda>x. pk x \<noteq> pk r \<and> test_run x = test_run r \<and> location x = location r) rows"

definition save_run_location_row :: "env \<Rightarrow> test_run_location \<Rightarrow> test_run_location web" where
  "save_run_location_row e x = (\<lambda>db.
     let r = assign_pk e (tbl_run_location db) x
     in if pair_taken (tbl_run_location db) r
        then (Inl (IntegrityError ''test_run, location''), db)
        else if \<not> has_name (test_run r) (tbl_test_run db) \<or> \<not> has_name (location r) (tbl_location db)
        then (Inl (IntegrityError ''test_run, location''), db)
        else (Inr r, put_run_location r db))"

lemmas save_defs = save_location_def save_output_def save_run_row_def save_label_def
  save_env_var_def save_run_location_row_def

text \<open>Following the foreign key of an object to its run.\<close>

definition find_run :: "string \<Rightarrow> database \<Rightarrow> test_run option" where
  "find_run n db = by_key name n (tbl_test_run db)"

definition get_run :: "string \<Rightarrow> test_run web" where
  "get_run n = (\<lambda>db. case find_run n db of
     None \<Rightarrow> (Inl (DoesNotExist ''TestRun''), db) | Some r \<Rightarrow> (Inr r, db))"

section \<open>The tables as keyed tables\<close>

definition look_run_location :: "nat option \<Rightarrow> database \<Rightarrow> test_run_location option" where
  "look_run_location k db = by_key pk k (tbl_run_location db)"

definition look_run :: "nat option \<Rightarrow> database \<Rightarrow> test_run option" where
  "look_run k db = by_key pk k (tbl_test_run db)"

definition look_location :: "nat option \<Rightarrow> database \<Rightarrow> test_location option" where
  "look_location k db = by_key pk k (tbl_location db)"

interpretation rl: keyed_table pk look_run_location put_run_location
  by unfold_locales (auto simp: look_run_location_def put_run_location_def by_key_upsert dest: by_key_Some)

interpretation rn: keyed_table pk look_run put_run
  by unfold_locales (auto simp: look_run_def put_run_def by_key_upsert dest: by_key_Some)

interpretation lc: keyed_table pk look_location put_location
  by unfold_locales (auto simp: look_location_def put_location_def by_key_upsert dest: by_key_Some)

section \<open>Integrity\<close>

definition keyed_rows :: "'a base_bare_model_scheme list \<Rightarrow> bool" where
  "keyed_rows rows \<longleftrightarrow> distinct (map pk rows) \<and> (\<forall>r \<in> set rows. pk r \<noteq> None)"

definition named_rows :: "'a base_named_model_scheme list \<Rightarrow> bool" where
  "named_rows rows \<longleftrightarrow> keyed_rows rows \<and> distinct (map name rows)"

definition placed :: "test_run_location \<Rightarrow> string \<times> string" where
  "placed l = (test_run l, location l)"

definition wf_db :: "database \<Rightarrow> bool" where
  "wf_db db \<longleftrightarrow>
     named_rows (tbl_location db) \<and> named_rows (tbl_output db) \<and> named_rows (tbl_test_run db) \<and>
     keyed_rows (tbl_label db) \<and> keyed_rows (tbl_env_var db) \<and> keyed_rows (tbl_run_location db) \<and>
     distinct (map placed (tbl_run_location db)) \<and>
     '''' \<notin> name ` set (tbl_test_run db) \<and>
     test_output ` set (tbl_test_run db) \<subseteq> name ` set (tbl_output db) \<and>
     label_test_run ` set (tbl_label db) \<subseteq> name ` set (tbl_test_run db) \<and>
     env_var_test_run ` set (tbl_env_var db) \<subseteq> name ` set (tbl_test_run db) \<and>
     test_run ` set (tbl_run_location db) \<subseteq> name ` set (tbl_test_run db) \<and>
     location ` set (tbl_run_location db) \<subseteq> name ` set (tbl_location db)"

lemma has_name_iff: "has_name n rows \<longleftrightarrow> n \<in> name ` set rows"
  by (induction rows) (auto simp: has_name_def)

lemma has_row_iff: "has_row rows r \<longleftrightarrow> pk r \<in> pk ` set rows"
  by (induction rows) (auto simp: has_row_def)

lemma name_taken_iff: "name_taken rows r \<longleftrightarrow> (\<exists>x \<in> set rows. pk x \<noteq> pk r \<and> name x = name r)"
  by (simp add: name_taken_def list_ex_iff)

lemma pair_taken_iff: "pair_taken rows r \<longleftrightarrow> (\<exists>x \<in> set rows. pk x \<noteq> pk r \<and> placed x = placed r)"
  by (simp add: pair_taken_def list_ex_iff placed_def)

lemmas taken_iff = has_name_iff has_row_iff name_taken_iff pair_taken_iff

lemma assign_pk_Some: "pk (assign_pk e rows r) \<noteq> None"
  by (simp add: assign_pk_def split: option.split)

lemma assign_pk_stored [simp]: "pk r = Some k \<Longrightarrow> assign_pk e rows r = r"
  by (simp add: assign_pk_def)

lemma new_pk_fresh:
  assumes "fresh_pk e" and "pk r = None" and "\<forall>x \<in> set rows. pk x \<noteq> None"
  shows "pk (assign_pk e rows r) \<notin> pk ` set rows"
proof
  assume "pk (assign_pk e rows r) \<in> pk ` set rows"
  then obtain x where "x \<in> set rows" and "pk x = Some (new_pk e (List.map_filter pk rows))"
    using assms(2) by (auto simp: assign_pk_def)
  then have "new_pk e (List.map_filter pk rows) \<in> set (List.map_filter pk rows)"
    by (force simp: List.map_filter_def)
  with assms(1) show False by (simp add: fresh_pk_def)
qed

lemma keyed_rows_upsert:
  "keyed_rows rows \<Longrightarrow> pk r \<noteq> None \<Longrightarrow> keyed_rows (upsert pk r rows)"
  by (auto simp: keyed_rows_def set_upsert distinct_upsert)

text \<open>A second key (a unique name, a unique pair) stays distinct when the save checked it.\<close>

lemma distinct_key_upsert:
  assumes "distinct (map pk rows)" and "distinct (map f rows)"
    and "\<not> (\<exists>x \<in> set rows. pk x \<noteq> pk r \<and> f x = f r)"
  shows "distinct (map f (upsert pk r rows))"
proof (cases "pk r \<in> pk ` set rows")
  case False
  then have "upsert pk r rows = rows @ [r]" by (simp add: upsert_def list_ex_key)
  moreover have "f r \<notin> f ` set rows"
  proof
    assume "f r \<in> f ` set rows"
    then obtain x where "x \<in> set rows" and "f x = f r" by force
    with assms(3) False show False by (metis imageI)
  qed
  ultimately show ?thesis using assms(2) by simp
next
  case True
  have "inj_on f (set (upsert pk r rows))"
    using assms by (auto simp: set_upsert inj_on_def distinct_map)
  moreover have "distinct (upsert pk r rows)"
    using distinct_upsert [OF assms(1), of r] by (simp add: distinct_map)
  ultimately show ?thesis by (simp add: distinct_map)
qed

lemma named_rows_upsert:
  "named_rows rows \<Longrightarrow> pk r \<noteq> None \<Longrightarrow> \<not> name_taken rows r \<Longrightarrow> named_rows (upsert pk r rows)"
  by (simp add: named_rows_def keyed_rows_upsert name_taken_iff distinct_key_upsert
      keyed_rows_def [of rows])

section \<open>Saves keep the database well formed\<close>

text \<open>
  Foreign keys point at names, so a save of a stored row may not rename it; a new row is
  free in its choice.
\<close>

definition keeps_name :: "'a base_named_model_scheme list \<Rightarrow> 'a base_named_model_scheme \<Rightarrow> bool" where
  "keeps_name rows r \<longleftrightarrow> (\<forall>x \<in> set rows. pk x = pk r \<longrightarrow> name x = name r)"

lemma names_upsert:
  "keeps_name rows r \<Longrightarrow> name ` set (upsert pk r rows) = insert (name r) (name ` set rows)"
  by (force simp: set_upsert keeps_name_def)

lemma images_upsert: "f ` set rows \<subseteq> A \<Longrightarrow> f r \<in> A \<Longrightarrow> f ` set (upsert key r rows) \<subseteq> A"
  by (auto simp: set_upsert)

lemma keeps_name_stored:
  "named_rows rows \<Longrightarrow> x \<in> set rows \<Longrightarrow> pk r = pk x \<Longrightarrow> name r = name x \<Longrightarrow> keeps_name rows r"
  by (auto simp: keeps_name_def named_rows_def keyed_rows_def distinct_map dest: inj_onD)

lemma keeps_name_new: "pk r \<notin> pk ` set rows \<Longrightarrow> keeps_name rows r"
  unfolding keeps_name_def by (metis imageI)

lemma name_taken_stored:
  assumes "named_rows rows" and "x \<in> set rows" and "pk r = pk x" and "name r = name x"
  shows "\<not> name_taken rows r"
  using assms by (auto simp: name_taken_iff named_rows_def keyed_rows_def distinct_map dest: inj_onD)

lemma stamp_simps [simp]:
  "pk (stamp e rows r) = pk r" "name (stamp e rows r) = name r"
  "base_named_model.more (stamp e rows r) = base_named_model.more r"
  by (simp_all add: stamp_def)

lemma wf_put_run_location:
  assumes "wf_db db" and "pk r \<noteq> None" and "\<not> pair_taken (tbl_run_location db) r"
    and "has_name (test_run r) (tbl_test_run db)" and "has_name (location r) (tbl_location db)"
  shows "wf_db (put_run_location r db)"
proof -
  have "distinct (map placed (upsert pk r (tbl_run_location db)))"
    using assms by (intro distinct_key_upsert) (auto simp: wf_db_def keyed_rows_def pair_taken_iff)
  with assms show ?thesis
    by (auto simp: wf_db_def put_run_location_def keyed_rows_upsert set_upsert has_name_iff)
qed

lemma wf_put_run:
  assumes "wf_db db" and "pk r \<noteq> None" and "\<not> name_taken (tbl_test_run db) r"
    and "has_name (test_output r) (tbl_output db)" and "keeps_name (tbl_test_run db) r"
    and "name r \<noteq> ''''"
  shows "wf_db (put_run r db)"
proof -
  have "test_output ` set (upsert pk r (tbl_test_run db)) \<subseteq> name ` set (tbl_output db)"
    using assms by (intro images_upsert) (simp_all add: wf_db_def has_name_iff)
  with assms show ?thesis
    by (simp add: wf_db_def put_run_def named_rows_upsert names_upsert subset_insertI2)
qed

lemma wf_put_location:
  assumes "wf_db db" and "pk r \<noteq> None" and "\<not> name_taken (tbl_location db) r"
    and "keeps_name (tbl_location db) r"
  shows "wf_db (put_location r db)"
  using assms by (auto simp: wf_db_def put_location_def named_rows_upsert names_upsert)

lemma wf_put_output:
  assumes "wf_db db" and "pk r \<noteq> None" and "\<not> name_taken (tbl_output db) r"
    and "keeps_name (tbl_output db) r"
  shows "wf_db (put_output r db)"
  using assms by (auto simp: wf_db_def put_output_def named_rows_upsert names_upsert)

lemma wf_put_label:
  assumes "wf_db db" and "pk r \<noteq> None" and "has_name (label_test_run r) (tbl_test_run db)"
  shows "wf_db (put_label r db)"
  using assms by (auto simp: wf_db_def put_label_def keyed_rows_upsert set_upsert has_name_iff)

lemma wf_put_env_var:
  assumes "wf_db db" and "pk r \<noteq> None" and "has_name (env_var_test_run r) (tbl_test_run db)"
  shows "wf_db (put_env_var r db)"
  using assms by (auto simp: wf_db_def put_env_var_def keyed_rows_upsert set_upsert has_name_iff)

lemma wf_save_run_location_row:
  "wf_db db \<Longrightarrow> save_run_location_row e x db = (res, db') \<Longrightarrow> wf_db db'"
  using assign_pk_Some
  by (fastforce simp: save_run_location_row_def Let_def split: if_splits intro: wf_put_run_location)

lemma wf_save_label: "wf_db db \<Longrightarrow> save_label e x db = (res, db') \<Longrightarrow> wf_db db'"
  using assign_pk_Some
  by (fastforce simp: save_label_def Let_def split: if_splits intro: wf_put_label)

lemma wf_save_env_var: "wf_db db \<Longrightarrow> save_env_var e x db = (res, db') \<Longrightarrow> wf_db db'"
  using assign_pk_Some
  by (fastforce simp: save_env_var_def Let_def split: if_splits intro: wf_put_env_var)

lemma wf_rows:
  assumes "wf_db db"
  shows "named_rows (tbl_location db)" "named_rows (tbl_output db)" "named_rows (tbl_test_run db)"
    "keyed_rows (tbl_run_location db)"
  using assms by (simp_all add: wf_db_def)

lemma wf_run_named: "wf_db db \<Longrightarrow> r \<in> set (tbl_test_run db) \<Longrightarrow> name r \<noteq> ''''"
  unfolding wf_db_def by (metis imageI)

lemma wf_location_refs:
  assumes "wf_db db" and "l \<in> set (tbl_run_location db)"
  shows "has_name (test_run l) (tbl_test_run db)" "has_name (location l) (tbl_location db)" "pk l \<noteq> None"
proof -
  from assms(1) have "test_run ` set (tbl_run_location db) \<subseteq> name ` set (tbl_test_run db)"
    and "location ` set (tbl_run_location db) \<subseteq> name ` set (tbl_location db)"
    and "\<forall>l \<in> set (tbl_run_location db). pk l \<noteq> None"
    by (simp_all add: wf_db_def keyed_rows_def)
  with assms(2) show "has_name (test_run l) (tbl_test_run db)" "has_name (location l) (tbl_location db)"
    "pk l \<noteq> None"
    by (simp_all add: has_name_iff image_subset_iff)
qed

lemma wf_run_output:
  assumes "wf_db db" and "r \<in> set (tbl_test_run db)"
  shows "has_name (test_output r) (tbl_output db)"
proof -
  from assms(1) have "test_output ` set (tbl_test_run db) \<subseteq> name ` set (tbl_output db)"
    by (simp add: wf_db_def)
  with assms(2) show ?thesis by (simp add: has_name_iff image_subset_iff)
qed

lemma keyed_rows_same:
  "keyed_rows rows \<Longrightarrow> x \<in> set rows \<Longrightarrow> y \<in> set rows \<Longrightarrow> pk x = pk y \<Longrightarrow> x = y"
  by (auto simp: keyed_rows_def distinct_map dest: inj_onD)

lemma named_rows_same:
  "named_rows rows \<Longrightarrow> x \<in> set rows \<Longrightarrow> y \<in> set rows \<Longrightarrow> name x = name y \<Longrightarrow> x = y"
  by (auto simp: named_rows_def distinct_map dest: inj_onD)

lemma named_rows_pk: "named_rows rows \<Longrightarrow> x \<in> set rows \<Longrightarrow> pk x \<noteq> None"
  by (auto simp: named_rows_def keyed_rows_def)

text \<open>A stored location can be saved under its name.\<close>

lemma save_stored_test_location:
  assumes wf: "wf_db db" and x: "x \<in> set (tbl_location db)" and l: "pk l = pk x" "name l = name x"
  shows "save_location e l db =
    (Inr (l\<lparr>updated_at := now e\<rparr>), put_location (l\<lparr>updated_at := now e\<rparr>) db)"
    and "wf_db (put_location (l\<lparr>updated_at := now e\<rparr>) db)"
proof -
  let ?l = "l\<lparr>updated_at := now e\<rparr>"
  obtain k where k: "pk l = Some k" using named_rows_pk [OF wf_rows(1) [OF wf] x] l(1) by auto
  have "has_row (tbl_location db) l" using x l by (auto simp: has_row_iff intro: rev_image_eqI)
  then have st: "stamp e (tbl_location db) (assign_pk e (tbl_location db) l) = ?l"
    using k by (simp add: stamp_def)
  have free: "\<not> name_taken (tbl_location db) ?l"
    using wf_rows(1) [OF wf] x l by (intro name_taken_stored [of _ x]) simp_all
  show "save_location e l db = (Inr ?l, put_location ?l db)"
    using st free by (simp add: save_location_def Let_def)
  show "wf_db (put_location ?l db)"
    using wf k free keeps_name_stored [OF wf_rows(1) [OF wf] x, of ?l] l
    by (intro wf_put_location) simp_all
qed

section \<open>Rows changed in place\<close>

text \<open>
  Saving a changed stored row is a map over the table: the form in which the effect of a
  request on a whole table is stated.
\<close>

definition update_run :: "string \<Rightarrow> (test_run \<Rightarrow> test_run) \<Rightarrow> database \<Rightarrow> database" where
  "update_run n f db =
     db\<lparr>tbl_test_run := map (\<lambda>r. if name r = n then f r else r) (tbl_test_run db)\<rparr>"

definition update_run_locations ::
  "(test_run_location \<Rightarrow> test_run_location) \<Rightarrow> database \<Rightarrow> database" where
  "update_run_locations f db = db\<lparr>tbl_run_location := map f (tbl_run_location db)\<rparr>"

lemma find_run_row: "find_run n db = Some r \<Longrightarrow> r \<in> set (tbl_test_run db) \<and> name r = n"
  by (auto simp: find_run_def dest: by_key_Some)

lemma find_run_name:
  "wf_db db \<Longrightarrow> r \<in> set (tbl_test_run db) \<Longrightarrow> find_run (name r) db = Some r"
  by (simp add: find_run_def wf_db_def named_rows_def by_key_unique)

lemma find_run_exists: "has_name n (tbl_test_run db) \<longleftrightarrow> (\<exists>r. find_run n db = Some r)"
  using by_key_None [of name n "tbl_test_run db"]
  by (auto simp: has_name_iff find_run_def simp del: not_None_eq)

lemma put_run_update:
  assumes wf: "wf_db db" and r: "r \<in> set (tbl_test_run db)" and "pk (f r) = pk r"
  shows "put_run (f r) db = update_run (name r) f db"
proof -
  have same: "pk x = pk r \<longleftrightarrow> name x = name r" "name x = name r \<Longrightarrow> x = r"
    if "x \<in> set (tbl_test_run db)" for x
    using that r wf
    by (auto simp: wf_db_def named_rows_def keyed_rows_def distinct_map dest: inj_onD)
  have "list_ex (\<lambda>x. pk x = pk (f r)) (tbl_test_run db)"
    using r assms(3) by (auto simp: list_ex_iff)
  then have "upsert pk (f r) (tbl_test_run db) =
      map (\<lambda>x. if name x = name r then f x else x) (tbl_test_run db)"
    using assms(3) same by (auto simp: upsert_def)
  then show ?thesis by (simp add: put_run_def update_run_def)
qed

text \<open>Saving a stored run whose key, name and output are unchanged cannot fail.\<close>

lemma save_stored_run:
  assumes wf: "wf_db db" and r: "r \<in> set (tbl_test_run db)"
    and f: "pk (f r) = pk r" "name (f r) = name r" "test_output (f r) = test_output r"
  shows "save_test_run e (f r) db =
    (Inr ((f r)\<lparr>updated_at := now e\<rparr>), update_run (name r) (\<lambda>x. (f x)\<lparr>updated_at := now e\<rparr>) db)"
proof -
  let ?g = "\<lambda>x. (f x)\<lparr>updated_at := now e\<rparr>"
  have nm: "name r \<noteq> ''''" using wf r by (rule wf_run_named)
  from r wf obtain k where k: "pk r = Some k"
    by (meson named_rows_pk not_None_eq wf_rows(3))
  have row: "has_row (tbl_test_run db) (f r)" using r f(1) by (auto simp: has_row_iff)
  have st: "stamp e (tbl_test_run db) (assign_pk e (tbl_test_run db) (f r)) = ?g r"
    using k f(1) row by (simp add: stamp_def)
  have free: "\<not> name_taken (tbl_test_run db) (?g r)"
    using wf r f by (intro name_taken_stored [of _ r]) (auto simp: wf_db_def)
  have out: "has_name (test_output (?g r)) (tbl_output db)"
    using wf r f(3) by (auto simp: has_name_iff wf_db_def)
  have "put_run (?g r) db = update_run (name r) ?g db"
    using wf r f(1) by (intro put_run_update) auto
  with nm f(2) st free out show ?thesis
    by (simp add: save_test_run_def save_run_row_def)
qed

text \<open>The same for a row read earlier: what counts is that its key and name are stored.\<close>

definition run_stored_at :: "database \<Rightarrow> test_run \<Rightarrow> bool" where
  "run_stored_at db r \<longleftrightarrow>
     (\<exists>x \<in> set (tbl_test_run db). pk x = pk r \<and> name x = name r) \<and>
     has_name (test_output r) (tbl_output db)"

lemma save_run_stored_at:
  assumes wf: "wf_db db" and "run_stored_at db r"
  shows "save_test_run e r db = (Inr (r\<lparr>updated_at := now e\<rparr>), put_run (r\<lparr>updated_at := now e\<rparr>) db)"
    and "wf_db (put_run (r\<lparr>updated_at := now e\<rparr>) db)"
proof -
  let ?r = "r\<lparr>updated_at := now e\<rparr>"
  from assms(2) obtain x where x: "x \<in> set (tbl_test_run db)" "pk x = pk r" "name x = name r"
    and out: "has_name (test_output r) (tbl_output db)"
    by (auto simp: run_stored_at_def)
  have "pk r \<noteq> None" using wf x named_rows_pk by (force simp: wf_db_def)
  then obtain k where k: "pk r = Some k" by auto
  have row: "has_row (tbl_test_run db) r" using x by (auto simp: has_row_iff intro: rev_image_eqI)
  have st: "stamp e (tbl_test_run db) (assign_pk e (tbl_test_run db) r) = ?r"
    using k row by (simp add: stamp_def)
  have free: "\<not> name_taken (tbl_test_run db) ?r"
    using wf x by (intro name_taken_stored [of _ x]) (auto simp: wf_db_def)
  have nm: "name r \<noteq> ''''" using wf_run_named [OF wf x(1)] x(3) by simp
  show "save_test_run e r db = (Inr ?r, put_run ?r db)"
    using nm st free out by (simp add: save_test_run_def save_run_row_def Let_def)
  show "wf_db (put_run ?r db)"
    using wf k free out nm keeps_name_stored [of "tbl_test_run db" x ?r] x
    by (intro wf_put_run) (auto simp: wf_db_def)
qed

lemma update_run_names [simp]:
  "(\<And>r. name (f r) = name r) \<Longrightarrow> map name (tbl_test_run (update_run n f db)) = map name (tbl_test_run db)"
  by (simp add: update_run_def)

lemma find_map_if:
  "(\<And>r. P (f r) \<longleftrightarrow> P r) \<Longrightarrow> find P (map (\<lambda>r. if Q r then f r else r) xs) =
     map_option (\<lambda>r. if Q r then f r else r) (find P xs)"
  by (induction xs) auto

lemma find_run_update:
  "(\<And>r. name (f r) = name r) \<Longrightarrow> find_run m (update_run n f db) =
     map_option (\<lambda>r. if name r = n then f r else r) (find_run m db)"
  by (simp add: find_run_def by_key_def update_run_def find_map_if)

definition update_runs :: "(test_run \<Rightarrow> test_run) \<Rightarrow> database \<Rightarrow> database" where
  "update_runs f db = db\<lparr>tbl_test_run := map f (tbl_test_run db)\<rparr>"

lemma update_run_runs: "update_run n f = update_runs (\<lambda>r. if name r = n then f r else r)"
  by (simp add: update_run_def update_runs_def fun_eq_iff)

lemma wf_update_runs:
  assumes "wf_db db" and f: "\<And>r. pk (f r) = pk r" "\<And>r. name (f r) = name r"
    "\<And>r. test_output (f r) = test_output r"
  shows "wf_db (update_runs f db)"
proof -
  let ?t = "map f (tbl_test_run db)"
  have keys: "map pk ?t = map pk (tbl_test_run db)" and nm: "map name ?t = map name (tbl_test_run db)"
    and outs: "map test_output ?t = map test_output (tbl_test_run db)"
    using f by simp_all
  have "name ` set ?t = name ` set (tbl_test_run db)"
    using nm by (metis list.set_map)
  moreover have "test_output ` set ?t = test_output ` set (tbl_test_run db)"
    using outs by (metis list.set_map)
  moreover have "named_rows ?t"
  proof -
    have "distinct (map pk ?t)" and "distinct (map name ?t)"
      unfolding keys nm using assms(1) by (simp_all add: wf_db_def named_rows_def keyed_rows_def)
    moreover have "\<forall>r \<in> set ?t. pk r \<noteq> None"
      using assms(1) f(1) by (auto simp: wf_db_def named_rows_def keyed_rows_def)
    ultimately show ?thesis by (simp only: named_rows_def keyed_rows_def simp_thms)
  qed
  ultimately show ?thesis
    using assms(1) by (simp add: wf_db_def update_runs_def)
qed

lemma wf_update_run:
  assumes "wf_db db" and "\<And>r. pk (f r) = pk r" "\<And>r. name (f r) = name r"
    "\<And>r. test_output (f r) = test_output r"
  shows "wf_db (update_run n f db)"
  unfolding update_run_runs using assms by (intro wf_update_runs) simp_all

lemma wf_update_run_locations:
  assumes "wf_db db"
    and f: "\<And>l. pk (f l) = pk l" "\<And>l. test_run (f l) = test_run l" "\<And>l. location (f l) = location l"
  shows "wf_db (update_run_locations f db)"
proof -
  let ?t = "map f (tbl_run_location db)"
  have keys: "map placed ?t = map placed (tbl_run_location db)"
    "map pk ?t = map pk (tbl_run_location db)"
    using f by (simp_all add: placed_def)
  have "distinct (map placed ?t)" "keyed_rows ?t"
    unfolding keyed_rows_def keys using assms(1) f(1) by (auto simp: wf_db_def keyed_rows_def)
  moreover have "test_run ` set ?t = test_run ` set (tbl_run_location db)"
    "location ` set ?t = location ` set (tbl_run_location db)"
    using f by (simp_all add: image_image)
  ultimately show ?thesis
    using assms(1) by (simp add: wf_db_def update_run_locations_def del: list.set_map map_map)
qed

lemma sample_db_wf: "wf_db (sample_db d s1 s2)"
  by (simp add: wf_db_def named_rows_def keyed_rows_def placed_def sample_defs)

lemma wf_dangling:
  assumes wf: "wf_db db" and n: "\<not> has_name n (tbl_test_run db)"
  shows "locations_of n db = []" "env_vars_of n db = []" "labels_of n db = []"
proof -
  have "test_run ` set (tbl_run_location db) \<subseteq> name ` set (tbl_test_run db)"
    "env_var_test_run ` set (tbl_env_var db) \<subseteq> name ` set (tbl_test_run db)"
    "label_test_run ` set (tbl_label db) \<subseteq> name ` set (tbl_test_run db)"
    using wf by (simp_all add: wf_db_def)
  with n show "locations_of n db = []" "env_vars_of n db = []" "labels_of n db = []"
    unfolding locations_of_def env_vars_of_def labels_of_def filter_empty_conv has_name_iff by blast+
qed

lemma locations_distinct:
  "wf_db db \<Longrightarrow> distinct (map location (locations_of n db))"
proof -
  assume "wf_db db"
  then have d: "distinct (tbl_run_location db)" and i: "inj_on placed (set (tbl_run_location db))"
    by (simp_all add: wf_db_def distinct_map)
  have "inj_on location (set (locations_of n db))"
    using i by (auto simp: inj_on_def locations_of_def placed_def)
  with d show ?thesis by (simp add: distinct_map locations_of_def)
qed

end
