(* ===== verification/Segments.thy ===== *)
theory Segments
  imports Store
begin

text \<open>
  The execution segments of a run: \<open>TestRun.segments\<close>, the boundaries k6 gets as its
  segment sequence, and \<open>TestRunLocation.assigned_segments\<close>, the pieces each location
  hands to its workers. The pieces of all locations, in key order, are exactly the
  consecutive pieces of the sequence.
\<close>

section \<open>Definitions\<close>

definition fraction :: "nat \<Rightarrow> nat \<Rightarrow> string" where
  "fraction idx workers = str_nat idx @ ''/'' @ str_nat workers"

definition segments :: "database \<Rightarrow> test_run \<Rightarrow> string list" where
  "segments db r =
     (if \<not> pk_true (pk r) then []
      else let workers = sum_list (map num_workers (locations_of (name r) db))
           in [''0''] @ map (\<lambda>idx. fraction idx workers) [1..<workers] @ [''1''])"

record segment =
  seg_segment :: string
  seg_segment_id :: string

definition get_segment_part :: "nat \<Rightarrow> nat \<Rightarrow> string" where
  "get_segment_part index tot =
     (if index = 0 then ''0'' else if index = tot then ''1'' else fraction index tot)"

text \<open>
  The two aggregates read the rows of the run before this one (by key) and all of them;
  the sum over no rows is \<open>None\<close> in the database and 0 after the \<open>or 0\<close>. A location
  without a key cannot be compared in the query.
\<close>

definition pk_before :: "nat \<Rightarrow> test_run_location \<Rightarrow> bool" where
  "pk_before k l \<longleftrightarrow> (case pk l of None \<Rightarrow> False | Some j \<Rightarrow> j < k)"

definition assigned_segments :: "database \<Rightarrow> test_run_location \<Rightarrow> exn + segment list" where
  "assigned_segments db l =
     (case pk l of
        None \<Rightarrow> Inl (ValueError ''pk__lt'')
      | Some k \<Rightarrow>
          let rows = locations_of (test_run l) db;
              start = sum_list (map num_workers (filter (pk_before k) rows));
              tot = sum_list (map num_workers rows)
          in Inr (map (\<lambda>idx.
               \<lparr>seg_segment = get_segment_part (idx - 1) tot @ '':'' @ get_segment_part idx tot,
                seg_segment_id = str_nat idx\<rparr>)
               [start + 1..<start + num_workers l + 1]))"

section \<open>The sequence\<close>

lemma segments_saved:
  "pk_true (pk r) \<Longrightarrow> segments db r =
     [''0''] @ map (\<lambda>idx. fraction idx (sum_list (map num_workers (locations_of (name r) db))))
       [1..<sum_list (map num_workers (locations_of (name r) db))] @ [''1'']"
  by (simp add: segments_def Let_def)

definition total_workers :: "string \<Rightarrow> database \<Rightarrow> nat" where
  "total_workers n db = sum_list (map num_workers (locations_of n db))"

lemma length_segments:
  "pk_true (pk r) \<Longrightarrow> 0 < total_workers (name r) db \<Longrightarrow> length (segments db r) = total_workers (name r) db + 1"
  by (simp add: segments_saved total_workers_def)

text \<open>The boundary at an index is what \<open>get_segment_part\<close> computes for it.\<close>

lemma segments_nth:
  assumes "pk_true (pk r)" and "0 < total_workers (name r) db" and "i \<le> total_workers (name r) db"
  shows "segments db r ! i = get_segment_part i (total_workers (name r) db)"
  using assms
  by (cases i) (auto simp: segments_saved total_workers_def [symmetric] get_segment_part_def
      nth_append nth_Cons')

section \<open>The pieces of all locations\<close>

definition piece :: "nat \<Rightarrow> nat \<Rightarrow> segment" where
  "piece tot idx =
     \<lparr>seg_segment = get_segment_part (idx - 1) tot @ '':'' @ get_segment_part idx tot,
      seg_segment_id = str_nat idx\<rparr>"

definition pieces :: "database \<Rightarrow> test_run_location \<Rightarrow> segment list" where
  "pieces db l = (case assigned_segments db l of Inl _ \<Rightarrow> [] | Inr ss \<Rightarrow> ss)"

text \<open>The indices of a block of \<open>w\<close> workers after the first \<open>s\<close>.\<close>

definition block :: "nat \<Rightarrow> nat \<Rightarrow> nat list" where
  "block s w = [s + 1..<s + w + 1]"

lemma block_append: "block s v @ block (s + v) w = block s (v + w)"
  using upt_add_eq_append [of "s + 1" "s + v + 1" w] by (simp add: block_def add.assoc)

lemma block_empty [simp]: "block s 0 = []"
  by (simp add: block_def)

definition offset :: "database \<Rightarrow> test_run_location \<Rightarrow> nat" where
  "offset db l =
     sum_list (map num_workers (filter (pk_before (the (pk l))) (locations_of (test_run l) db)))"

lemma pieces_block:
  assumes "pk l \<noteq> None"
  shows "pieces db l = map (piece (total_workers (test_run l) db)) (block (offset db l) (num_workers l))"
  using assms
  by (auto simp: pieces_def assigned_segments_def piece_def total_workers_def block_def offset_def Let_def)

text \<open>
  Blocks laid end to end cover an interval: with the starting offsets the sums of the
  sizes before, the indices of the blocks are the whole interval in order.
\<close>

lemma concat_blocks:
  "concat (map (\<lambda>i. block (sum_list (take i ws)) (ws ! i)) [0..<length ws]) = block 0 (sum_list ws)"
proof (induction ws rule: rev_induct)
  case Nil
  then show ?case by simp
next
  case (snoc w ws)
  let ?F = "\<lambda>ws i. block (sum_list (take i ws)) (ws ! i)"
  have "map (?F (ws @ [w])) [0..<length ws] = map (?F ws) [0..<length ws]"
    by (rule map_cong) (auto simp: nth_append)
  then have "concat (map (?F (ws @ [w])) [0..<length (ws @ [w])]) =
      concat (map (?F ws) [0..<length ws]) @ ?F (ws @ [w]) (length ws)"
    by (simp only: length_append_singleton upt_Suc le0 if_True map_append concat_append
        list.map concat.simps append_Nil2)
  also have "\<dots> = block 0 (sum_list ws) @ block (0 + sum_list ws) w"
    by (simp only: snoc.IH) simp
  finally show ?case by (simp only: block_append sum_list_append) simp
qed

text \<open>In a list sorted by distinct keys, the rows with a smaller key than the i-th are the first i.\<close>

lemma filter_before_take:
  assumes sorted: "sorted_wrt (\<lambda>x y. f x < f y) xs" and i: "i < length xs"
  shows "filter (\<lambda>x. f x < (f (xs ! i) :: nat)) xs = take i xs"
proof -
  have "xs = take i xs @ drop i xs" by simp
  moreover have "filter (\<lambda>x. f x < f (xs ! i)) (take i xs) = take i xs"
    using assms by (auto simp: filter_id_conv in_set_conv_nth sorted_wrt_iff_nth_less)
  moreover have "\<not> f x < f (xs ! i)" if "x \<in> set (drop i xs)" for x
  proof -
    from that obtain j where j: "x = xs ! j" "i \<le> j" "j < length xs"
      by (auto simp: in_set_conv_nth)
    show ?thesis
    proof (cases "i = j")
      case False
      with sorted j have "f (xs ! i) < f (xs ! j)" by (simp add: sorted_wrt_iff_nth_less)
      with j show ?thesis by simp
    qed (use j in simp)
  qed
  then have "filter (\<lambda>x. f x < f (xs ! i)) (drop i xs) = []"
    by (simp add: filter_empty_conv)
  ultimately show ?thesis by (metis append_Nil2 filter_append)
qed

text \<open>The locations of a run in the order of their keys.\<close>

definition by_pk :: "string \<Rightarrow> database \<Rightarrow> test_run_location list" where
  "by_pk n db = sort_key (\<lambda>l. the (pk l)) (locations_of n db)"

lemma mset_by_pk: "mset (by_pk n db) = mset (locations_of n db)"
  by (simp add: by_pk_def)

lemma set_by_pk [simp]: "set (by_pk n db) = set (locations_of n db)"
  by (simp add: by_pk_def)

lemma by_pk_strict:
  assumes "keyed_rows (tbl_run_location db)"
  shows "sorted_wrt (\<lambda>x y. the (pk x) < the (pk y)) (by_pk n db)"
proof -
  let ?k = "\<lambda>l :: test_run_location. the (pk l)"
  have inj: "inj_on pk (set (tbl_run_location db))" and "distinct (tbl_run_location db)"
    and some: "\<forall>l \<in> set (tbl_run_location db). pk l \<noteq> None"
    using assms by (simp_all add: keyed_rows_def distinct_map)
  then have "distinct (locations_of n db)" by (simp add: locations_of_def)
  moreover have "inj_on ?k (set (locations_of n db))"
  proof (rule inj_onI)
    fix x y
    assume "x \<in> set (locations_of n db)" "y \<in> set (locations_of n db)" and eq: "?k x = ?k y"
    then have xy: "x \<in> set (tbl_run_location db)" "y \<in> set (tbl_run_location db)"
      by (simp_all add: locations_of_def)
    with some eq have "pk x = pk y" by (metis option.expand)
    with inj xy show "x = y" by (meson inj_onD)
  qed
  ultimately have "distinct (map ?k (locations_of n db))" by (simp add: distinct_map)
  then have "distinct (map ?k (by_pk n db))"
    by (metis mset_by_pk mset_eq_imp_distinct_iff mset_map)
  moreover have "sorted (map ?k (by_pk n db))" by (simp add: by_pk_def)
  ultimately have "sorted_wrt (<) (map ?k (by_pk n db))"
    by (simp only: strict_sorted_iff simp_thms)
  then show ?thesis by (simp add: sorted_wrt_map)
qed

lemma offset_take:
  assumes wf: "keyed_rows (tbl_run_location db)" and i: "i < length (by_pk n db)"
  shows "offset db (by_pk n db ! i) = sum_list (take i (map num_workers (by_pk n db)))"
proof -
  let ?xs = "by_pk n db"
  have "?xs ! i \<in> set (locations_of n db)" using i by (metis nth_mem set_by_pk)
  then have run: "test_run (?xs ! i) = n" by (simp add: locations_of_def)
  have "filter (pk_before (the (pk (?xs ! i)))) ?xs = filter (\<lambda>l. the (pk l) < the (pk (?xs ! i))) ?xs"
    using wf
    by (intro filter_cong) (auto simp: pk_before_def locations_of_def keyed_rows_def split: option.split)
  also have "\<dots> = take i ?xs"
    using by_pk_strict [OF wf] i by (rule filter_before_take)
  finally have first: "filter (pk_before (the (pk (?xs ! i)))) ?xs = take i ?xs" .
  have "offset db (?xs ! i) =
      sum_mset (image_mset num_workers (filter_mset (pk_before (the (pk (?xs ! i)))) (mset (locations_of n db))))"
    by (simp add: offset_def run sum_mset_sum_list flip: mset_map mset_filter)
  also have "\<dots> = sum_list (map num_workers (filter (pk_before (the (pk (?xs ! i)))) ?xs))"
    by (simp add: sum_mset_sum_list flip: mset_by_pk mset_map mset_filter)
  finally show ?thesis by (simp add: first take_map)
qed

lemma total_workers_by_pk: "total_workers n db = sum_list (map num_workers (by_pk n db))"
  by (metis mset_by_pk mset_map sum_mset_sum_list total_workers_def)

text \<open>All pieces of a run, in the order of the keys of its locations.\<close>

lemma all_pieces:
  assumes wf: "keyed_rows (tbl_run_location db)"
  shows "concat (map (pieces db) (by_pk n db)) =
    map (piece (total_workers n db)) [1..<total_workers n db + 1]"
proof -
  let ?xs = "by_pk n db" and ?ws = "map num_workers (by_pk n db)"
  have piece_i: "pieces db (?xs ! i) =
      map (piece (total_workers n db)) (block (sum_list (take i ?ws)) (?ws ! i))"
    if "i < length ?xs" for i
  proof -
    have "?xs ! i \<in> set (locations_of n db)" using that by (metis nth_mem set_by_pk)
    then have "test_run (?xs ! i) = n" and "pk (?xs ! i) \<noteq> None"
      using wf by (auto simp: locations_of_def keyed_rows_def)
    with that show ?thesis by (simp add: pieces_block offset_take [OF wf])
  qed
  have "map (pieces db) ?xs = map (\<lambda>i. pieces db (?xs ! i)) [0..<length ?xs]"
    by (rule nth_equalityI) simp_all
  also have "\<dots> = map (\<lambda>i. map (piece (total_workers n db)) (block (sum_list (take i ?ws)) (?ws ! i)))
      [0..<length ?ws]"
    using piece_i by simp
  finally have "concat (map (pieces db) ?xs) = map (piece (total_workers n db))
      (concat (map (\<lambda>i. block (sum_list (take i ?ws)) (?ws ! i)) [0..<length ?ws]))"
    by (simp only: map_concat map_map comp_def)
  also have "\<dots> = map (piece (total_workers n db)) (block 0 (sum_list ?ws))"
    by (simp only: concat_blocks)
  finally show ?thesis by (simp add: block_def total_workers_by_pk)
qed

text \<open>The workers before a location and its own are among all of the run.\<close>

lemma offset_bound:
  assumes key: "keyed_rows (tbl_run_location db)" and l: "l \<in> set (tbl_run_location db)"
  shows "offset db l + num_workers l \<le> total_workers (test_run l) db"
proof -
  let ?xs = "by_pk (test_run l) db"
  have "l \<in> set ?xs" using l by (simp add: locations_of_def)
  then obtain i where i: "i < length ?xs" "?xs ! i = l" unfolding in_set_conv_nth by blast
  then have "offset db l = sum_list (take i (map num_workers ?xs))"
    using offset_take [OF key i(1)] by simp
  moreover have "sum_list (take (Suc i) (map num_workers ?xs)) =
      sum_list (take i (map num_workers ?xs)) + num_workers l"
    using i by (simp add: take_Suc_conv_app_nth)
  moreover have "sum_list (take (Suc i) (map num_workers ?xs)) \<le> sum_list (map num_workers ?xs)"
    using sum_list_append [of "take (Suc i) (map num_workers ?xs)" "drop (Suc i) (map num_workers ?xs)"]
    unfolding append_take_drop_id by (metis le_add1)
  ultimately show ?thesis by (simp add: total_workers_by_pk)
qed

lemma str_nat_no_colon: "CHR '':'' \<notin> set (str_nat n)"
proof
  assume "CHR '':'' \<in> set (str_nat n)"
  then obtain d where "d < 10" and "CHR '':'' = digit_char d" by (blast dest: str_nat_digits)
  then have "of_char (CHR '':'') = 48 + d" using of_digit_char [of d] by simp
  then show False using \<open>d < 10\<close> by simp
qed

text \<open>With another total every piece is a different one.\<close>

lemma fraction_not_one: "fraction i t \<noteq> ''1''"
proof
  assume "fraction i t = ''1''"
  then have "CHR ''/'' \<in> set ''1''" by (metis fraction_def in_set_conv_decomp append_Cons append_Nil)
  then show False by simp
qed

lemma get_segment_part_no_colon: "CHR '':'' \<notin> set (get_segment_part i t)"
  using str_nat_no_colon by (auto simp: get_segment_part_def fraction_def)

lemma append_colon_eq:
  "x \<notin> set a \<Longrightarrow> x \<notin> set b \<Longrightarrow> a @ x # c = b @ x # d \<Longrightarrow> c = d"
  by (induction a arbitrary: b) (auto simp: Cons_eq_append_conv append_eq_Cons_conv)

lemma get_segment_part_total:
  assumes "0 < i" and "i \<le> t" and "t < t'"
  shows "get_segment_part i t \<noteq> get_segment_part i t'"
proof
  assume eq: "get_segment_part i t = get_segment_part i t'"
  have right: "get_segment_part i t' = fraction i t'" using assms by (simp add: get_segment_part_def)
  show False
  proof (cases "i = t")
    case True
    with assms eq right show False using fraction_not_one [of i t'] by (simp add: get_segment_part_def)
  next
    case False
    with assms eq right have "fraction i t = fraction i t'" by (simp add: get_segment_part_def)
    then have "str_nat t = str_nat t'"
      using append_colon_eq [of "CHR ''/''" "str_nat i" "str_nat i"] slash_not_in_str_nat [of i]
      by (simp add: fraction_def)
    with assms show False by simp
  qed
qed

lemma piece_total:
  assumes "0 < i" and "i \<le> t" and "t < t'"
  shows "piece t i \<noteq> piece t' j"
proof
  assume eq: "piece t i = piece t' j"
  then have "str_nat i = str_nat j" by (simp add: piece_def)
  then have "i = j" by simp
  with eq have "get_segment_part (i - 1) t @ '':'' @ get_segment_part i t =
      get_segment_part (i - 1) t' @ '':'' @ get_segment_part i t'" by (simp add: piece_def)
  then have "get_segment_part i t = get_segment_part i t'"
    using append_colon_eq [of "CHR '':''" "get_segment_part (i - 1) t" "get_segment_part (i - 1) t'"]
      get_segment_part_no_colon by simp
  with assms show False using get_segment_part_total by blast
qed

section \<open>Properties of the segments\<close>

text \<open>
  C23. The segments assigned to the locations of a run, taken in the order of their keys, are
  exactly the consecutive pieces 0:1/n, 1/n:2/n, ..., (n-1)/n:1 of the run, n being the number of
  all its workers, numbered from 1: nothing is run twice, nothing is left out, and no two
  workers have the same segment id.
\<close>

theorem segments_partition_run:
  assumes "wf_db db"
  shows "concat (map (\<lambda>l. case assigned_segments db l of Inl _ \<Rightarrow> [] | Inr ss \<Rightarrow> ss)
        (sort_key (\<lambda>l. the (pk l)) (locations_of n db))) =
      map (\<lambda>idx. \<lparr>seg_segment = get_segment_part (idx - 1) (total_workers n db) @ '':'' @
                    get_segment_part idx (total_workers n db),
                  seg_segment_id = str_nat idx\<rparr>) [1..<total_workers n db + 1] \<and>
    distinct (map seg_segment_id (concat (map (\<lambda>l. case assigned_segments db l of Inl _ \<Rightarrow> [] | Inr ss \<Rightarrow> ss)
        (sort_key (\<lambda>l. the (pk l)) (locations_of n db)))))"
proof -
  have all: "concat (map (\<lambda>l. case assigned_segments db l of Inl _ \<Rightarrow> [] | Inr ss \<Rightarrow> ss)
      (sort_key (\<lambda>l. the (pk l)) (locations_of n db))) =
      map (piece (total_workers n db)) [1..<total_workers n db + 1]"
    using all_pieces [OF wf_rows(4) [OF assms], of n] by (simp add: pieces_def [abs_def] by_pk_def)
  have "inj_on (\<lambda>i. seg_segment_id (piece t i)) A" for t A by (simp add: inj_on_def piece_def)
  then have "distinct (map seg_segment_id (map (piece t) [1..<t + 1]))" for t
    by (simp add: distinct_map comp_def del: upt_Suc)
  then show ?thesis unfolding all by (simp add: piece_def [abs_def] del: upt_Suc)
qed

theorem segments_partition_run_witness:
  "distinct (map seg_segment_id (concat (map
      (\<lambda>l. case assigned_segments (sample_db False READY READY) l of Inl _ \<Rightarrow> [] | Inr ss \<Rightarrow> ss)
      (sort_key (\<lambda>l. the (pk l)) (locations_of ''shop-a1'' (sample_db False READY READY))))))"
  using segments_partition_run [OF sample_db_wf] by blast

end
