(* ===== verification/Signals.thy ===== *)
theory Signals
  imports Segments
begin

text \<open>
  The bodies of the transition methods of \<open>TestRunLocation\<close>, its save, and the three
  \<open>post_save\<close> receivers of webapp/loadtest/signals.py that the save runs in the order they
  are registered: setting the start time, setting the completion time, and canceling the
  other locations when one has failed. The effect of a save on a well-formed database is
  then stated as a function.
\<close>

section \<open>Definitions\<close>

text \<open>\<open>test_run.locations.exclude(status__in=ss).count()\<close>\<close>

definition count_excluding :: "status list \<Rightarrow> string \<Rightarrow> database \<Rightarrow> nat" where
  "count_excluding ss n db = length (filter (\<lambda>l. status l \<notin> set ss) (locations_of n db))"

text \<open>
  The bodies: \<open>accept\<close>, \<open>start\<close> and \<open>finish\<close> do nothing; \<open>ready\<close> starts the run when
  every location is stored as ready; the other three record a message.
\<close>

definition record_message :: "string option \<Rightarrow> test_run_location \<Rightarrow> test_run_location" where
  "record_message message l =
     (case message of None \<Rightarrow> l
      | Some m \<Rightarrow> if m = '''' then l else l\<lparr>status_description := m\<rparr>)"

definition ready_body :: "env \<Rightarrow> test_run_location \<Rightarrow> test_run_location web" where
  "ready_body e l =
     bindp (get_run (test_run l)) (\<lambda>r.
     bindp (reads (count_excluding [READY] (name r))) (\<lambda>c.
     if c = 0 then bindp (save_test_run e (r\<lparr>started_at := Some (now e)\<rparr>)) (\<lambda>_. ret l)
     else ret l))"

definition transition_body ::
  "env \<Rightarrow> string \<Rightarrow> string option \<Rightarrow> test_run_location \<Rightarrow> test_run_location web" where
  "transition_body e m message l =
     (if m = ''ready'' then ready_body e l
      else if m \<in> {''fail'', ''cancel'', ''retry''} then ret (record_message message l)
      else ret l)"

text \<open>
  Calling a decorated method: django-fsm checks the source, runs the body, then sets the
  state.
\<close>

definition call_transition ::
  "env \<Rightarrow> string \<Rightarrow> string option \<Rightarrow> test_run_location \<Rightarrow> test_run_location web" where
  "call_transition e m message l =
     (case fsm_target e status_transitions m (status l) of
        None \<Rightarrow> raise (TransitionNotAllowed m)
      | Some t \<Rightarrow> bindp (transition_body e m message l) (\<lambda>l'. ret (l'\<lparr>status := t\<rparr>)))"

definition start_delay_seconds :: "int" where
  "start_delay_seconds = 30"

definition set_test_started_at :: "env \<Rightarrow> test_run_location \<Rightarrow> unit web" where
  "set_test_started_at e l =
     bindp (get_run (test_run l)) (\<lambda>r.
     bindp (reads (count_excluding [READY] (name r))) (\<lambda>c.
     if status l = READY \<and> started_at r = None \<and> c = 0
     then bindp (save_test_run e
            (r\<lparr>started_at := Some (floor_second (now e + seconds start_delay_seconds))\<rparr>))
            (\<lambda>_. ret ())
     else ret ()))"

definition set_test_completed_at :: "env \<Rightarrow> test_run_location \<Rightarrow> unit web" where
  "set_test_completed_at e l =
     bindp (get_run (test_run l)) (\<lambda>r.
     bindp (reads (count_excluding [COMPLETED] (name r))) (\<lambda>c.
     if status l = COMPLETED \<and> completed_at r = None \<and> c = 0
     then bindp (save_test_run e (r\<lparr>completed_at := Some (floor_second (now e))\<rparr>)) (\<lambda>_. ret ())
     else ret ()))"

definition auto_cancel_message :: "test_run_location \<Rightarrow> string" where
  "auto_cancel_message l =
     ''Canceled automatically: Job was failing in '' @ location l @ ''.''"

definition auto_cancel :: "string \<Rightarrow> string \<Rightarrow> test_run_location \<Rightarrow> test_run_location" where
  "auto_cancel n msg l =
     (if test_run l = n \<and> status l \<noteq> FAILED \<and> status l \<noteq> COMPLETED
      then l\<lparr>status := CANCELED, status_description := msg\<rparr> else l)"

definition cancel_on_failure :: "test_run_location \<Rightarrow> unit web" where
  "cancel_on_failure l =
     bindp (get_run (test_run l)) (\<lambda>r.
     if status l = FAILED
     then writes (update_run_locations (auto_cancel (name r) (auto_cancel_message l)))
     else ret ())"

definition save_run_location :: "env \<Rightarrow> test_run_location \<Rightarrow> test_run_location web" where
  "save_run_location e l =
     bindp (save_run_location_row e l) (\<lambda>l'.
     bindp (set_test_started_at e l') (\<lambda>_.
     bindp (set_test_completed_at e l') (\<lambda>_.
     bindp (cancel_on_failure l') (\<lambda>_. ret l'))))"

section \<open>The receivers as functions of the database\<close>

definition start_run :: "datetime \<Rightarrow> test_run \<Rightarrow> test_run" where
  "start_run t r =
     (if started_at r = None
      then r\<lparr>started_at := Some (floor_second (t + seconds start_delay_seconds)), updated_at := t\<rparr> else r)"

definition complete_run :: "datetime \<Rightarrow> test_run \<Rightarrow> test_run" where
  "complete_run t r =
     (if completed_at r = None
      then r\<lparr>completed_at := Some (floor_second t), updated_at := t\<rparr> else r)"

definition after_started :: "datetime \<Rightarrow> test_run_location \<Rightarrow> database \<Rightarrow> database" where
  "after_started t l db =
     (if status l = READY \<and> count_excluding [READY] (test_run l) db = 0
      then update_run (test_run l) (start_run t) db else db)"

definition after_completed :: "datetime \<Rightarrow> test_run_location \<Rightarrow> database \<Rightarrow> database" where
  "after_completed t l db =
     (if status l = COMPLETED \<and> count_excluding [COMPLETED] (test_run l) db = 0
      then update_run (test_run l) (complete_run t) db else db)"

definition after_failure :: "test_run_location \<Rightarrow> database \<Rightarrow> database" where
  "after_failure l db =
     (if status l = FAILED
      then update_run_locations (auto_cancel (test_run l) (auto_cancel_message l)) db else db)"

definition after_save :: "datetime \<Rightarrow> test_run_location \<Rightarrow> database \<Rightarrow> database" where
  "after_save t l db =
     after_failure l (after_completed t l (after_started t l (put_run_location l db)))"

lemmas after_defs = after_started_def after_completed_def after_failure_def after_save_def

lemma run_fields_kept [simp]:
  "pk (start_run t r) = pk r" "name (start_run t r) = name r"
  "test_output (start_run t r) = test_output r"
  "pk (complete_run t r) = pk r" "name (complete_run t r) = name r"
  "test_output (complete_run t r) = test_output r"
  "draft (start_run t r) = draft r" "draft (complete_run t r) = draft r"
  "completed_at (start_run t r) = completed_at r" "started_at (complete_run t r) = started_at r"
  by (simp_all add: start_run_def complete_run_def)

lemma auto_cancel_kept [simp]:
  "pk (auto_cancel n m l) = pk l" "test_run (auto_cancel n m l) = test_run l"
  "location (auto_cancel n m l) = location l" "num_workers (auto_cancel n m l) = num_workers l"
  by (simp_all add: auto_cancel_def)

lemma update_run_cong:
  assumes "wf_db db" and "r \<in> set (tbl_test_run db)" and "f r = g r"
  shows "update_run (name r) f db = update_run (name r) g db"
proof -
  have "x = r" if "x \<in> set (tbl_test_run db)" and "name x = name r" for x
    using that assms(1,2) by (auto simp: wf_db_def named_rows_def distinct_map dest: inj_onD)
  then have "map (\<lambda>x. if name x = name r then f x else x) (tbl_test_run db) =
      map (\<lambda>x. if name x = name r then g x else x) (tbl_test_run db)"
    using assms(3) by (intro map_cong refl) auto
  then show ?thesis by (simp only: update_run_def)
qed

lemma update_run_id:
  assumes "wf_db db" and "r \<in> set (tbl_test_run db)" and "f r = r"
  shows "update_run (name r) f db = db"
proof -
  have "update_run (name r) f db = update_run (name r) (\<lambda>x. x) db"
    using assms by (intro update_run_cong) auto
  then show ?thesis by (simp add: update_run_def)
qed

text \<open>A receiver that may save the run: the guard and the field it sets are all that differ.\<close>

lemma save_run_update:
  assumes wf: "wf_db db" and r: "r \<in> set (tbl_test_run db)"
    and f: "pk (f r) = pk r" "name (f r) = name r" "test_output (f r) = test_output r"
    and g: "g r = (f r)\<lparr>updated_at := now e\<rparr>"
  shows "save_test_run e (f r) db = (Inr (g r), update_run (name r) g db)"
  using save_stored_run [where f = f, OF wf r f]
    update_run_cong [OF wf r, of "\<lambda>x. (f x)\<lparr>updated_at := now e\<rparr>" g] g
  by simp

lemma get_run_stored:
  "wf_db db \<Longrightarrow> has_name n (tbl_test_run db) \<Longrightarrow>
     \<exists>r \<in> set (tbl_test_run db). name r = n \<and> get_run n db = (Inr r, db)"
  by (force simp: find_run_exists get_run_def dest: find_run_row)

lemma set_test_started_at_eq:
  assumes wf: "wf_db db" and run: "has_name (test_run l) (tbl_test_run db)"
  shows "set_test_started_at e l db = (Inr (), after_started (now e) l db)"
proof -
  obtain r where r: "r \<in> set (tbl_test_run db)" "name r = test_run l" "get_run (test_run l) db = (Inr r, db)"
    using get_run_stored [OF wf run] by blast
  have "save_test_run e (r\<lparr>started_at := Some (floor_second (now e + seconds start_delay_seconds))\<rparr>) db =
      (Inr (start_run (now e) r), update_run (name r) (start_run (now e)) db)"
    if "started_at r = None"
    using wf r(1) that
    by (intro save_run_update [where f = "\<lambda>r. r\<lparr>started_at := Some _\<rparr>"]) (simp_all add: start_run_def)
  moreover have "update_run (name r) (start_run (now e)) db = db" if "started_at r \<noteq> None"
    using wf r(1) that by (intro update_run_id) (auto simp: start_run_def)
  ultimately show ?thesis
    using r(2,3) by (auto simp: set_test_started_at_def after_started_def bindp_def reads_def ret_def)
qed

lemma set_test_completed_at_eq:
  assumes wf: "wf_db db" and run: "has_name (test_run l) (tbl_test_run db)"
  shows "set_test_completed_at e l db = (Inr (), after_completed (now e) l db)"
proof -
  obtain r where r: "r \<in> set (tbl_test_run db)" "name r = test_run l" "get_run (test_run l) db = (Inr r, db)"
    using get_run_stored [OF wf run] by blast
  have "save_test_run e (r\<lparr>completed_at := Some (floor_second (now e))\<rparr>) db =
      (Inr (complete_run (now e) r), update_run (name r) (complete_run (now e)) db)"
    if "completed_at r = None"
    using wf r(1) that
    by (intro save_run_update [where f = "\<lambda>r. r\<lparr>completed_at := Some _\<rparr>"]) (simp_all add: complete_run_def)
  moreover have "update_run (name r) (complete_run (now e)) db = db" if "completed_at r \<noteq> None"
    using wf r(1) that by (intro update_run_id) (auto simp: complete_run_def)
  ultimately show ?thesis
    using r(2,3) by (auto simp: set_test_completed_at_def after_completed_def bindp_def reads_def ret_def)
qed

lemma cancel_on_failure_eq:
  assumes wf: "wf_db db" and run: "has_name (test_run l) (tbl_test_run db)"
  shows "cancel_on_failure l db = (Inr (), after_failure l db)"
  using get_run_stored [OF wf run]
  by (auto simp: cancel_on_failure_def after_failure_def bindp_def writes_def ret_def)

section \<open>The effect of a save\<close>

lemma count_excluding_0:
  "count_excluding ss n db = 0 \<longleftrightarrow> (\<forall>l \<in> set (locations_of n db). status l \<in> set ss)"
  by (auto simp: count_excluding_def filter_empty_conv)

lemma put_run_location_tables [simp]:
  "tbl_test_run (put_run_location l db) = tbl_test_run db"
  "tbl_location (put_run_location l db) = tbl_location db"
  "tbl_output (put_run_location l db) = tbl_output db"
  "tbl_label (put_run_location l db) = tbl_label db"
  "tbl_env_var (put_run_location l db) = tbl_env_var db"
  by (simp_all add: put_run_location_def)

lemma update_tables [simp]:
  "tbl_run_location (update_run n f db) = tbl_run_location db"
  "tbl_location (update_run n f db) = tbl_location db"
  "tbl_output (update_run n f db) = tbl_output db"
  "tbl_label (update_run n f db) = tbl_label db"
  "tbl_env_var (update_run n f db) = tbl_env_var db"
  "tbl_test_run (update_run_locations g db) = tbl_test_run db"
  "tbl_location (update_run_locations g db) = tbl_location db"
  "tbl_output (update_run_locations g db) = tbl_output db"
  "tbl_label (update_run_locations g db) = tbl_label db"
  "tbl_env_var (update_run_locations g db) = tbl_env_var db"
  by (simp_all add: update_run_def update_run_locations_def)

lemma has_name_update_run:
  "(\<And>r. name (f r) = name r) \<Longrightarrow> has_name m (tbl_test_run (update_run n f db)) = has_name m (tbl_test_run db)"
  using update_run_names [of f n db] by (simp add: has_name_iff flip: set_map)

lemma after_started_names [simp]:
  "has_name m (tbl_test_run (after_started t l db)) = has_name m (tbl_test_run db)"
  by (simp add: after_started_def has_name_update_run)

lemma after_completed_names [simp]:
  "has_name m (tbl_test_run (after_completed t l db)) = has_name m (tbl_test_run db)"
  by (simp add: after_completed_def has_name_update_run)

lemma wf_after_started: "wf_db db \<Longrightarrow> wf_db (after_started t l db)"
  by (simp add: after_started_def wf_update_run)

lemma wf_after_completed: "wf_db db \<Longrightarrow> wf_db (after_completed t l db)"
  by (simp add: after_completed_def wf_update_run)

lemma wf_after_failure: "wf_db db \<Longrightarrow> wf_db (after_failure l db)"
  by (simp add: after_failure_def wf_update_run_locations)

lemma save_row_result:
  assumes "wf_db db" and "save_run_location_row e l db = (Inr l', db')"
  shows "db' = put_run_location l' db" "wf_db db'" "has_name (test_run l') (tbl_test_run db)"
    "l' = assign_pk e (tbl_run_location db) l"
  using assms wf_save_run_location_row [OF assms]
  by (auto simp: save_run_location_row_def Let_def split: if_splits)

lemma save_row_error:
  "save_run_location_row e l db = (Inl x, db') \<Longrightarrow> db' = db"
  by (auto simp: save_run_location_row_def Let_def split: if_splits)

text \<open>
  On a well-formed database the receivers never raise, so a save either fails on a
  constraint and changes nothing, or stores the row and has exactly the effect of
  \<open>after_save\<close>.
\<close>

lemma save_run_location_eq:
  assumes wf: "wf_db db"
  shows "save_run_location e l db =
    (case save_run_location_row e l db of
       (Inl x, _) \<Rightarrow> (Inl x, db) | (Inr l', _) \<Rightarrow> (Inr l', after_save (now e) l' db))"
proof (cases "save_run_location_row e l db")
  case (Pair res db1)
  show ?thesis
  proof (cases res)
    case (Inl x)
    with Pair show ?thesis
      by (auto simp: save_run_location_def bindp_def dest: save_row_error)
  next
    case (Inr l')
    with Pair have row: "save_run_location_row e l db = (Inr l', db1)" by simp
    note row_facts = save_row_result [OF wf row]
    let ?s = "after_started (now e) l' db1" and ?c = "after_completed (now e) l' (after_started (now e) l' db1)"
    have n1: "has_name (test_run l') (tbl_test_run db1)" using row_facts(1,3) by simp
    have w1: "wf_db ?s" using row_facts(2) by (rule wf_after_started)
    have w2: "wf_db ?c" using w1 by (rule wf_after_completed)
    have "set_test_started_at e l' db1 = (Inr (), ?s)"
      using row_facts(2) n1 by (rule set_test_started_at_eq)
    moreover have "set_test_completed_at e l' ?s = (Inr (), ?c)"
      using w1 n1 by (intro set_test_completed_at_eq) simp_all
    moreover have "cancel_on_failure l' ?c = (Inr (), after_failure l' ?c)"
      using w2 n1 by (intro cancel_on_failure_eq) simp_all
    ultimately show ?thesis
      using row row_facts(1)
      by (simp add: save_run_location_def bindp_def ret_def after_save_def)
  qed
qed

lemma wf_after_save:
  assumes "wf_db db" and "save_run_location_row e l db = (Inr l', db')"
  shows "wf_db (after_save t l' db)"
  using save_row_result(1,2) [OF assms]
  by (simp add: after_save_def wf_after_failure wf_after_completed wf_after_started)

lemma wf_save_run_location:
  "wf_db db \<Longrightarrow> save_run_location e l db = (res, db') \<Longrightarrow> wf_db db'"
  using save_run_location_eq [of db e l] wf_after_save [of db e l]
  by (auto split: prod.splits sum.splits)

text \<open>A stored location, possibly with other fields changed, can always be saved.\<close>

definition stored_at :: "database \<Rightarrow> test_run_location \<Rightarrow> bool" where
  "stored_at db l \<longleftrightarrow> (\<exists>x \<in> set (tbl_run_location db). pk x = pk l \<and> placed x = placed l)"

lemma save_stored_row:
  assumes wf: "wf_db db" and "stored_at db l"
  shows "save_run_location_row e l db = (Inr l, put_run_location l db)"
proof -
  from assms(2) obtain x where x: "x \<in> set (tbl_run_location db)" "pk x = pk l" "placed x = placed l"
    by (auto simp: stored_at_def)
  from wf x(1) have "pk x \<noteq> None" by (simp add: wf_db_def keyed_rows_def)
  then obtain k where k: "pk l = Some k" using x(2) by auto
  have "\<not> pair_taken (tbl_run_location db) l"
    using wf x unfolding pair_taken_iff wf_db_def distinct_map by (metis inj_onD)
  moreover have "has_name (test_run l) (tbl_test_run db)" "has_name (location l) (tbl_location db)"
    using wf_location_refs(1,2) [OF wf x(1)] x(3) by (simp_all add: placed_def)
  ultimately show ?thesis using k by (simp add: save_run_location_row_def)
qed

lemma save_stored_location:
  "wf_db db \<Longrightarrow> stored_at db l \<Longrightarrow> save_run_location e l db = (Inr l, after_save (now e) l db)"
  by (simp add: save_run_location_eq save_stored_row)

lemma put_stored_location:
  assumes wf: "wf_db db" and "stored_at db l"
  shows "put_run_location l db = update_run_locations (\<lambda>x. if pk x = pk l then l else x) db"
  using assms(2)
  by (auto simp: put_run_location_def update_run_locations_def upsert_def stored_at_def list_ex_iff)

text \<open>A status that no receiver reacts to: only the row is written.\<close>

lemma after_save_plain:
  "status l \<notin> {READY, COMPLETED, FAILED} \<Longrightarrow> after_save t l db = put_run_location l db"
  by (auto simp: after_defs)

lemma after_save_rows:
  "tbl_run_location (after_save t l db) =
     (if status l = FAILED
      then map (auto_cancel (test_run l) (auto_cancel_message l)) (tbl_run_location (put_run_location l db))
      else tbl_run_location (put_run_location l db))"
proof -
  have [simp]: "tbl_run_location (after_started t l s) = tbl_run_location s"
    "tbl_run_location (after_completed t l s) = tbl_run_location s" for s
    by (simp_all add: after_started_def after_completed_def)
  show ?thesis by (simp add: after_save_def after_failure_def update_run_locations_def)
qed

text \<open>The rows and the runs after the save of a stored location.\<close>

lemma after_save_stored_rows:
  assumes wf: "wf_db db" and l: "l \<in> set (tbl_run_location db)" and "pk l' = pk l" "test_run l' = test_run l"
  shows "tbl_run_location (after_save t l' db) =
    map (\<lambda>x. if pk x = pk l then l'
             else if status l' = FAILED then auto_cancel (test_run l) (auto_cancel_message l') x else x)
      (tbl_run_location db)"
proof -
  have "list_ex (\<lambda>x. pk x = pk l) (tbl_run_location db)" using l by (auto simp: list_ex_iff)
  then have "tbl_run_location (put_run_location l' db) =
      map (\<lambda>x. if pk x = pk l then l' else x) (tbl_run_location db)"
    using assms(3) by (simp add: put_run_location_def upsert_def)
  then show ?thesis using assms(4) by (simp add: after_save_rows auto_cancel_def)
qed

lemma after_save_tables [simp]:
  "tbl_location (after_save t l db) = tbl_location db" "tbl_output (after_save t l db) = tbl_output db"
  "tbl_label (after_save t l db) = tbl_label db" "tbl_env_var (after_save t l db) = tbl_env_var db"
  by (simp_all add: after_defs)

definition all_in :: "status \<Rightarrow> string \<Rightarrow> database \<Rightarrow> bool" where
  "all_in s n db \<longleftrightarrow> (\<forall>x \<in> set (locations_of n db). status x = s)"

lemma count_all_in: "count_excluding [s] n db = 0 \<longleftrightarrow> all_in s n db"
  by (simp add: count_excluding_0 all_in_def)

lemma all_in_rows: "tbl_run_location db' = tbl_run_location db \<Longrightarrow> all_in s n db' = all_in s n db"
  by (simp add: all_in_def locations_of_def)

definition run_after :: "datetime \<Rightarrow> test_run_location \<Rightarrow> database \<Rightarrow> test_run \<Rightarrow> test_run" where
  "run_after t l db r =
     (if name r = test_run l \<and> status l = READY \<and> all_in READY (test_run l) db then start_run t r
      else if name r = test_run l \<and> status l = COMPLETED \<and> all_in COMPLETED (test_run l) db
      then complete_run t r
      else r)"

lemma after_save_runs:
  "tbl_test_run (after_save t l db) = map (run_after t l (after_save t l db)) (tbl_test_run db)"
proof (cases "status l = FAILED")
  case True
  then have "run_after t l s = (\<lambda>r. r)" for s by (simp add: run_after_def fun_eq_iff)
  with True show ?thesis
    by (simp add: after_save_def after_failure_def after_started_def after_completed_def)
next
  case False
  have [simp]: "tbl_run_location (update_run n f s) = tbl_run_location s" for n f s
    by (simp add: update_run_def)
  have "all_in s n (after_save t l db) = all_in s n (put_run_location l db)" for s n
    using False by (intro all_in_rows) (simp add: after_save_rows)
  then show ?thesis
    using False
    by (cases "status l")
      (simp_all add: after_defs count_all_in run_after_def [abs_def] update_run_def)
qed

section \<open>The body of ready\<close>

text \<open>
  A location that becomes ready is still stored with its old status when the body of
  \<open>ready\<close> counts, so the count is not 0 and the body does not start the run.
\<close>

lemma ready_body_idle:
  assumes wf: "wf_db db" and l: "l \<in> set (tbl_run_location db)" and "status l \<noteq> READY"
  shows "ready_body e l db = (Inr l, db)"
proof -
  have run: "has_name (test_run l) (tbl_test_run db)"
    using wf l by (auto simp: wf_db_def has_name_iff)
  have "count_excluding [READY] (test_run l) db \<noteq> 0"
    using l assms(3) by (auto simp: count_excluding_0 locations_of_def)
  with get_run_stored [OF wf run] show ?thesis
    by (auto simp: ready_body_def bindp_def reads_def ret_def)
qed

section \<open>A property of ready\<close>

text \<open>
  The body of \<open>ready\<close> never starts a run: when the transition is called on a stored queued
  location, that location is still counted as not ready, so the only effect of the call is
  the new status of the object; the database is untouched and the start time is left to the
  receiver of the save.
\<close>

theorem ready_transition_only:
  assumes "fsm_moves e" and "wf_db db" and "l \<in> set (tbl_run_location db)" and "status l = QUEUED"
  shows "call_transition e ''ready'' message l db = (Inr (l\<lparr>status := READY\<rparr>), db)"
proof -
  have "fsm_target e status_transitions ''ready'' QUEUED = Some READY"
    using assms(1) by (simp add: fsm_moves_def status_transitions_def t_allows_def)
  moreover have "ready_body e l db = (Inr l, db)"
    using assms(2-4) by (intro ready_body_idle) simp_all
  ultimately show ?thesis
    using assms(4) by (simp add: call_transition_def transition_body_def bindp_def ret_def)
qed

theorem ready_transition_only_witness:
  "call_transition (sample_env 0) ''ready'' None (sample_row 4 ''eu'' 2 QUEUED) (sample_db False QUEUED READY) =
     (Inr ((sample_row 4 ''eu'' 2 QUEUED)\<lparr>status := READY\<rparr>), sample_db False QUEUED READY)"
  by (rule ready_transition_only [OF sample_env_laws(3) sample_db_wf])
    (simp_all add: sample_db_def sample_row_def new_test_run_location_def)

end
