(* ===== verification/Runs.thy ===== *)
theory Runs
  imports Signals
begin

text \<open>
  The methods of the models: the check-in of a location, the default output, the status
  counts of a run and its two aggregate flags, starting, canceling and duplicating a run,
  the status texts.
\<close>

section \<open>Test locations and outputs\<close>

definition ping :: "env \<Rightarrow> test_location \<Rightarrow> test_location" where
  "ping e l = l\<lparr>last_ping := Some (now e)\<rparr>"

definition staus :: "env \<Rightarrow> test_location \<Rightarrow> bool option" where
  "staus e l = (case last_ping l of None \<Rightarrow> None | Some t \<Rightarrow> Some (t > now e - minutes 5))"

text \<open>
  \<open>first()\<close> orders an unordered query by the key. The row \<open>create\<close> makes has the field
  defaults of the model.
\<close>

definition first_row :: "'a base_bare_model_scheme list \<Rightarrow> 'a base_bare_model_scheme option" where
  "first_row rows = (case sort_key (\<lambda>r. the (pk r)) rows of [] \<Rightarrow> None | r # _ \<Rightarrow> Some r)"

definition new_output :: "string \<Rightarrow> test_output_config" where
  "new_output n =
     \<lparr>pk = None, created_at = 0, updated_at = 0, name = n, influxdb_url = '''',
      influxdb_token = '''', influxdb_org = ''default'', influxdb_bucket = ''default'',
      insecure_skip_verify = False\<rparr>"

definition default_output :: "env \<Rightarrow> test_output_config web" where
  "default_output e = (\<lambda>db.
     case first_row (filter (\<lambda>x. name x = ''default'') (tbl_output db)) of
       Some x \<Rightarrow> (Inr x, db)
     | None \<Rightarrow> (case first_row (tbl_output db) of
         Some x \<Rightarrow> (Inr x, db)
       | None \<Rightarrow> save_output e (new_output ''default'') db))"

section \<open>Aggregates of a run\<close>

text \<open>
  The dictionary of \<open>statuses\<close>: one entry per stored status with its count, and the sum
  under \<open>"total"\<close>. \<open>py_get d k x\<close> is \<open>d.get(k, x)\<close>.
\<close>

definition py_get :: "(string \<times> 'v) list \<Rightarrow> string \<Rightarrow> 'v \<Rightarrow> 'v" where
  "py_get d k x = (case map_of d k of None \<Rightarrow> x | Some v \<Rightarrow> v)"

definition statuses :: "database \<Rightarrow> test_run \<Rightarrow> (string \<times> nat) list" where
  "statuses db r =
     (let ss = map status (locations_of (name r) db);
          counts = map (\<lambda>s. (status_value s, count_list ss s)) (remdups ss)
      in counts @ [(''total'', sum_list (map snd counts))])"

definition run_completed :: "database \<Rightarrow> test_run \<Rightarrow> bool" where
  "run_completed db r \<longleftrightarrow> pk_true (pk r) \<and> count_excluding [COMPLETED] (name r) db = 0"

definition run_ready :: "database \<Rightarrow> test_run \<Rightarrow> bool" where
  "run_ready db r \<longleftrightarrow> pk_true (pk r) \<and> count_excluding [READY] (name r) db = 0"

section \<open>Status texts\<close>

definition get_status_description :: "test_run_location \<Rightarrow> string option" where
  "get_status_description l =
     (if status_description l \<noteq> '''' then Some (status_description l)
      else case status l of
        PENDING \<Rightarrow> Some ''Waiting for job to be accepted.''
      | QUEUED \<Rightarrow> Some ''Queued for execution. Waiting for workers to start come online.''
      | READY \<Rightarrow> Some ''Workers are ready to start the test.''
      | RUNNING \<Rightarrow> Some ''Test is running''
      | COMPLETED \<Rightarrow> Some ''Test has completed successfully''
      | CANCELED \<Rightarrow> Some ''Job was canceled.''
      | FAILED \<Rightarrow> None)"

section \<open>Starting, canceling, duplicating\<close>

definition start_test_run :: "env \<Rightarrow> bool \<Rightarrow> test_run \<Rightarrow> test_run web" where
  "start_test_run e commit r =
     (let r' = r\<lparr>draft := False\<rparr> in if commit then save_test_run e r' else ret r')"

definition cancel_run :: "env \<Rightarrow> string option \<Rightarrow> test_run \<Rightarrow> unit web" where
  "cancel_run e message r = atomic
     (bindp (reads (\<lambda>db. filter (\<lambda>l. status l \<notin> {COMPLETED, CANCELED, FAILED}) (locations_of (name r) db)))
       (\<lambda>ls. for_each ls (\<lambda>l.
         bindp (call_transition e ''cancel'' message l) (\<lambda>l'.
         bindp (save_run_location e l') (\<lambda>_. ret ())))))"

text \<open>
  \<open>duplicate_test_run\<close> reuses the object: the same fields but for the ones it resets (a
  name of \<open>None\<close> is, like the empty one, replaced by \<open>save\<close>).
\<close>

definition reset_run :: "test_run \<Rightarrow> test_run" where
  "reset_run r = r\<lparr>pk := None, name := '''', draft := True, started_at := None\<rparr>"

definition reset_location :: "string \<Rightarrow> test_run_location \<Rightarrow> test_run_location" where
  "reset_location n l =
     l\<lparr>pk := None, test_run := n, status := PENDING, status_description := ''''\<rparr>"

definition duplicate_test_run :: "env \<Rightarrow> test_run \<Rightarrow> test_run web" where
  "duplicate_test_run e r = atomic
     (bindp (reads (locations_of (name r))) (\<lambda>ls.
      bindp (reads (env_vars_of (name r))) (\<lambda>vs.
      bindp (reads (labels_of (name r))) (\<lambda>bs.
      bindp (save_test_run e (reset_run r)) (\<lambda>obj.
      bindp (for_each ls (\<lambda>l. bindp (save_run_location e (reset_location (name obj) l)) (\<lambda>_. ret ()))) (\<lambda>_.
      bindp (for_each vs (\<lambda>v. bindp (save_env_var e (v\<lparr>pk := None, env_var_test_run := name obj\<rparr>)) (\<lambda>_. ret ()))) (\<lambda>_.
      bindp (for_each bs (\<lambda>b. bindp (save_label e (b\<lparr>pk := None, label_test_run := name obj\<rparr>)) (\<lambda>_. ret ()))) (\<lambda>_.
      ret obj))))))))"

section \<open>Counts\<close>

lemma statuses_total:
  "py_get (statuses db r) ''total'' 0 = length (locations_of (name r) db)"
proof -
  let ?ss = "map status (locations_of (name r) db)"
  have "sum_list (map snd (map (\<lambda>s. (status_value s, count_list ?ss s)) (remdups ?ss))) =
      sum (count_list ?ss) (set ?ss)"
    by (simp add: comp_def sum_list_distinct_conv_sum_set)
  also have "\<dots> = length ?ss" by (rule sum_count_set) simp_all
  finally have sum: "sum_list (map snd (map (\<lambda>s. (status_value s, count_list ?ss s)) (remdups ?ss))) =
      length ?ss" .
  have "map_of (map (\<lambda>s. (status_value s, count_list ?ss s)) (remdups ?ss)) ''total'' = None"
    by (auto simp: map_of_eq_None_iff)
  then show ?thesis
    using sum by (simp add: statuses_def Let_def py_get_def map_add_def del: map_map)
qed

lemma statuses_get:
  "py_get (statuses db r) (status_value s) 0 =
     length (filter (\<lambda>l. status l = s) (locations_of (name r) db))"
proof -
  let ?ss = "map status (locations_of (name r) db)"
  have "map_of (map (\<lambda>s. (status_value s, count_list ?ss s)) xs) (status_value s) =
      (if s \<in> set xs then Some (count_list ?ss s) else None)" for xs
    by (induction xs) auto
  moreover have "count_list ?ss s = length (filter (\<lambda>l. status l = s) (locations_of (name r) db))"
    by (simp add: count_list_eq_length_filter filter_map comp_def eq_commute)
  moreover have "s \<notin> set ?ss \<Longrightarrow> count_list ?ss s = 0" by (simp add: count_list_0_iff)
  ultimately show ?thesis
    by (auto simp: statuses_def Let_def py_get_def map_add_def simp del: map_map set_map)
qed

lemma length_filter_all: "length (filter P xs) = length xs \<longleftrightarrow> (\<forall>x \<in> set xs. P x)"
  by (metis filter_True length_filter_less nat_neq_iff)

lemma count_excluding_total:
  "count_excluding [s] n db = 0 \<longleftrightarrow>
     length (filter (\<lambda>l. status l = s) (locations_of n db)) = length (locations_of n db)"
  unfolding count_excluding_0 length_filter_all by simp

section \<open>Canceling\<close>

text \<open>The transition \<open>cancel\<close> is open in every state.\<close>

lemma call_cancel:
  assumes "fsm_moves e"
  shows "call_transition e ''cancel'' message l = ret ((record_message message l)\<lparr>status := CANCELED\<rparr>)"
  using assms
  by (simp add: call_transition_def fsm_moves_def status_transitions_def t_allows_def
      transition_body_def)

lemma record_message_kept [simp]:
  "pk (record_message m l) = pk l" "test_run (record_message m l) = test_run l"
  "location (record_message m l) = location l" "num_workers (record_message m l) = num_workers l"
  "status (record_message m l) = status l"
  by (simp_all add: record_message_def split: option.split)

definition canceled :: "string option \<Rightarrow> test_run_location \<Rightarrow> test_run_location" where
  "canceled message l = (record_message message l)\<lparr>status := CANCELED\<rparr>"

lemma canceled_kept [simp]:
  "pk (canceled m l) = pk l" "test_run (canceled m l) = test_run l"
  "location (canceled m l) = location l" "num_workers (canceled m l) = num_workers l"
  "status (canceled m l) = CANCELED" "placed (canceled m l) = placed l"
  by (simp_all add: canceled_def placed_def)

lemma fold_put_rows:
  assumes "keyed_rows (tbl_run_location db)" and "set ls \<subseteq> set (tbl_run_location db)"
    and h: "\<And>l. pk (h l) = pk l"
  shows "fold (\<lambda>l. put_run_location (h l)) ls db =
    update_run_locations (\<lambda>x. if x \<in> set ls then h x else x) db"
proof -
  have "fold (\<lambda>l. put_run_location (h l)) ls db =
      db\<lparr>tbl_run_location := fold (\<lambda>l. upsert pk (h l)) ls (tbl_run_location db)\<rparr>" for db :: database
    by (induction ls arbitrary: db) (simp_all add: put_run_location_def)
  with assms show ?thesis
    by (simp add: fold_upsert_rows keyed_rows_def update_run_locations_def)
qed

text \<open>
  Canceling a run cannot fail, whatever order the database returns its locations in, and
  cancels exactly its locations that have not ended.
\<close>

definition ended :: "status \<Rightarrow> bool" where
  "ended s \<longleftrightarrow> s \<in> {COMPLETED, CANCELED, FAILED}"

definition cancel_row :: "string \<Rightarrow> string option \<Rightarrow> test_run_location \<Rightarrow> test_run_location" where
  "cancel_row n message l = (if test_run l = n \<and> \<not> ended (status l) then canceled message l else l)"

lemma cancel_run_eq:
  assumes fsm: "fsm_moves e" and wf: "wf_db db"
  shows "cancel_run e message r db =
    (Inr (), update_run_locations (cancel_row (name r) message) db)"
proof -
  let ?ls = "filter (\<lambda>l. status l \<notin> {COMPLETED, CANCELED, FAILED}) (locations_of (name r) db)"
  let ?body = "\<lambda>l. bindp (call_transition e ''cancel'' message l) (\<lambda>l'.
      bindp (save_run_location e l') (\<lambda>_. ret ()))"
  let ?I = "\<lambda>s. wf_db s \<and> (\<forall>l \<in> set ?ls. stored_at s l)"
  have body: "?body l s = (Inr (), put_run_location (canceled message l) s) \<and>
      ?I (put_run_location (canceled message l) s)" if l: "l \<in> set ?ls" and I: "?I s" for l s
  proof -
    have st: "stored_at s (canceled message l)"
      using I l by (auto simp: stored_at_def)
    have "save_run_location e (canceled message l) s =
        (Inr (canceled message l), put_run_location (canceled message l) s)"
      using I st by (simp add: save_stored_location after_save_plain)
    then have 1: "?body l s = (Inr (), put_run_location (canceled message l) s)"
      by (simp add: call_cancel [OF fsm] bindp_def ret_def flip: canceled_def)
    have 2: "wf_db (put_run_location (canceled message l) s)"
      using I st save_stored_row wf_save_run_location_row by blast
    have "stored_at (put_run_location (canceled message l) s) x" if x: "x \<in> set ?ls" for x
    proof (cases "pk x = pk l")
      case True
      with wf l x have "x = l"
        by (auto simp: wf_db_def keyed_rows_def locations_of_def distinct_map dest: inj_onD)
      then show ?thesis by (force simp: stored_at_def put_run_location_def set_upsert)
    next
      case False
      from I x obtain y where "y \<in> set (tbl_run_location s)" "pk y = pk x" "placed y = placed x"
        by (auto simp: stored_at_def)
      with False show ?thesis by (auto simp: stored_at_def put_run_location_def set_upsert)
    qed
    with 1 2 show ?thesis by blast
  qed
  have sub: "set ?ls \<subseteq> set (tbl_run_location db)" by (auto simp: locations_of_def)
  then have "?I db" using wf by (auto simp: stored_at_def)
  with body have "for_each ?ls ?body db = (Inr (), fold (\<lambda>l. put_run_location (canceled message l)) ?ls db)"
    using for_each_inv [of ?ls ?I ?body "\<lambda>l. put_run_location (canceled message l)" db] by blast
  also have "fold (\<lambda>l. put_run_location (canceled message l)) ?ls db =
      update_run_locations (\<lambda>x. if x \<in> set ?ls then canceled message x else x) db"
    using wf sub by (intro fold_put_rows) (simp_all add: wf_db_def)
  also have "\<dots> = update_run_locations (cancel_row (name r) message) db"
    by (auto simp: update_run_locations_def cancel_row_def ended_def locations_of_def)
  finally show ?thesis
    by (simp add: cancel_run_def atomic_def bindp_def reads_def)
qed

lemma cancel_row_kept [simp]:
  "pk (cancel_row n m l) = pk l" "test_run (cancel_row n m l) = test_run l"
  "location (cancel_row n m l) = location l" "num_workers (cancel_row n m l) = num_workers l"
  by (simp_all add: cancel_row_def)

lemma wf_cancel_run:
  "fsm_moves e \<Longrightarrow> wf_db db \<Longrightarrow> cancel_run e message r db = (res, db') \<Longrightarrow> wf_db db'"
  by (auto simp: cancel_run_eq intro!: wf_update_run_locations)

lemma first_row_in: "first_row rows = Some r \<Longrightarrow> r \<in> set rows"
  by (auto simp: first_row_def split: list.splits) (metis list.set_intros(1) set_sort)

lemma first_row_None: "first_row rows = None \<longleftrightarrow> rows = []"
  by (auto simp: first_row_def split: list.splits) (metis length_0_conv length_sort)

section \<open>Properties of the runs\<close>

text \<open>
  Canceling a run never fails, whatever order the database returns its locations in: it
  cancels exactly the locations of the run that have not ended, with the given message, leaves
  every other row of every table alone, and afterwards every location of the run has ended,
  so that canceling again changes nothing.
\<close>

theorem cancel_run_ends_run:
  assumes "fsm_moves e" and "fsm_moves e'" and "wf_db db"
  shows "\<exists>db'. cancel_run e message r db = (Inr (), db') \<and>
    db' = db\<lparr>tbl_run_location := map (\<lambda>l.
      if test_run l = name r \<and> status l \<notin> {COMPLETED, CANCELED, FAILED}
      then l\<lparr>status := CANCELED,
             status_description :=
               (case message of Some m \<Rightarrow> if m = '''' then status_description l else m
                | None \<Rightarrow> status_description l)\<rparr>
      else l) (tbl_run_location db)\<rparr> \<and>
    (\<forall>l \<in> set (locations_of (name r) db'). ended (status l)) \<and>
    cancel_run e' message' r db' = (Inr (), db')"
proof (intro exI conjI)
  let ?db' = "update_run_locations (cancel_row (name r) message) db"
  have row: "cancel_row (name r) message l =
      (if test_run l = name r \<and> status l \<notin> {COMPLETED, CANCELED, FAILED}
       then l\<lparr>status := CANCELED,
              status_description :=
                (case message of Some m \<Rightarrow> if m = '''' then status_description l else m
                 | None \<Rightarrow> status_description l)\<rparr>
       else l)" for l
    by (auto simp: cancel_row_def canceled_def record_message_def ended_def split: option.split)
  show "cancel_run e message r db = (Inr (), ?db')" by (rule cancel_run_eq [OF assms(1,3)])
  show "?db' = db\<lparr>tbl_run_location := map (\<lambda>l.
      if test_run l = name r \<and> status l \<notin> {COMPLETED, CANCELED, FAILED}
      then l\<lparr>status := CANCELED,
             status_description :=
               (case message of Some m \<Rightarrow> if m = '''' then status_description l else m
                | None \<Rightarrow> status_description l)\<rparr>
      else l) (tbl_run_location db)\<rparr>"
    by (simp add: update_run_locations_def row)
  have ended_row: "ended (status (cancel_row n m l))" if "test_run l = n" for n m l
    using that by (simp add: cancel_row_def ended_def)
  then show "\<forall>l \<in> set (locations_of (name r) ?db'). ended (status l)"
    by (auto simp: locations_of_def update_run_locations_def)
  have "cancel_row (name r) message' (cancel_row (name r) message l) = cancel_row (name r) message l" for l
    using ended_row [of l "name r" message] by (cases "test_run l = name r") (simp_all add: cancel_row_def ended_def)
  then show "cancel_run e' message' r ?db' = (Inr (), ?db')"
    using wf_cancel_run [OF assms(1,3) cancel_run_eq [OF assms(1,3)]]
    by (simp add: cancel_run_eq [OF assms(2)] update_run_locations_def)
qed

theorem cancel_run_ends_run_witness:
  "\<exists>db'. cancel_run (sample_env 0) (Some ''stop'') (sample_run False) (sample_db False RUNNING COMPLETED) = (Inr (), db') \<and>
    map status (tbl_run_location db') = [CANCELED, COMPLETED]"
  using cancel_run_ends_run [OF sample_env_laws(3) sample_env_laws(3) sample_db_wf,
      of 0 "Some ''stop''" "sample_run False" False RUNNING COMPLETED 0 None]
  by (auto simp: sample_defs)

text \<open>
  The default output always exists: the one named default if there is one, else the first
  by key, else a new row; asking again, at any time, gives the same output and writes nothing.
\<close>

theorem default_output_stable:
  assumes "fresh_pk e" and "wf_db db"
  shows "\<exists>x db'. default_output e db = (Inr x, db') \<and> wf_db db' \<and> x \<in> set (tbl_output db') \<and>
    (has_name ''default'' (tbl_output db) \<longrightarrow> name x = ''default'') \<and>
    (tbl_output db \<noteq> [] \<longrightarrow> db' = db) \<and> default_output e' db' = (Inr x, db')"
proof (cases "first_row (filter (\<lambda>x. name x = ''default'') (tbl_output db))")
  case (Some x)
  then have x: "x \<in> set (tbl_output db)" "name x = ''default''" by (auto dest: first_row_in)
  with Some assms(2) show ?thesis by (intro exI [of _ x] exI [of _ db]) (simp add: default_output_def)
next
  case none: None
  then have no: "\<not> has_name ''default'' (tbl_output db)"
    by (force simp: first_row_None filter_empty_conv has_name_iff)
  show ?thesis
  proof (cases "first_row (tbl_output db)")
    case (Some x)
    then have "x \<in> set (tbl_output db)" by (rule first_row_in)
    with Some none no assms(2) show ?thesis
      by (intro exI [of _ x] exI [of _ db]) (simp add: default_output_def)
  next
    case None
    then have empty: "tbl_output db = []" by (simp add: first_row_None)
    let ?x = "stamp e [] (assign_pk e [] (new_output ''default''))"
    have n: "name ?x = ''default''" by (simp add: assign_pk_def new_output_def)
    have key: "pk ?x \<noteq> None" using assign_pk_Some by simp
    have wf': "wf_db (put_output ?x db)"
      using key by (intro wf_put_output [OF assms(2)]) (simp_all add: empty name_taken_def keeps_name_def)
    have out: "tbl_output (put_output ?x db) = [?x]" by (simp add: put_output_def empty upsert_def)
    have "default_output e db = (Inr ?x, put_output ?x db)"
      by (simp add: default_output_def first_row_def save_output_def empty name_taken_def Let_def)
    moreover have "default_output e' (put_output ?x db) = (Inr ?x, put_output ?x db)"
      using n by (simp add: default_output_def out first_row_def)
    ultimately show ?thesis
      using wf' n out no empty by (intro exI [of _ ?x] exI [of _ "put_output ?x db"]) simp
  qed
qed

theorem default_output_stable_witness:
  "\<exists>x. default_output (sample_env 0) (sample_db True PENDING PENDING) = (Inr x, sample_db True PENDING PENDING) \<and>
    name x = ''default''"
proof -
  have "tbl_output (sample_db True PENDING PENDING) \<noteq> []"
    "has_name ''default'' (tbl_output (sample_db True PENDING PENDING))" by code_simp+
  with default_output_stable [OF sample_env_laws(1) sample_db_wf, of 0 True PENDING PENDING] show ?thesis by auto
qed

text \<open>
  A location has a text for its status in all cases but one: a failed location without a
  description of its own, where the method falls through and returns nothing.
\<close>

theorem status_description_missing:
  "get_status_description l = None \<longleftrightarrow> status l = FAILED \<and> status_description l = ''''"
  by (cases "status l") (simp_all add: get_status_description_def)

end
