(* ===== verification/Jobs.thy ===== *)
theory Jobs
  imports Runs
begin

text \<open>
  webapp/loadtest/serializers.py: the job a worker reads (\<open>JobSerializer\<close> with the nested
  run) and the update it writes, with the check of the status it asks for. The update is
  reduced to one save of the changed row, whatever way django-fsm hands out its methods.
\<close>

section \<open>The update\<close>

text \<open>
  The validated data of a request: the writable fields, \<open>None\<close> where the request leaves
  one out. \<open>assign_data\<close> is the \<open>setattr\<close> loop of \<open>super().update\<close>.
\<close>

record job_data =
  d_location :: "string option"
  d_num_workers :: "nat option"
  d_online_workers :: "nat option"
  d_status :: "status option"
  d_status_description :: "string option"

definition the_default :: "'a \<Rightarrow> 'a option \<Rightarrow> 'a" where
  "the_default x v = (case v of None \<Rightarrow> x | Some y \<Rightarrow> y)"

definition assign_data :: "job_data \<Rightarrow> test_run_location \<Rightarrow> test_run_location" where
  "assign_data d l =
     l\<lparr>location := the_default (location l) (d_location d),
       num_workers := the_default (num_workers l) (d_num_workers d),
       online_workers := the_default (online_workers l) (d_online_workers d),
       status := the_default (status l) (d_status d),
       status_description := the_default (status_description l) (d_status_description d)\<rparr>"

definition invalid_status_message :: "status \<Rightarrow> status \<Rightarrow> string" where
  "invalid_status_message s t =
     ''Invalid status transition from `'' @ status_value s @ ''` to `'' @ status_value t @ ''`''"

definition validate_status :: "env \<Rightarrow> test_run_location \<Rightarrow> status \<Rightarrow> exn + status" where
  "validate_status e inst s =
     (if s = status inst then Inr s
      else if s \<notin> set (map t_target (fsm_available e status_transitions (status inst)))
      then Inl (ValidationError (invalid_status_message (status inst) s))
      else Inr s)"

definition validate_data :: "env \<Rightarrow> test_run_location \<Rightarrow> job_data \<Rightarrow> exn + job_data" where
  "validate_data e inst d =
     (case d_status d of None \<Rightarrow> Inr d
      | Some s \<Rightarrow> (case validate_status e inst s of Inl x \<Rightarrow> Inl x | Inr _ \<Rightarrow> Inr d))"

definition run_method :: "env \<Rightarrow> transition \<Rightarrow> test_run_location \<Rightarrow> test_run_location web" where
  "run_method e t l =
     (if fsm_bare e then transition_body e (t_name t) None l
      else call_transition e (t_name t) None l)"

fun run_methods :: "env \<Rightarrow> transition list \<Rightarrow> test_run_location \<Rightarrow> test_run_location web" where
  "run_methods e [] l = ret l"
| "run_methods e (t # ts) l = bindp (run_method e t l) (run_methods e ts)"

text \<open>The loop over the transitions to the status asked for, and the whole update.\<close>

definition job_methods :: "env \<Rightarrow> test_run_location \<Rightarrow> job_data \<Rightarrow> test_run_location web" where
  "job_methods e inst d =
     (case d_status d of
        None \<Rightarrow> ret inst
      | Some s \<Rightarrow>
          if status inst \<noteq> s
          then run_methods e
            (filter (\<lambda>t. t_target t = s) (fsm_available e status_transitions (status inst))) inst
          else ret inst)"

definition update_job :: "env \<Rightarrow> test_run_location \<Rightarrow> job_data \<Rightarrow> test_run_location web" where
  "update_job e inst d = bindp (job_methods e inst d) (\<lambda>l. save_run_location e (assign_data d l))"

section \<open>The job a worker reads\<close>

text \<open>\<open>{name: value for (name, value) in pairs}\<close>: a later pair replaces an earlier one.\<close>

definition dict_of :: "(string \<times> string) list \<Rightarrow> string \<Rightarrow> string option" where
  "dict_of kvs = map_of (rev kvs)"

record test_run_json =
  rj_created_at :: datetime
  rj_updated_at :: datetime
  rj_target :: string
  rj_test_output :: string
  rj_source_repo :: string
  rj_source_ref :: string
  rj_source_script :: string
  rj_started_at :: "datetime option"
  rj_completed_at :: "datetime option"
  rj_resources_cpu :: string
  rj_resources_memory :: string
  rj_dedicated_nodes :: bool
  rj_node_selector :: string
  rj_job_deadline :: string
  rj_draft :: bool
  rj_completed :: bool
  rj_ready :: bool
  rj_segments :: "string list"
  rj_env_vars :: "string \<Rightarrow> string option"
  rj_labels :: "string \<Rightarrow> string option"

definition test_run_repr :: "database \<Rightarrow> test_run \<Rightarrow> test_run_json" where
  "test_run_repr db r =
     \<lparr>rj_created_at = created_at r, rj_updated_at = updated_at r, rj_target = target r,
      rj_test_output = test_output r, rj_source_repo = source_repo r,
      rj_source_ref = source_ref r, rj_source_script = source_script r,
      rj_started_at = started_at r, rj_completed_at = completed_at r,
      rj_resources_cpu = resources_cpu r, rj_resources_memory = resources_memory r,
      rj_dedicated_nodes = dedicated_nodes r, rj_node_selector = node_selector r,
      rj_job_deadline = job_deadline r, rj_draft = draft r,
      rj_completed = run_completed db r, rj_ready = run_ready db r,
      rj_segments = segments db r,
      rj_env_vars = dict_of (map (\<lambda>v. (env_var_name v, env_var_value v)) (env_vars_of (name r) db)),
      rj_labels = dict_of (map (\<lambda>v. (label_name v, label_value v)) (labels_of (name r) db))\<rparr>"

record output_json =
  oj_influxdb_url :: string
  oj_influxdb_token :: string
  oj_influxdb_org :: string
  oj_influxdb_bucket :: string
  oj_insecure_skip_verify :: bool

definition output_repr :: "test_output_config \<Rightarrow> output_json" where
  "output_repr x =
     \<lparr>oj_influxdb_url = influxdb_url x, oj_influxdb_token = influxdb_token x,
      oj_influxdb_org = influxdb_org x, oj_influxdb_bucket = influxdb_bucket x,
      oj_insecure_skip_verify = insecure_skip_verify x\<rparr>"

record job_json =
  j_name :: string
  j_url :: string
  j_test_run :: test_run_json
  j_output_config :: output_json
  j_assigned_segments :: "segment list"
  j_location :: string
  j_num_workers :: nat
  j_online_workers :: nat
  j_status :: status
  j_status_description :: string

text \<open>
  \<open>reverse_job\<close> is \<open>reverse("testrunlocation-detail", ...)\<close>: Django builds the URL of a
  location and a run, or raises \<open>NoReverseMatch\<close> when the route does not accept them.
\<close>

definition job_repr ::
  "(string \<Rightarrow> string \<Rightarrow> exn + string) \<Rightarrow> test_run_location \<Rightarrow> job_json web" where
  "job_repr reverse_job l =
     bindp (get_run (test_run l)) (\<lambda>r.
     bindp (of_result (reverse_job (location l) (name r))) (\<lambda>url.
     bindp (reads (\<lambda>db. by_key name (test_output r) (tbl_output db))) (\<lambda>out.
     bindp (reads (\<lambda>db. assigned_segments db l)) (\<lambda>segs.
     bindp (of_result segs) (\<lambda>ss.
     bindp (reads (\<lambda>db. test_run_repr db r)) (\<lambda>rj.
     case out of
       None \<Rightarrow> raise (DoesNotExist ''TestOutputConfig'')
     | Some x \<Rightarrow> ret
         \<lparr>j_name = name r, j_url = url, j_test_run = rj, j_output_config = output_repr x,
          j_assigned_segments = ss, j_location = location l, j_num_workers = num_workers l,
          j_online_workers = online_workers l, j_status = status l,
          j_status_description = status_description l\<rparr>))))))"

section \<open>The update as one save\<close>

lemma assign_data_fields [simp]:
  "pk (assign_data d l) = pk l" "test_run (assign_data d l) = test_run l"
  "location (assign_data d l) = the_default (location l) (d_location d)"
  "status (assign_data d l) = the_default (status l) (d_status d)"
  by (simp_all add: assign_data_def)

lemma the_default_simps [simp]: "the_default x None = x" "the_default x (Some y) = y"
  by (simp_all add: the_default_def)

text \<open>At most one transition leads from a state to another one.\<close>

lemma available_to:
  assumes "fsm_lists e"
  shows "filter (\<lambda>t. t_target t = s') (fsm_available e status_transitions s) =
    filter (\<lambda>t. t_target t = s') (filter (t_allows s) status_transitions)"
proof -
  let ?av = "filter (\<lambda>t. t_target t = s') (fsm_available e status_transitions s)"
  let ?tb = "filter (\<lambda>t. t_target t = s') (filter (t_allows s) status_transitions)"
  have "mset (fsm_available e status_transitions s) = mset (filter (t_allows s) status_transitions)"
    using assms unfolding fsm_lists_def by blast
  then have m: "mset ?av = mset ?tb" by (simp only: mset_filter)
  have "length ?tb \<le> 1"
    by (cases s'; cases s) (simp_all add: status_transitions_def t_allows_def)
  with m show ?thesis by (rule mset_short)
qed

lemma available_targets:
  assumes "fsm_lists e"
  shows "set (map t_target (fsm_available e status_transitions s)) = {t. status_edge s t}"
proof -
  from assms have "set (fsm_available e status_transitions s) = {t \<in> set status_transitions. t_allows s t}"
    by (metis fsm_lists_def mset_eq_setD set_filter)
  then show ?thesis by (auto simp: status_edge_table)
qed

lemma validate_status_iff:
  "fsm_lists e \<Longrightarrow> validate_status e inst s =
     (if s = status inst \<or> status_edge (status inst) s then Inr s
      else Inl (ValidationError (invalid_status_message (status inst) s)))"
  using available_targets [of e "status inst"] by (auto simp: validate_status_def)

lemma find_transition:
  "t \<in> set status_transitions \<Longrightarrow> t_allows s t \<Longrightarrow>
     find (\<lambda>t'. t_name t' = t_name t \<and> t_allows s t') status_transitions = Some t"
  by (rule find_distinct) (simp_all add: status_transitions_def)

lemma ready_source:
  "t \<in> set status_transitions \<Longrightarrow> t_allows s t \<Longrightarrow> t_name t = ''ready'' \<Longrightarrow> s = QUEUED"
  by (auto simp: status_transitions_def t_allows_def)

lemma run_method_idle:
  assumes "fsm_moves e" and wf: "wf_db db" and l: "l \<in> set (tbl_run_location db)"
    and t: "t \<in> set status_transitions" "t_allows (status l) t"
  shows "run_method e t l db = (Inr l, db) \<or>
         run_method e t l db = (Inr (l\<lparr>status := t_target t\<rparr>), db)"
proof -
  have "transition_body e (t_name t) None l db = (Inr l, db)"
  proof (cases "t_name t = ''ready''")
    case True
    with t have "status l \<noteq> READY" using ready_source by fastforce
    with True show ?thesis by (simp add: transition_body_def ready_body_idle [OF wf l])
  qed (simp add: transition_body_def record_message_def ret_def)
  moreover have "fsm_target e status_transitions (t_name t) (status l) = Some (t_target t)"
    using assms(1) find_transition [OF t] unfolding fsm_moves_def by simp
  ultimately show ?thesis
    by (simp add: run_method_def call_transition_def bindp_def ret_def)
qed

lemma job_methods_idle:
  assumes fsm: "fsm_lists e" "fsm_moves e" and wf: "wf_db db"
    and l: "l \<in> set (tbl_run_location db)"
  shows "\<exists>l1. job_methods e l d db = (Inr l1, db) \<and> assign_data d l1 = assign_data d l"
proof (cases "\<exists>s. d_status d = Some s \<and> status l \<noteq> s")
  case False
  then show ?thesis by (auto simp: job_methods_def ret_def split: option.split)
next
  case True
  then obtain s where s: "d_status d = Some s" "status l \<noteq> s" by blast
  let ?ts = "filter (\<lambda>t. t_target t = s) (filter (t_allows (status l)) status_transitions)"
  have "?ts = [] \<or> (\<exists>t. ?ts = [t])"
    by (cases s; cases "status l") (simp_all add: status_transitions_def t_allows_def)
  then show ?thesis
  proof
    assume "?ts = []"
    with s show ?thesis by (simp add: job_methods_def available_to [OF fsm(1)] ret_def)
  next
    assume "\<exists>t. ?ts = [t]"
    then obtain t where t: "?ts = [t]" by blast
    then have "t \<in> set ?ts" by simp
    then have t_in: "t \<in> set status_transitions" "t_allows (status l) t" "t_target t = s" by auto
    have "assign_data d (l\<lparr>status := s\<rparr>) = assign_data d l"
      using s(1) by (simp add: assign_data_def)
    with s t run_method_idle [OF fsm(2) wf l t_in(1,2)] t_in(3) show ?thesis
      by (auto simp: job_methods_def available_to [OF fsm(1)] bindp_def ret_def)
  qed
qed

lemma update_job_eq:
  assumes "fsm_lists e" "fsm_moves e" and "wf_db db" and "l \<in> set (tbl_run_location db)"
  shows "update_job e l d db = save_run_location e (assign_data d l) db"
  using job_methods_idle [OF assms, of d] by (auto simp: update_job_def bindp_def)

end
