(* ===== verification/Views.thy ===== *)
theory Views
  imports Jobs
begin

text \<open>
  The worker API of webapp/loadtest/views.py under the routes of webapp/webapp/urls.py:
  the check-in of a location and the jobs of a location (list, read, write, the action
  \<open>accept\<close>), with the query each request is answered from.
\<close>

section \<open>Routes\<close>

text \<open>The route accepts the location names matching \<open>[a-z0-9-]+\<close>.\<close>

definition route_char :: "char \<Rightarrow> bool" where
  "route_char c \<longleftrightarrow>
     (let n = of_char c :: nat in (97 \<le> n \<and> n \<le> 122) \<or> (48 \<le> n \<and> n \<le> 57) \<or> c = CHR ''-'')"

definition route_location :: "string \<Rightarrow> bool" where
  "route_location s \<longleftrightarrow> s \<noteq> [] \<and> list_all route_char s"

datatype response = Response nat

section \<open>Check-in\<close>

text \<open>
  \<open>PingViewSet\<close>: the keyword arguments hold the location of the route, if there is one.
\<close>

definition ping_get_object :: "string option \<Rightarrow> database \<Rightarrow> test_location option" where
  "ping_get_object loc db =
     (case loc of None \<Rightarrow> None
      | Some n \<Rightarrow> first_row (filter (\<lambda>l. name l = n) (tbl_location db)))"

definition ping_get_queryset :: "string option \<Rightarrow> database \<Rightarrow> test_location list" where
  "ping_get_queryset loc db =
     (case loc of None \<Rightarrow> [] | Some n \<Rightarrow> filter (\<lambda>l. name l = n) (tbl_location db))"

definition ping_create :: "env \<Rightarrow> string option \<Rightarrow> response web" where
  "ping_create e loc =
     bindp (reads (ping_get_object loc)) (\<lambda>inst.
     case inst of
       Some l \<Rightarrow> bindp (save_location e (ping e l)) (\<lambda>_. ret (Response 204))
     | None \<Rightarrow> ret (Response 404))"

section \<open>Jobs\<close>

text \<open>
  What a request carries: the location and the run name of its route and whether its query
  string has the parameter \<open>all\<close>.
\<close>

record job_request =
  q_all :: bool
  q_location :: "string option"
  q_name :: "string option"

definition run_is_draft :: "database \<Rightarrow> test_run_location \<Rightarrow> bool" where
  "run_is_draft db l = list_ex (\<lambda>r. name r = test_run l \<and> draft r) (tbl_test_run db)"

definition jobs_get_queryset :: "job_request \<Rightarrow> database \<Rightarrow> test_run_location list" where
  "jobs_get_queryset q db =
     (let qs = tbl_run_location db;
          qs = (if q_all q then qs else filter (\<lambda>l. \<not> run_is_draft db l) qs)
      in case q_location q of
        None \<Rightarrow> []
      | Some loc \<Rightarrow>
          let qs = (case q_name q of None \<Rightarrow> qs
                    | Some n \<Rightarrow> if n = '''' then qs else filter (\<lambda>l. test_run l = n) qs)
          in filter (\<lambda>l. location l = loc) qs)"

text \<open>
  \<open>get_object\<close> of the generic views looks the run name of the route up in that query:
  404 without a row, and more than one is an error.
\<close>

definition jobs_get_object :: "job_request \<Rightarrow> test_run_location web" where
  "jobs_get_object q = (\<lambda>db.
     case filter (\<lambda>l. Some (test_run l) = q_name q) (jobs_get_queryset q db) of
       [] \<Rightarrow> (Inl Http404, db)
     | [l] \<Rightarrow> (Inr l, db)
     | _ \<Rightarrow> (Inl MultipleObjectsReturned, db))"

text \<open>The update of \<open>UpdateModelMixin\<close>: look the row up, validate, update.\<close>

definition put_job :: "env \<Rightarrow> job_request \<Rightarrow> job_data \<Rightarrow> test_run_location web" where
  "put_job e q d =
     bindp (jobs_get_object q) (\<lambda>inst.
     bindp (of_result (validate_data e inst d)) (\<lambda>d'.
     update_job e inst d'))"

definition retrieve_job ::
  "(string \<Rightarrow> string \<Rightarrow> exn + string) \<Rightarrow> job_request \<Rightarrow> job_json web" where
  "retrieve_job reverse_job q = bindp (jobs_get_object q) (job_repr reverse_job)"

fun map_prog :: "('a \<Rightarrow> ('s, 'e, 'b) prog) \<Rightarrow> 'a list \<Rightarrow> ('s, 'e, 'b list) prog" where
  "map_prog f [] = ret []"
| "map_prog f (x # xs) = bindp (f x) (\<lambda>y. bindp (map_prog f xs) (\<lambda>ys. ret (y # ys)))"

definition list_jobs ::
  "(string \<Rightarrow> string \<Rightarrow> exn + string) \<Rightarrow> job_request \<Rightarrow> job_json list web" where
  "list_jobs reverse_job q =
     bindp (reads (jobs_get_queryset q)) (map_prog (job_repr reverse_job))"

text \<open>
  The action \<open>accept\<close> calls \<open>enqueue\<close> on the row. The methods of \<open>TestRunLocation\<close> are
  the transitions of its table; a name that is none of them is an \<open>AttributeError\<close>.
\<close>

definition call_method :: "env \<Rightarrow> string \<Rightarrow> test_run_location \<Rightarrow> test_run_location web" where
  "call_method e m l =
     (if m \<in> set (map t_name status_transitions) then call_transition e m None l
      else raise (AttributeError m))"

definition accept_job :: "env \<Rightarrow> job_request \<Rightarrow> response web" where
  "accept_job e q =
     bindp (jobs_get_object q) (\<lambda>inst.
     bindp (call_method e ''enqueue'' inst) (\<lambda>inst'.
     bindp (save_run_location e inst') (\<lambda>_. ret (Response 200))))"

section \<open>The row of a request\<close>

lemma jobs_get_queryset_iff:
  "l \<in> set (jobs_get_queryset q db) \<longleftrightarrow>
     l \<in> set (tbl_run_location db) \<and> q_location q = Some (location l) \<and>
     (q_all q \<or> \<not> run_is_draft db l) \<and>
     (\<forall>n. q_name q = Some n \<longrightarrow> n = '''' \<or> test_run l = n)"
  by (auto simp: jobs_get_queryset_def Let_def split: option.splits if_splits)

text \<open>The pair of run and location is unique, so a request finds at most one row.\<close>

lemma distinct_at_most_one:
  "distinct xs \<Longrightarrow> (\<And>x y. x \<in> set xs \<Longrightarrow> y \<in> set xs \<Longrightarrow> x = y) \<Longrightarrow> xs = [] \<or> (\<exists>x. xs = [x])"
  by (metis distinct_length_2_or_more list.exhaust list.set_intros(1) list.set_intros(2))

lemma jobs_get_object_cases:
  assumes wf: "wf_db db"
  obtains (found) l where "jobs_get_object q db = (Inr l, db)"
      "l \<in> set (jobs_get_queryset q db)" "q_name q = Some (test_run l)"
    | (missing) "jobs_get_object q db = (Inl Http404, db)"
      "\<forall>l \<in> set (jobs_get_queryset q db). q_name q \<noteq> Some (test_run l)"
proof -
  let ?xs = "filter (\<lambda>l. Some (test_run l) = q_name q) (jobs_get_queryset q db)"
  have "distinct (tbl_run_location db)" and inj: "inj_on placed (set (tbl_run_location db))"
    using wf by (simp_all add: wf_db_def distinct_map)
  then have "distinct ?xs"
    by (auto simp: jobs_get_queryset_def Let_def split: option.split)
  moreover have "x = y" if "x \<in> set ?xs" "y \<in> set ?xs" for x y
  proof -
    from that have "Some (test_run x) = q_name q" "Some (test_run y) = q_name q"
      "q_location q = Some (location x)" "q_location q = Some (location y)"
      by (simp_all add: jobs_get_queryset_iff)
    then have "placed x = placed y" by (metis option.inject placed_def)
    with inj that show ?thesis by (auto simp: jobs_get_queryset_iff dest: inj_onD)
  qed
  ultimately have "?xs = [] \<or> (\<exists>l. ?xs = [l])" by (rule distinct_at_most_one)
  then show ?thesis
  proof
    assume none: "?xs = []"
    then have "\<forall>l \<in> set (jobs_get_queryset q db). q_name q \<noteq> Some (test_run l)"
      by (auto simp: filter_empty_conv)
    with none show ?thesis by (intro missing) (simp_all add: jobs_get_object_def)
  next
    assume "\<exists>l. ?xs = [l]"
    then obtain l where one: "?xs = [l]" by blast
    then have "l \<in> set ?xs" by simp
    then have "l \<in> set (jobs_get_queryset q db)" "q_name q = Some (test_run l)" by simp_all
    with one show ?thesis by (intro found [of l]) (simp_all add: jobs_get_object_def)
  qed
qed

text \<open>
  A write on a well-formed database is one of: no such job, a refused status, or one save
  of the changed row.
\<close>

lemma put_job_cases:
  assumes fsm: "fsm_lists e" "fsm_moves e" and wf: "wf_db db"
  obtains (missing) "put_job e q d db = (Inl Http404, db)"
      "\<forall>l \<in> set (jobs_get_queryset q db). q_name q \<noteq> Some (test_run l)"
    | (refused) l s where "jobs_get_object q db = (Inr l, db)" "d_status d = Some s" "s \<noteq> status l"
      "\<not> status_edge (status l) s"
      "put_job e q d db = (Inl (ValidationError (invalid_status_message (status l) s)), db)"
    | (saved) l where "jobs_get_object q db = (Inr l, db)" "l \<in> set (tbl_run_location db)"
      "status (assign_data d l) = status l \<or> status_edge (status l) (status (assign_data d l))"
      "put_job e q d db = save_run_location e (assign_data d l) db"
proof (rule jobs_get_object_cases [OF wf, of q])
  assume "jobs_get_object q db = (Inl Http404, db)"
    and "\<forall>l \<in> set (jobs_get_queryset q db). q_name q \<noteq> Some (test_run l)"
  then show ?thesis using that(1) by (simp add: put_job_def bindp_def)
next
  fix l
  assume found: "jobs_get_object q db = (Inr l, db)" "l \<in> set (jobs_get_queryset q db)"
    "q_name q = Some (test_run l)"
  then have l: "l \<in> set (tbl_run_location db)" by (simp add: jobs_get_queryset_iff)
  show ?thesis
  proof (cases "\<exists>s. d_status d = Some s \<and> s \<noteq> status l \<and> \<not> status_edge (status l) s")
    case True
    then obtain s where "d_status d = Some s" "s \<noteq> status l" "\<not> status_edge (status l) s" by blast
    with found(1) show ?thesis
      by (intro that(2) [of l s])
        (simp_all add: put_job_def bindp_def validate_data_def validate_status_iff [OF fsm(1)] of_result_def)
  next
    case False
    then have "validate_data e l d = Inr d"
      by (auto simp: validate_data_def validate_status_iff [OF fsm(1)] split: option.split)
    with found(1) have "put_job e q d db = update_job e l d db"
      by (simp add: put_job_def bindp_def of_result_def)
    with False found(1) l show ?thesis
      by (intro that(3) [of l])
        (auto simp: update_job_eq [OF fsm wf l] the_default_def split: option.split)
  qed
qed

lemma jobs_get_object_found:
  assumes "jobs_get_object q db = (Inr l, db')"
  shows "l \<in> set (jobs_get_queryset q db)" "q_name q = Some (test_run l)"
proof -
  have "filter (\<lambda>l. Some (test_run l) = q_name q) (jobs_get_queryset q db) = [l]"
    using assms by (auto simp: jobs_get_object_def split: list.splits)
  then have "l \<in> set (filter (\<lambda>l. Some (test_run l) = q_name q) (jobs_get_queryset q db))" by simp
  then show "l \<in> set (jobs_get_queryset q db)" "q_name q = Some (test_run l)" by simp_all
qed

text \<open>A write that succeeds: which row it was, and the database after it.\<close>

lemma put_job_result:
  assumes fsm: "fsm_lists e" "fsm_moves e" and wf: "wf_db db" and res: "put_job e q d db = (Inr l', db')"
  obtains l where "jobs_get_object q db = (Inr l, db)" "l \<in> set (tbl_run_location db)"
    "l \<in> set (jobs_get_queryset q db)" "q_name q = Some (test_run l)"
    "l' = assign_data d l" "status l' = status l \<or> status_edge (status l) (status l')"
    "db' = after_save (now e) l' db" "save_run_location_row e l' db = (Inr l', put_run_location l' db)"
    "wf_db db'"
proof (rule put_job_cases [OF fsm wf, of q d])
  fix l
  assume obj: "jobs_get_object q db = (Inr l, db)" and l: "l \<in> set (tbl_run_location db)"
    and edge: "status (assign_data d l) = status l \<or> status_edge (status l) (status (assign_data d l))"
    and eq: "put_job e q d db = save_run_location e (assign_data d l) db"
  obtain k where "pk l = Some k" using wf_location_refs(3) [OF wf l] by auto
  then have k: "pk (assign_data d l) = Some k" by simp
  from eq res have save: "save_run_location e (assign_data d l) db = (Inr l', db')" by simp
  then obtain s where row: "save_run_location_row e (assign_data d l) db = (Inr l', s)"
    and db': "db' = after_save (now e) l' db"
    by (auto simp: save_run_location_eq [OF wf] split: prod.splits sum.splits)
  note facts = save_row_result [OF wf row]
  from facts(4) k have l': "l' = assign_data d l" by simp
  note found = jobs_get_object_found [OF obj]
  have "wf_db db'" unfolding db' by (rule wf_after_save [OF wf row])
  with obj l l' edge db' row facts(1) show ?thesis
    by (intro that [of l]) (simp_all add: found)
qed (use res in simp_all)

lemma run_is_draft_eq:
  "run_is_draft db l \<longleftrightarrow> (test_run l, True) \<in> (\<lambda>r. (name r, draft r)) ` set (tbl_test_run db)"
  by (simp add: run_is_draft_def list_ex_iff image_iff) metis

text \<open>The visible rows depend on the draft flags only, which a write does not touch.\<close>

lemma run_after_draft [simp]: "name (run_after t l s r) = name r" "draft (run_after t l s r) = draft r"
  by (simp_all add: run_after_def)

lemma run_is_draft_after_save: "run_is_draft (after_save t l db) x = run_is_draft db x"
  by (simp add: run_is_draft_eq after_save_runs image_image)

text \<open>Which writes succeed, when the location is not moved.\<close>

lemma put_job_accepts_all:
  assumes "fsm_lists e" and "fsm_moves e" and "wf_db db" and "jobs_get_object q db = (Inr l, db)"
    and "d_location d = None"
  shows "put_job e q d db =
    (case d_status d of
       Some s \<Rightarrow> if s = status l \<or> status_edge (status l) s
                then (Inr (assign_data d l), after_save (now e) (assign_data d l) db)
                else (Inl (ValidationError (invalid_status_message (status l) s)), db)
     | None \<Rightarrow> (Inr (assign_data d l), after_save (now e) (assign_data d l) db))"
proof -
  have l: "l \<in> set (tbl_run_location db)"
    using jobs_get_object_found(1) [OF assms(4)] by (simp add: jobs_get_queryset_iff)
  have "stored_at db (assign_data d l)" using l assms(5) by (auto simp: stored_at_def placed_def)
  then have "update_job e l d db = (Inr (assign_data d l), after_save (now e) (assign_data d l) db)"
    using update_job_eq [OF assms(1,2,3) l] save_stored_location [OF assms(3)] by simp
  with assms(4) show ?thesis
    by (simp add: put_job_def bindp_def of_result_def validate_data_def validate_status_iff [OF assms(1)]
        split: option.split)
qed

text \<open>A row is known by its key and by its run and location.\<close>

lemma row_identity:
  assumes wf: "wf_db db" and "x \<in> set (tbl_run_location db)" and "y \<in> set (tbl_run_location db)"
  shows "pk x = pk y \<longleftrightarrow> x = y" "test_run x = test_run y \<and> location x = location y \<longleftrightarrow> x = y"
proof -
  show "pk x = pk y \<longleftrightarrow> x = y" using keyed_rows_same [OF wf_rows(4) [OF wf] assms(2,3)] by auto
  have "inj_on placed (set (tbl_run_location db))" using wf by (simp add: wf_db_def distinct_map)
  then have "placed x = placed y \<longleftrightarrow> x = y" using assms(2,3) by (auto dest: inj_onD)
  then show "test_run x = test_run y \<and> location x = location y \<longleftrightarrow> x = y" by (simp add: placed_def)
qed

section \<open>Writing twice\<close>

text \<open>
  A request sent again after it succeeded finds its row with the values it asks for, so
  the second write changes nothing.
\<close>

lemma upsert_same: "distinct (map key rows) \<Longrightarrow> r \<in> set rows \<Longrightarrow> upsert key r rows = rows"
  by (auto simp: upsert_def list_ex_key distinct_map intro!: map_idI dest: inj_onD)

lemma auto_cancel_fixed:
  "status l \<in> {FAILED, COMPLETED} \<or> test_run l \<noteq> n \<or> (status l = CANCELED \<and> status_description l = m) \<Longrightarrow>
     auto_cancel n m l = l"
  by (auto simp: auto_cancel_def)

lemma auto_cancel_again: "auto_cancel n m (auto_cancel n m l) = auto_cancel n m l"
  by (rule auto_cancel_fixed) (auto simp: auto_cancel_def)

lemma run_after_again:
  "run_after t' l s (run_after t l s r) = run_after t l s r"
  by (simp add: run_after_def start_run_def complete_run_def)

lemma after_save_again:
  assumes wf: "wf_db db" and l: "l \<in> set (tbl_run_location db)" and l': "pk l' = pk l" "test_run l' = test_run l"
  shows "after_save t' l' (after_save t l' db) = after_save t l' db"
proof (rule database.equality)
  let ?db = "after_save t l' db"
  have rows: "tbl_run_location ?db =
    map (\<lambda>x. if pk x = pk l then l'
             else if status l' = FAILED then auto_cancel (test_run l) (auto_cancel_message l') x else x)
      (tbl_run_location db)" using wf l l' by (rule after_save_stored_rows)
  have keys: "map pk (tbl_run_location ?db) = map pk (tbl_run_location db)"
    using l'(1) by (simp add: rows)
  then have "distinct (map pk (tbl_run_location ?db))"
    using wf by (simp add: wf_db_def keyed_rows_def)
  moreover have "l' \<in> set (tbl_run_location ?db)" using l by (auto simp: rows)
  ultimately have put: "tbl_run_location (put_run_location l' ?db) = tbl_run_location ?db"
    by (simp add: put_run_location_def upsert_same)
  have fixed: "auto_cancel (test_run l) (auto_cancel_message l') x = x"
    if "status l' = FAILED" "x \<in> set (tbl_run_location ?db)" for x
    using that l' by (auto simp: rows auto_cancel_again) (simp add: auto_cancel_def)
  show same: "tbl_run_location (after_save t' l' ?db) = tbl_run_location ?db"
    unfolding after_save_rows [of t' l' ?db] put using fixed l'(2) by (auto intro: map_idI)
  have "all_in s n (after_save t' l' ?db) = all_in s n ?db" for s n
    using same by (rule all_in_rows)
  then have "run_after t' l' (after_save t' l' ?db) = run_after t' l' ?db"
    by (simp add: run_after_def fun_eq_iff)
  then show "tbl_test_run (after_save t' l' ?db) = tbl_test_run ?db"
    using after_save_runs [of t' l' ?db] by (simp add: after_save_runs [of t l' db] run_after_again)
qed simp_all

lemma assign_data_again: "assign_data d (assign_data d l) = assign_data d l"
  by (simp add: assign_data_def the_default_def split: option.split)

lemma jobs_get_object_row:
  assumes wf: "wf_db db" and "l \<in> set (jobs_get_queryset q db)" and "q_name q = Some (test_run l)"
  shows "jobs_get_object q db = (Inr l, db)"
proof (rule jobs_get_object_cases [OF wf, of q])
  fix x
  assume x: "jobs_get_object q db = (Inr x, db)" "x \<in> set (jobs_get_queryset q db)" "q_name q = Some (test_run x)"
  from x assms(2,3) have "placed x = placed l" by (simp add: jobs_get_queryset_iff placed_def)
  moreover have "inj_on placed (set (tbl_run_location db))" using wf by (simp add: wf_db_def distinct_map)
  ultimately have "x = l" using x(2) assms(2) by (meson inj_onD jobs_get_queryset_iff)
  with x(1) show ?thesis by simp
qed (use assms in blast)

lemma put_job_same:
  assumes fsm: "fsm_lists e" "fsm_moves e" and wf: "wf_db db"
    and obj: "jobs_get_object q db = (Inr l, db)" and same: "assign_data d l = l"
  shows "put_job e q d db = save_run_location e l db"
proof -
  have l: "l \<in> set (tbl_run_location db)"
    using jobs_get_object_found(1) [OF obj] by (simp add: jobs_get_queryset_iff)
  have "d_status d = None \<or> d_status d = Some (status l)"
    using arg_cong [OF same, of status] by (auto simp: the_default_def split: option.splits)
  then have "validate_data e l d = Inr d"
    by (auto simp: validate_data_def validate_status_def)
  with obj same show ?thesis
    by (simp add: put_job_def bindp_def of_result_def update_job_eq [OF fsm wf l])
qed

text \<open>The row a write leaves is the one the same route finds, and writing its own values changes nothing.\<close>

lemma put_job_written:
  assumes e: "fsm_lists e" "fsm_moves e" and e': "fsm_lists e'" "fsm_moves e'"
    and wf: "wf_db db" and res: "put_job e q d db = (Inr l', db')"
    and loc: "d_location d \<in> {None, q_location q}"
  shows "wf_db db' \<and> l' \<in> set (tbl_run_location db') \<and> jobs_get_object q db' = (Inr l', db') \<and>
    assign_data d l' = l' \<and> (\<forall>d'. assign_data d' l' = l' \<longrightarrow> put_job e' q d' db' = (Inr l', db'))"
proof (rule put_job_result [OF e wf res])
  fix l
  assume l: "l \<in> set (tbl_run_location db)" "l \<in> set (jobs_get_queryset q db)" "q_name q = Some (test_run l)"
    and l': "l' = assign_data d l" and db': "db' = after_save (now e) l' db" and wf': "wf_db db'"
  have "location l' = location l"
    using l(2) loc l' by (auto simp: jobs_get_queryset_iff)
  moreover have row: "l' \<in> set (tbl_run_location db')"
    using after_save_stored_rows [OF wf l(1), of l' "now e"] l(1) l' db' by (auto intro: rev_image_eqI)
  moreover have "run_is_draft db' l' = run_is_draft db l"
    unfolding db' run_is_draft_after_save using l' by (simp add: run_is_draft_def)
  ultimately have "l' \<in> set (jobs_get_queryset q db')"
    using l l' by (simp add: jobs_get_queryset_iff)
  then have obj: "jobs_get_object q db' = (Inr l', db')"
    using l(3) l' by (intro jobs_get_object_row [OF wf']) simp_all
  have "put_job e' q d' db' = (Inr l', db')" if "assign_data d' l' = l'" for d'
  proof -
    have "put_job e' q d' db' = save_run_location e' l' db'"
      using obj that by (rule put_job_same [OF e' wf'])
    also have "\<dots> = (Inr l', after_save (now e') l' db')"
      using row by (intro save_stored_location [OF wf']) (auto simp: stored_at_def)
    also have "after_save (now e') l' db' = db'"
      unfolding db' using l(1) l' by (intro after_save_again [OF wf l(1)]) simp_all
    finally show ?thesis .
  qed
  with wf' row obj l' show ?thesis by (simp add: assign_data_again)
qed

lemma put_job_again:
  assumes "fsm_lists e" "fsm_moves e" and "fsm_lists e'" "fsm_moves e'"
    and "wf_db db" and "put_job e q d db = (Inr l', db')" and "d_location d \<in> {None, q_location q}"
  shows "put_job e' q d db' = (Inr l', db')"
  using put_job_written [OF assms] by blast

section \<open>The other requests\<close>

text \<open>The action \<open>accept\<close>: no method is called \<open>enqueue\<close>.\<close>

lemma call_enqueue: "call_method e ''enqueue'' l = raise (AttributeError ''enqueue'')"
  by (simp add: call_method_def status_transitions_def)

lemma jobs_get_object_db: "snd (jobs_get_object q db) = db"
  by (auto simp: jobs_get_object_def split: list.split)

lemma accept_job_eq:
  "accept_job e q db =
     (case jobs_get_object q db of (Inl x, _) \<Rightarrow> (Inl x, db) | (Inr l, _) \<Rightarrow> (Inl (AttributeError ''enqueue''), db))"
  using jobs_get_object_db [of q db]
  by (auto simp: accept_job_def call_enqueue bindp_def raise_def split: prod.split sum.split)

lemma accept_job_db: "snd (accept_job e q db) = db"
  by (simp add: accept_job_eq split: prod.split sum.split)

lemma ping_create_eq:
  assumes wf: "wf_db db"
  shows "ping_create e loc db =
    (case ping_get_object loc db of
       None \<Rightarrow> (Inr (Response 404), db)
     | Some l \<Rightarrow> (Inr (Response 204), put_location (l\<lparr>last_ping := Some (now e), updated_at := now e\<rparr>) db))"
    and "wf_db (snd (ping_create e loc db))"
proof -
  have in_db: "l \<in> set (tbl_location db)" if "ping_get_object loc db = Some l" for l
    using that by (auto simp: ping_get_object_def split: option.splits dest: first_row_in)
  have save: "save_location e (ping e l) db =
      (Inr (l\<lparr>last_ping := Some (now e), updated_at := now e\<rparr>),
       put_location (l\<lparr>last_ping := Some (now e), updated_at := now e\<rparr>) db) \<and>
      wf_db (put_location (l\<lparr>last_ping := Some (now e), updated_at := now e\<rparr>) db)"
    if "ping_get_object loc db = Some l" for l
    using save_stored_test_location [OF wf in_db [OF that], of "ping e l" e] by (simp add: ping_def)
  then show "ping_create e loc db =
    (case ping_get_object loc db of
       None \<Rightarrow> (Inr (Response 404), db)
     | Some l \<Rightarrow> (Inr (Response 204), put_location (l\<lparr>last_ping := Some (now e), updated_at := now e\<rparr>) db))"
    by (simp add: ping_create_def bindp_def reads_def ret_def split: option.split)
  with save wf show "wf_db (snd (ping_create e loc db))" by (simp split: option.split)
qed

lemma first_row_unique:
  assumes "named_rows rows" and "l \<in> set rows"
  shows "first_row (filter (\<lambda>x. name x = name l) rows) = Some l"
proof -
  have "distinct rows" using assms(1) by (simp add: named_rows_def distinct_map)
  then have "distinct (filter (\<lambda>x. name x = name l) rows)" by simp
  moreover have "x = y" if "x \<in> set (filter (\<lambda>x. name x = name l) rows)"
    "y \<in> set (filter (\<lambda>x. name x = name l) rows)" for x y
    using that named_rows_same [OF assms(1), of x y] by simp
  ultimately have "filter (\<lambda>x. name x = name l) rows = [] \<or> (\<exists>x. filter (\<lambda>x. name x = name l) rows = [x])"
    by (rule distinct_at_most_one)
  moreover have mem: "l \<in> set (filter (\<lambda>x. name x = name l) rows)" using assms(2) by simp
  ultimately have "filter (\<lambda>x. name x = name l) rows = [l]"
    by (metis empty_iff list.set(1) set_ConsD)
  then show ?thesis by (simp add: first_row_def)
qed

text \<open>Reading a job: nothing is written, and only the URL can fail.\<close>

lemma job_repr_eq:
  assumes wf: "wf_db db" and l: "l \<in> set (tbl_run_location db)"
  obtains r out where "find_run (test_run l) db = Some r" "name r = test_run l"
    "by_key name (test_output r) (tbl_output db) = Some out"
    "job_repr reverse_job l db =
      (case reverse_job (location l) (test_run l) of Inl x \<Rightarrow> (Inl x, db)
       | Inr url \<Rightarrow> (Inr
         \<lparr>j_name = test_run l, j_url = url, j_test_run = test_run_repr db r, j_output_config = output_repr out,
          j_assigned_segments = pieces db l, j_location = location l, j_num_workers = num_workers l,
          j_online_workers = online_workers l, j_status = status l,
          j_status_description = status_description l\<rparr>, db))"
proof -
  obtain r where r: "r \<in> set (tbl_test_run db)" "name r = test_run l" "get_run (test_run l) db = (Inr r, db)"
    using get_run_stored [OF wf wf_location_refs(1) [OF wf l]] by blast
  have f: "find_run (test_run l) db = Some r" using find_run_name [OF wf r(1)] r(2) by simp
  have "has_name (test_output r) (tbl_output db)" using wf r(1) by (rule wf_run_output)
  then obtain out where out: "by_key name (test_output r) (tbl_output db) = Some out"
    by (metis by_key_None has_name_iff option.exhaust)
  have "\<exists>ss. assigned_segments db l = Inr ss"
    using wf_location_refs(3) [OF wf l] by (auto simp: assigned_segments_def Let_def)
  then have "assigned_segments db l = Inr (pieces db l)" by (auto simp: pieces_def)
  with r(2,3) f out show ?thesis
    by (intro that [of r out])
      (auto simp: job_repr_def bindp_def reads_def ret_def of_result_def split: sum.split)
qed

text \<open>A concrete request and its data, for the examples.\<close>

definition sample_request :: "string \<Rightarrow> job_request" where
  "sample_request loc = \<lparr>q_all = False, q_location = Some loc, q_name = Some ''shop-a1''\<rparr>"

definition sample_data :: "status \<Rightarrow> job_data" where
  "sample_data s =
     \<lparr>d_location = None, d_num_workers = None, d_online_workers = Some 2, d_status = Some s,
      d_status_description = None\<rparr>"

section \<open>Properties of the worker API\<close>

lemma find_run_map:
  "(\<And>r. name (f r) = name r) \<Longrightarrow> by_key name n (map f rows) = map_option f (by_key name n rows)"
  by (induction rows) (simp_all add: by_key_def)

text \<open>
  A write that returns changes exactly the row of its route: that row gets the values of
  the request, its status stays or moves along one edge of the transition table; every other
  location stays as it is, but for the ones the receiver cancels when the new status is a
  failure. No other table than the runs changes.
\<close>

theorem put_job_effect:
  assumes "fsm_lists e" and "fsm_moves e" and "wf_db db" and "put_job e q d db = (Inr l', db')"
  shows "\<exists>l \<in> set (tbl_run_location db).
    q_name q = Some (test_run l) \<and> q_location q = Some (location l) \<and> l' = assign_data d l \<and>
    (status l' = status l \<or> status_edge (status l) (status l')) \<and>
    tbl_run_location db' =
      map (\<lambda>x. if pk x = pk l then l'
               else if status l' = FAILED then auto_cancel (test_run l) (auto_cancel_message l') x else x)
        (tbl_run_location db) \<and>
    tbl_location db' = tbl_location db \<and> tbl_output db' = tbl_output db \<and>
    tbl_label db' = tbl_label db \<and> tbl_env_var db' = tbl_env_var db"
proof (rule put_job_result [OF assms])
  fix l
  assume l: "l \<in> set (tbl_run_location db)" "l \<in> set (jobs_get_queryset q db)" "q_name q = Some (test_run l)"
    and l': "l' = assign_data d l" "status l' = status l \<or> status_edge (status l) (status l')"
    and db': "db' = after_save (now e) l' db"
  have "tbl_run_location db' =
      map (\<lambda>x. if pk x = pk l then l'
               else if status l' = FAILED then auto_cancel (test_run l) (auto_cancel_message l') x else x)
        (tbl_run_location db)"
    unfolding db' using l' by (intro after_save_stored_rows [OF assms(3) l(1)]) simp_all
  moreover have "q_location q = Some (location l)" using l(2) by (simp add: jobs_get_queryset_iff)
  ultimately show ?thesis using l l' db' by (intro bexI [of _ l]) simp_all
qed

theorem put_job_effect_witness:
  "\<exists>l \<in> set (tbl_run_location (sample_db False RUNNING READY)). location l = ''eu'' \<and>
    status_edge (status l) FAILED"
proof -
  let ?e = "sample_env 5000000" and ?db = "sample_db False RUNNING READY"
  let ?q = "sample_request ''eu''" and ?d = "sample_data FAILED"
  let ?l = "(sample_row 4 ''eu'' 2 FAILED)\<lparr>online_workers := 2\<rparr>"
  have res: "put_job ?e ?q ?d ?db = (Inr ?l, snd (put_job ?e ?q ?d ?db))"
    by code_simp
  have st: "status ?l = FAILED" and q: "q_location ?q = Some ''eu''"
    by (simp_all add: sample_defs sample_request_def)
  from put_job_effect [OF sample_env_laws(2,3) sample_db_wf res] obtain l where
    "l \<in> set (tbl_run_location ?db)" "q_location ?q = Some (location l)"
    "status ?l = status l \<or> status_edge (status l) (status ?l)"
    by blast
  with st q show ?thesis by auto
qed



text \<open>
  The start of a run: after a write that leaves its location ready, the run has the start
  time it had before, or, without one, the time of the request plus 30 seconds in whole
  seconds if all its locations are now ready, and none otherwise. Its end is not touched.
\<close>

theorem put_ready_starts:
  assumes "fsm_lists e" and "fsm_moves e" and "wf_db db" and "put_job e q d db = (Inr l', db')"
    and "status l' = READY" and "find_run (test_run l') db = Some r"
  shows "\<exists>r'. find_run (test_run l') db' = Some r' \<and> completed_at r' = completed_at r \<and>
    started_at r' =
      (if started_at r = None \<and> (\<forall>x \<in> set (locations_of (test_run l') db'). status x = READY)
       then Some (floor_second (now e + seconds 30)) else started_at r)"
proof (rule put_job_result [OF assms(1-4)])
  assume db': "db' = after_save (now e) l' db"
  have "find_run (test_run l') db' = Some (run_after (now e) l' db' r)"
    using assms(6) unfolding find_run_def db' after_save_runs by (simp add: find_run_map)
  moreover have "name r = test_run l'" using find_run_row [OF assms(6)] by simp
  ultimately show ?thesis
    using assms(5) by (simp add: run_after_def all_in_def start_run_def start_delay_seconds_def)
qed

theorem put_ready_starts_witness:
  "\<exists>r'. find_run ''shop-a1'' (snd (put_job (sample_env 1234567) (sample_request ''eu'') (sample_data READY)
      (sample_db False QUEUED READY))) = Some r' \<and> started_at r' = Some 31000000"
proof -
  let ?e = "sample_env 1234567" and ?q = "sample_request ''eu''" and ?d = "sample_data READY"
    and ?db = "sample_db False QUEUED READY"
  let ?l = "(sample_row 4 ''eu'' 2 READY)\<lparr>online_workers := 2\<rparr>"
  have res: "put_job ?e ?q ?d ?db = (Inr ?l, snd (put_job ?e ?q ?d ?db))"
    by code_simp
  have run: "find_run (test_run ?l) ?db = Some (sample_run False)" by code_simp
  have all: "\<forall>x \<in> set (locations_of (test_run ?l) (snd (put_job ?e ?q ?d ?db))). status x = READY" by code_simp
  have facts: "test_run ?l = ''shop-a1''" "status ?l = READY" "started_at (sample_run False) = None"
    "floor_second (now ?e + seconds 30) = 31000000"
    by (simp_all add: sample_row_def new_test_run_location_def sample_run_def new_test_run_def sample_env_def clock_defs)
  from put_ready_starts [OF sample_env_laws(2,3) sample_db_wf res facts(2) run] all show ?thesis
    unfolding facts by auto
qed

text \<open>
  The end of a run: after a write that leaves its location completed, a run without an end
  gets the time of the request in whole seconds if all its locations are now completed, and
  keeps what it had otherwise; writes of any other status than ready and completed leave
  all runs as they are.
\<close>

theorem put_completed_ends:
  assumes "fsm_lists e" and "fsm_moves e" and "wf_db db" and "put_job e q d db = (Inr l', db')"
    and "find_run (test_run l') db = Some r"
  shows "(status l' = COMPLETED \<longrightarrow>
      (\<exists>r'. find_run (test_run l') db' = Some r' \<and> started_at r' = started_at r \<and>
        completed_at r' =
          (if completed_at r = None \<and> (\<forall>x \<in> set (locations_of (test_run l') db'). status x = COMPLETED)
           then Some (floor_second (now e)) else completed_at r))) \<and>
    (status l' \<notin> {READY, COMPLETED} \<longrightarrow> tbl_test_run db' = tbl_test_run db)"
proof (rule put_job_result [OF assms(1-4)])
  assume db': "db' = after_save (now e) l' db"
  have "find_run (test_run l') db' = Some (run_after (now e) l' db' r)"
    using assms(5) unfolding find_run_def db' after_save_runs by (simp add: find_run_map)
  moreover have "name r = test_run l'" using find_run_row [OF assms(5)] by simp
  moreover have "tbl_test_run db' = map (run_after (now e) l' db') (tbl_test_run db)"
    unfolding db' by (rule after_save_runs)
  ultimately show ?thesis
    by (auto simp: run_after_def all_in_def complete_run_def intro!: map_idI)
qed

theorem put_completed_ends_witness:
  "\<exists>r'. find_run ''shop-a1'' (snd (put_job (sample_env 9999999) (sample_request ''us'') (sample_data COMPLETED)
      (sample_db False COMPLETED RUNNING))) = Some r' \<and> completed_at r' = Some 9000000"
proof -
  let ?e = "sample_env 9999999" and ?q = "sample_request ''us''" and ?d = "sample_data COMPLETED"
    and ?db = "sample_db False COMPLETED RUNNING"
  let ?l = "(sample_row 5 ''us'' 3 COMPLETED)\<lparr>online_workers := 2\<rparr>"
  have res: "put_job ?e ?q ?d ?db = (Inr ?l, snd (put_job ?e ?q ?d ?db))"
    by code_simp
  have run: "find_run (test_run ?l) ?db = Some (sample_run False)" by code_simp
  have all: "\<forall>x \<in> set (locations_of (test_run ?l) (snd (put_job ?e ?q ?d ?db))). status x = COMPLETED" by code_simp
  have facts: "test_run ?l = ''shop-a1''" "status ?l = COMPLETED" "completed_at (sample_run False) = None"
    "floor_second (now ?e) = 9000000"
    by (simp_all add: sample_row_def new_test_run_location_def sample_run_def new_test_run_def sample_env_def clock_defs)
  from put_completed_ends [OF sample_env_laws(2,3) sample_db_wf res run] all show ?thesis
    unfolding facts by auto
qed

text \<open>
  Failing fast: after a write that reports a failure every location of the run has ended,
  and the ones that were neither failed nor completed are now canceled with a description
  that names the failing location.
\<close>

theorem put_failed_ends_run:
  assumes "fsm_lists e" and "fsm_moves e" and "wf_db db" and "put_job e q d db = (Inr l', db')"
    and "status l' = FAILED"
  shows "(\<forall>x \<in> set (locations_of (test_run l') db'). ended (status x)) \<and>
    (\<forall>x \<in> set (locations_of (test_run l') db). pk x \<noteq> pk l' \<longrightarrow>
      (if status x \<in> {FAILED, COMPLETED} then x
       else x\<lparr>status := CANCELED,
              status_description := ''Canceled automatically: Job was failing in '' @ location l' @ ''.''\<rparr>)
        \<in> set (tbl_run_location db'))"
proof (rule put_job_result [OF assms(1-4)])
  fix l
  assume l: "l \<in> set (tbl_run_location db)" and l': "l' = assign_data d l" and db': "db' = after_save (now e) l' db"
  have rows: "tbl_run_location db' =
      map (\<lambda>x. if pk x = pk l then l' else auto_cancel (test_run l) (auto_cancel_message l') x) (tbl_run_location db)"
    using after_save_stored_rows [OF assms(3) l, of l' "now e"] l' assms(5) by (simp add: db')
  have same: "pk l' = pk l" "test_run l' = test_run l" using l' by simp_all
  let ?c = "auto_cancel (test_run l) (auto_cancel_message l')"
  have 1: "ended (status (?c x))" if "test_run x = test_run l" for x
    using that by (simp add: auto_cancel_def ended_def)
  have 2: "?c x \<in> set (tbl_run_location db')"
    if "x \<in> set (tbl_run_location db)" "pk x \<noteq> pk l" for x
    using that unfolding rows by (auto intro: rev_image_eqI)
  have "ended (status x)" if "x \<in> set (locations_of (test_run l') db')" for x
  proof -
    from that have x: "x \<in> set (tbl_run_location db')" "test_run x = test_run l"
      using same by (simp_all add: locations_of_def)
    from x(1) obtain y where "x = l' \<or> x = ?c y" unfolding rows by (auto split: if_splits)
    then show ?thesis using 1 [of y] x(2) assms(5) by (auto simp: ended_def)
  qed
  moreover have "(if status x \<in> {FAILED, COMPLETED} then x
      else x\<lparr>status := CANCELED,
             status_description := ''Canceled automatically: Job was failing in '' @ location l' @ ''.''\<rparr>) = ?c x"
    if "test_run x = test_run l" for x
    using that by (simp add: auto_cancel_def auto_cancel_message_def)
  ultimately show ?thesis
    using 2 same by (simp add: locations_of_def)
qed

theorem put_failed_ends_run_witness:
  "\<exists>x. locations_of ''shop-a1'' (snd (put_job (sample_env 0) (sample_request ''eu'') (sample_data FAILED)
      (sample_db False RUNNING READY))) = [(sample_row 4 ''eu'' 2 FAILED)\<lparr>online_workers := 2\<rparr>, x] \<and> ended (status x)"
proof -
  let ?l = "(sample_row 4 ''eu'' 2 FAILED)\<lparr>online_workers := 2\<rparr>"
  let ?res = "put_job (sample_env 0) (sample_request ''eu'') (sample_data FAILED) (sample_db False RUNNING READY)"
  have res: "?res = (Inr ?l, snd ?res)" by code_simp
  have st: "status ?l = FAILED" and run: "test_run ?l = ''shop-a1''" by (simp_all add: sample_defs)
  have rows: "locations_of ''shop-a1'' (snd ?res) = [?l, (sample_row 5 ''us'' 3 CANCELED)
      \<lparr>status_description := ''Canceled automatically: Job was failing in eu.''\<rparr>]"
    by code_simp
  have "\<forall>x \<in> set (locations_of ''shop-a1'' (snd ?res)). ended (status x)"
    using put_failed_ends_run [OF sample_env_laws(2,3) sample_db_wf res st] unfolding run by blast
  then show ?thesis unfolding rows by simp
qed



text \<open>
  The action \<open>accept\<close> never succeeds: without a visible row it is answered with 404, and
  with one it raises an \<open>AttributeError\<close>, because the row has no method \<open>enqueue\<close>; either
  way nothing is written.
\<close>

theorem accept_never_succeeds:
  "\<exists>x. accept_job e q db = (Inl x, db) \<and>
     (\<forall>l. jobs_get_object q db = (Inr l, db) \<longrightarrow> x = AttributeError ''enqueue'')"
  using jobs_get_object_db [of q db]
  by (cases "jobs_get_object q db"; cases "fst (jobs_get_object q db)") (auto simp: accept_job_eq)

theorem accept_never_succeeds_witness:
  "fst (accept_job (sample_env 0) (sample_request ''eu'') (sample_db False PENDING PENDING)) =
     Inl (AttributeError ''enqueue'')"
proof -
  have "jobs_get_object (sample_request ''eu'') (sample_db False PENDING PENDING) =
      (Inr (sample_row 4 ''eu'' 2 PENDING), sample_db False PENDING PENDING)"
    by code_simp
  with accept_never_succeeds [of "sample_env 0" "sample_request ''eu''" "sample_db False PENDING PENDING"]
  show ?thesis by auto
qed

text \<open>
  A draft is invisible to workers: without the parameter \<open>all\<close> the list of jobs has only
  locations of started runs, and reading or writing a job of a draft is answered with 404 and
  changes nothing.
\<close>

theorem drafts_hidden:
  assumes "wf_db db" and "\<not> q_all q"
  shows "(\<forall>l \<in> set (jobs_get_queryset q db). \<exists>r. find_run (test_run l) db = Some r \<and> \<not> draft r) \<and>
    (\<forall>r \<in> set (tbl_test_run db). draft r \<and> q_name q = Some (name r) \<longrightarrow>
       put_job e q d db = (Inl Http404, db) \<and> retrieve_job rev_url q db = (Inl Http404, db))"
proof (intro conjI ballI impI)
  fix l
  assume "l \<in> set (jobs_get_queryset q db)"
  then have l: "l \<in> set (tbl_run_location db)" "\<not> run_is_draft db l"
    using assms(2) by (simp_all add: jobs_get_queryset_iff)
  obtain r where "find_run (test_run l) db = Some r"
    using wf_location_refs(1) [OF assms(1) l(1)] by (auto simp: find_run_exists)
  with find_run_row [OF this] l(2) show "\<exists>r. find_run (test_run l) db = Some r \<and> \<not> draft r"
    by (auto simp: run_is_draft_def list_ex_iff)
next
  fix r
  assume r: "r \<in> set (tbl_test_run db)" and d: "draft r \<and> q_name q = Some (name r)"
  have "jobs_get_queryset q db = []"
    using r d assms(2) wf_run_named [OF assms(1) r]
    by (auto simp: jobs_get_queryset_def Let_def run_is_draft_def list_ex_iff filter_empty_conv split: option.split)
  then have none: "jobs_get_object q db = (Inl Http404, db)" by (simp add: jobs_get_object_def)
  then show "put_job e q d db = (Inl Http404, db)" by (simp add: put_job_def bindp_def)
  from none show "retrieve_job rev_url q db = (Inl Http404, db)" by (simp add: retrieve_job_def bindp_def)
qed

theorem drafts_hidden_witness:
  "put_job (sample_env 0) (sample_request ''eu'') (sample_data QUEUED) (sample_db True PENDING PENDING) =
     (Inl Http404, sample_db True PENDING PENDING)"
proof -
  have "\<not> q_all (sample_request ''eu'')" by (simp add: sample_request_def)
  moreover have "sample_run True \<in> set (tbl_test_run (sample_db True PENDING PENDING))"
    "draft (sample_run True)" "q_name (sample_request ''eu'') = Some (name (sample_run True))"
    by (simp_all add: sample_db_def sample_run_def new_test_run_def sample_request_def)
  ultimately show ?thesis using drafts_hidden [OF sample_db_wf] by blast
qed

text \<open>
  Checking in: a ping of a known location is answered with 204, touches no other table, and
  from then on, until the next one, the location counts as online exactly while less than five minutes have
  passed; a ping of an unknown one is answered with 404 and changes nothing.
\<close>

theorem ping_marks_online:
  assumes "wf_db db"
  shows "(\<forall>l \<in> set (tbl_location db). \<exists>l' db'.
      ping_create e (Some (name l)) db = (Inr (Response 204), db') \<and> wf_db db' \<and>
      l' \<in> set (tbl_location db') \<and> name l' = name l \<and> tbl_run_location db' = tbl_run_location db \<and>
      tbl_test_run db' = tbl_test_run db \<and> (\<forall>e'. staus e' l' = Some (now e' < now e + minutes 5))) \<and>
    (\<forall>n. n \<notin> name ` set (tbl_location db) \<longrightarrow> ping_create e (Some n) db = (Inr (Response 404), db))"
proof (intro conjI ballI allI impI)
  fix l
  assume l: "l \<in> set (tbl_location db)"
  let ?l' = "l\<lparr>last_ping := Some (now e), updated_at := now e\<rparr>"
  have "ping_get_object (Some (name l)) db = Some l"
    using first_row_unique [OF wf_rows(1) [OF assms] l] by (simp add: ping_get_object_def)
  then have res: "ping_create e (Some (name l)) db = (Inr (Response 204), put_location ?l' db)"
    by (simp add: ping_create_eq(1) [OF assms])
  have "wf_db (put_location ?l' db)" using ping_create_eq(2) [OF assms, of e "Some (name l)"] res by simp
  moreover have "?l' \<in> set (tbl_location (put_location ?l' db))" by (simp add: put_location_def set_upsert)
  moreover have "staus e' ?l' = Some (now e' < now e + minutes 5)" for e'
    by (simp add: staus_def) linarith
  ultimately show "\<exists>l' db'. ping_create e (Some (name l)) db = (Inr (Response 204), db') \<and> wf_db db' \<and>
      l' \<in> set (tbl_location db') \<and> name l' = name l \<and> tbl_run_location db' = tbl_run_location db \<and>
      tbl_test_run db' = tbl_test_run db \<and> (\<forall>e'. staus e' l' = Some (now e' < now e + minutes 5))"
    using res by (intro exI [of _ ?l'] exI [of _ "put_location ?l' db"]) (simp add: put_location_def)
next
  fix n
  assume "n \<notin> name ` set (tbl_location db)"
  then have none: "filter (\<lambda>l. name l = n) (tbl_location db) = []" by (auto simp: filter_empty_conv)
  have "ping_get_object (Some n) db = None" by (simp add: ping_get_object_def none first_row_def)
  then show "ping_create e (Some n) db = (Inr (Response 404), db)"
    by (simp add: ping_create_eq(1) [OF assms])
qed

theorem ping_marks_online_witness:
  "ping_create (sample_env 0) (Some ''mars'') (sample_db False PENDING PENDING) =
     (Inr (Response 404), sample_db False PENDING PENDING)"
  using ping_marks_online [OF sample_db_wf, of False PENDING PENDING "sample_env 0"]
  by (simp add: sample_db_def sample_location_def)

text \<open>
  Reading a job: it can only fail because the URL of the job does not resolve, it writes
  nothing, and the answer is consistent: the i-th segment of the location runs from one
  boundary of the run's segment sequence to the next, starting after the workers of the
  locations with smaller keys, one segment per worker.
\<close>

theorem retrieve_job_segments:
  assumes "wf_db db" and "jobs_get_object q db = (Inr l, db)" and "reverse_job (location l) (test_run l) = Inr url"
    and "find_run (test_run l) db = Some r" and "pk_true (pk r)" and "0 < total_workers (test_run l) db"
  shows "\<exists>j. retrieve_job reverse_job q db = (Inr j, db) \<and> j_url j = url \<and> j_status j = status l \<and>
    length (rj_segments (j_test_run j)) = total_workers (test_run l) db + 1 \<and>
    length (j_assigned_segments j) = num_workers l \<and>
    (\<forall>i < num_workers l.
       seg_segment (j_assigned_segments j ! i) =
         rj_segments (j_test_run j) ! (offset db l + i) @ '':'' @ rj_segments (j_test_run j) ! (offset db l + i + 1))"
proof -
  have l: "l \<in> set (tbl_run_location db)"
    using jobs_get_object_found(1) [OF assms(2)] by (simp add: jobs_get_queryset_iff)
  have key: "keyed_rows (tbl_run_location db)" using assms(1) by (rule wf_rows(4))
  have nr: "name r = test_run l" using find_run_row [OF assms(4)] by simp
  have pl: "pieces db l = map (piece (total_workers (test_run l) db)) (block (offset db l) (num_workers l))"
    using wf_location_refs(3) [OF assms(1) l] by (rule pieces_block)
  have bound: "offset db l + num_workers l \<le> total_workers (test_run l) db"
    using key l by (rule offset_bound)
  have seg: "segments db r ! i = get_segment_part i (total_workers (test_run l) db)"
    if "i \<le> total_workers (test_run l) db" for i
    using segments_nth [OF assms(5), of db i] that assms(6) nr by simp
  have "seg_segment (pieces db l ! i) = segments db r ! (offset db l + i) @ '':'' @ segments db r ! (offset db l + i + 1)"
    if "i < num_workers l" for i
  proof -
    have "pieces db l ! i = piece (total_workers (test_run l) db) (offset db l + i + 1)"
      using that by (simp add: pl block_def del: upt_Suc)
    then show ?thesis
      using that bound seg [of "offset db l + i"] seg [of "offset db l + i + 1"] by (simp add: piece_def)
  qed
  moreover have "length (segments db r) = total_workers (test_run l) db + 1"
    using length_segments [OF assms(5), of db] assms(6) nr by simp
  moreover have "length (pieces db l) = num_workers l" by (simp add: pl block_def)
  moreover have "\<exists>j. retrieve_job reverse_job q db = (Inr j, db) \<and> j_url j = url \<and> j_status j = status l \<and>
      rj_segments (j_test_run j) = segments db r \<and> j_assigned_segments j = pieces db l"
  proof (rule job_repr_eq [OF assms(1) l, of reverse_job])
    fix r' out
    assume "find_run (test_run l) db = Some r'"
      and eq: "job_repr reverse_job l db =
        (case reverse_job (location l) (test_run l) of Inl x \<Rightarrow> (Inl x, db)
         | Inr url \<Rightarrow> (Inr
           \<lparr>j_name = test_run l, j_url = url, j_test_run = test_run_repr db r', j_output_config = output_repr out,
            j_assigned_segments = pieces db l, j_location = location l, j_num_workers = num_workers l,
            j_online_workers = online_workers l, j_status = status l,
            j_status_description = status_description l\<rparr>, db))"
    with assms(4) have "r' = r" by simp
    with eq assms(2,3) show ?thesis
      by (simp add: retrieve_job_def bindp_def test_run_repr_def)
  qed
  ultimately show ?thesis by force
qed

theorem retrieve_job_segments_witness:
  "\<exists>j. retrieve_job (\<lambda>loc n. Inr (''/'' @ loc @ ''/'' @ n)) (sample_request ''us'') (sample_db False READY READY) =
      (Inr j, sample_db False READY READY) \<and> j_url j = ''/us/shop-a1'' \<and>
    length (rj_segments (j_test_run j)) = 6 \<and> length (j_assigned_segments j) = 3"
proof -
  let ?l = "sample_row 5 ''us'' 3 READY" and ?db = "sample_db False READY READY"
  have obj: "jobs_get_object (sample_request ''us'') ?db = (Inr ?l, ?db)" by code_simp
  have url: "Inr (''/'' @ location ?l @ ''/'' @ test_run ?l) = (Inr ''/us/shop-a1'' :: exn + string)"
    by (simp add: sample_defs)
  have run: "find_run (test_run ?l) ?db = Some (sample_run False)" "pk_true (pk (sample_run False))" by code_simp+
  have workers: "total_workers (test_run ?l) ?db = 5" "num_workers ?l = 3" by code_simp+
  show ?thesis
    using retrieve_job_segments [where reverse_job = "\<lambda>loc n. Inr (''/'' @ loc @ ''/'' @ n)",
        OF sample_db_wf obj url run] unfolding workers by auto
qed

lemma map_prog_state: "(\<And>x s. snd (f x s) = s) \<Longrightarrow> snd (map_prog f xs s) = s"
proof (induction xs arbitrary: s)
  case (Cons x xs)
  obtain res where res: "f x s = (res, s)" using Cons.prems [of x s] by (metis prod.collapse)
  have "snd (map_prog f xs s) = s" using Cons by blast
  with res show ?case
    by (cases res; cases "map_prog f xs s"; cases "fst (map_prog f xs s)") (auto simp: bindp_def ret_def)
qed (simp add: ret_def)

lemma job_repr_state: "snd (job_repr reverse_job l db) = db"
  by (auto simp: job_repr_def get_run_def bindp_def reads_def of_result_def ret_def raise_def
      split: prod.split sum.split option.split)

text \<open>
  Reading writes nothing: whatever the request, listing the jobs of a location and reading
  one job leave the database as it is, whether they are answered or fail.
\<close>

theorem reading_writes_nothing:
  "snd (list_jobs reverse_job q db) = db \<and> snd (retrieve_job reverse_job q db) = db"
proof -
  have 1: "snd (list_jobs reverse_job q db) = db"
    using map_prog_state [of "job_repr reverse_job" "jobs_get_queryset q db" db] job_repr_state
    by (auto simp: list_jobs_def bindp_def reads_def)
  have "snd (retrieve_job reverse_job q db) = db"
    using jobs_get_object_db [of q db] job_repr_state [of reverse_job _ db]
    by (auto simp: retrieve_job_def bindp_def split: prod.split sum.split)
  with 1 show ?thesis by simp
qed

text \<open>The fields of a job that can be written, as they were read.\<close>

definition write_back :: "job_json \<Rightarrow> job_data" where
  "write_back j =
     \<lparr>d_location = Some (j_location j), d_num_workers = Some (j_num_workers j),
      d_online_workers = Some (j_online_workers j), d_status = Some (j_status j),
      d_status_description = Some (j_status_description j)\<rparr>"



end
