(* ===== verification/GoApi.thy ===== *)
theory GoApi
  imports Views "HOL-Library.Word"
begin

text \<open>
  The operator's side of the worker API (src/k6-operator/internal/loadtesting/api/types.go and
  client/): the Go structures a job is decoded into, with their own decoder of the node
  selector, the errors of the client, and what the client sends back. An \<open>int32\<close> is a
  \<open>32 word\<close>, a Go map a partial function, a pointer that may be nil an option. The fields
  \<open>created_at\<close> and \<open>updated_at\<close> of a run, texts nothing reads, are left out.
\<close>

section \<open>Texts\<close>

text \<open>\<open>strings.Split\<close> at a single character, \<open>strings.Trim\<close> of blanks.\<close>

fun go_split :: "char \<Rightarrow> string \<Rightarrow> string list" where
  "go_split c [] = [[]]"
| "go_split c (x # xs) =
     (if x = c then [] # go_split c xs
      else case go_split c xs of [] \<Rightarrow> [[x]] | y # ys \<Rightarrow> (x # y) # ys)"

definition go_trim :: "string \<Rightarrow> string" where
  "go_trim s = rev (dropWhile (\<lambda>c. c = CHR '' '') (rev (dropWhile (\<lambda>c. c = CHR '' '') s)))"

section \<open>Errors\<close>

text \<open>
  \<open>StatusError\<close> is the error of the client for an answer of the web application that is not
  a success; the errors of the Kubernetes client are told apart as the operator does
  (\<open>apierrors.IsNotFound\<close>, \<open>IsAlreadyExists\<close>) and carry their text.
\<close>

datatype go_error =
    StatusError nat
  | KubeNotFound string
  | KubeAlreadyExists string
  | GoError string

fun error_text :: "go_error \<Rightarrow> string" where
  "error_text (StatusError code) = ''unexpected status code: '' @ str_nat code"
| "error_text (KubeNotFound m) = m"
| "error_text (KubeAlreadyExists m) = m"
| "error_text (GoError m) = m"

fun api_is_not_found :: "go_error \<Rightarrow> bool" where
  "api_is_not_found (StatusError code) \<longleftrightarrow> code = 404"
| "api_is_not_found _ \<longleftrightarrow> False"

fun kube_is_not_found :: "go_error \<Rightarrow> bool" where
  "kube_is_not_found (KubeNotFound _) \<longleftrightarrow> True"
| "kube_is_not_found _ \<longleftrightarrow> False"

fun kube_already_exists :: "go_error \<Rightarrow> bool" where
  "kube_already_exists (KubeAlreadyExists _) \<longleftrightarrow> True"
| "kube_already_exists _ \<longleftrightarrow> False"

section \<open>The node selector\<close>

fun selector_pairs :: "string list \<Rightarrow> (string \<rightharpoonup> string) \<Rightarrow> go_error + (string \<rightharpoonup> string)" where
  "selector_pairs [] o' = Inr o'"
| "selector_pairs (pair # pairs) o' =
     (if pair = '''' then selector_pairs pairs o'
      else case go_split (CHR ''='') pair of
        [k, v] \<Rightarrow> selector_pairs pairs (o'(go_trim k \<mapsto> go_trim v))
      | _ \<Rightarrow> Inl (GoError ''invalid format for key=value pair''))"

definition node_selector_unmarshal :: "string \<Rightarrow> go_error + (string \<rightharpoonup> string)" where
  "node_selector_unmarshal selector = selector_pairs (go_split (CHR '' '') selector) Map.empty"

section \<open>The structures\<close>

record go_test_run =
  g_target :: string
  g_env_vars :: "string \<rightharpoonup> string"
  g_labels :: "string \<rightharpoonup> string"
  g_source_repo :: string
  g_source_ref :: string
  g_source_script :: string
  g_segments :: "string list"
  g_completed :: bool
  g_ready :: bool
  g_start_test_at :: "datetime option"
  g_resource_cpu :: string
  g_resource_memory :: string
  g_node_selector :: "string \<rightharpoonup> string"
  g_job_deadline :: "int option"
  g_dedicated_nodes :: bool

record go_job =
  g_name :: string
  g_url :: string
  g_location :: string
  g_status :: string
  g_status_description :: string
  g_workers :: "32 word"
  g_online_workers :: "32 word"
  g_assigned_segments :: "segment list"
  g_test_run :: go_test_run
  g_output_config :: output_json

section \<open>Decoding\<close>

text \<open>
  The parsers the structures use: \<open>time.ParseDuration\<close> (nanoseconds) and the quantities of
  Kubernetes (whether a text is one; the text is kept). A single field that cannot be
  decoded makes the whole answer an error.
\<close>

record parsers =
  parse_duration :: "string \<Rightarrow> int option"
  quantity_ok :: "string \<Rightarrow> bool"

definition decode_test_run :: "parsers \<Rightarrow> test_run_json \<Rightarrow> go_error + go_test_run" where
  "decode_test_run p j =
     (case node_selector_unmarshal (rj_node_selector j) of
        Inl x \<Rightarrow> Inl x
      | Inr sel \<Rightarrow>
          (case parse_duration p (rj_job_deadline j) of
             None \<Rightarrow> Inl (GoError ''time: invalid duration'')
           | Some d \<Rightarrow>
               if \<not> quantity_ok p (rj_resources_cpu j) \<or> \<not> quantity_ok p (rj_resources_memory j)
               then Inl (GoError ''invalid quantity'')
               else Inr
                 \<lparr>g_target = rj_target j, g_env_vars = rj_env_vars j, g_labels = rj_labels j,
                  g_source_repo = rj_source_repo j, g_source_ref = rj_source_ref j,
                  g_source_script = rj_source_script j, g_segments = rj_segments j,
                  g_completed = rj_completed j, g_ready = rj_ready j,
                  g_start_test_at = rj_started_at j, g_resource_cpu = rj_resources_cpu j,
                  g_resource_memory = rj_resources_memory j, g_node_selector = sel,
                  g_job_deadline = Some d, g_dedicated_nodes = rj_dedicated_nodes j\<rparr>))"

definition fits_int32 :: "nat \<Rightarrow> bool" where
  "fits_int32 n \<longleftrightarrow> n < 2 ^ 31"

definition decode_job :: "parsers \<Rightarrow> job_json \<Rightarrow> go_error + go_job" where
  "decode_job p j =
     (case decode_test_run p (j_test_run j) of
        Inl x \<Rightarrow> Inl x
      | Inr r \<Rightarrow>
          if \<not> fits_int32 (j_num_workers j) \<or> \<not> fits_int32 (j_online_workers j)
          then Inl (GoError ''json: cannot unmarshal number into int32'')
          else Inr
            \<lparr>g_name = j_name j, g_url = j_url j, g_location = j_location j,
             g_status = status_value (j_status j), g_status_description = j_status_description j,
             g_workers = of_nat (j_num_workers j), g_online_workers = of_nat (j_online_workers j),
             g_assigned_segments = j_assigned_segments j, g_test_run = r,
             g_output_config = j_output_config j\<rparr>)"

fun decode_jobs :: "parsers \<Rightarrow> job_json list \<Rightarrow> go_error + go_job list" where
  "decode_jobs p [] = Inr []"
| "decode_jobs p (j # js) =
     (case decode_job p j of
        Inl x \<Rightarrow> Inl x
      | Inr g \<Rightarrow> (case decode_jobs p js of Inl x \<Rightarrow> Inl x | Inr gs \<Rightarrow> Inr (g # gs)))"

section \<open>What the node selector accepts\<close>

lemma go_split_not_Nil [simp]: "go_split c s \<noteq> []"
  by (induction s) (auto split: list.split)

lemma go_split_word: "c \<notin> set s \<Longrightarrow> go_split c s = [s]"
  by (induction s) auto

lemma go_split_append: "c \<notin> set s \<Longrightarrow> go_split c (s @ c # t) = s # go_split c t"
  by (induction s) auto

lemma go_split_join:
  "xs \<noteq> [] \<Longrightarrow> \<forall>x \<in> set xs. c \<notin> set x \<Longrightarrow> go_split c (py_join [c] xs) = xs"
  by (induction "[c]" xs rule: py_join.induct) (simp_all add: go_split_word go_split_append)

lemma length_go_split: "length (go_split c s) = length (filter (\<lambda>x. x = c) s) + 1"
  by (induction s) (auto split: list.split)

lemma go_trim_word: "CHR '' '' \<notin> set s \<Longrightarrow> go_trim s = s"
proof -
  have "dropWhile (\<lambda>c. c = d) s = s" if "d \<notin> set s" for d :: char and s
    using that by (cases s) auto
  then show "CHR '' '' \<notin> set s \<Longrightarrow> go_trim s = s" by (simp add: go_trim_def)
qed

definition selector_word :: "string \<Rightarrow> bool" where
  "selector_word w \<longleftrightarrow> w = '''' \<or> length (filter (\<lambda>c. c = CHR ''='') w) = 1"

lemma selector_pairs_ok: "(\<exists>m. selector_pairs ws o' = Inr m) \<longleftrightarrow> list_all selector_word ws"
proof (induction ws arbitrary: o')
  case (Cons w ws)
  show ?case
  proof (cases "length (filter (\<lambda>c. c = CHR ''='') w) = 1")
    case True
    then have "length (go_split (CHR ''='') w) = 2" by (simp add: length_go_split)
    then obtain k v where "go_split (CHR ''='') w = [k, v]"
      by (auto simp: numeral_2_eq_2 length_Suc_conv)
    with True Cons show ?thesis by (simp add: selector_word_def)
  next
    case False
    then have "length (go_split (CHR ''='') w) \<noteq> 2" by (simp add: length_go_split)
    with False Cons show ?thesis by (auto simp: selector_word_def split: list.split)
  qed
qed simp

lemma selector_pairs_join:
  assumes "\<forall>(k, v) \<in> set kvs. {CHR '' '', CHR ''=''} \<inter> (set k \<union> set v) = {}"
  shows "selector_pairs (map (\<lambda>(k, v). k @ ''='' @ v) kvs) o' = Inr (o' ++ map_of (rev kvs))"
  using assms
proof (induction kvs arbitrary: o')
  case (Cons kv kvs)
  obtain k v where kv: "kv = (k, v)" by (cases kv)
  from Cons.prems kv have "CHR ''='' \<notin> set k" "CHR ''='' \<notin> set v" "CHR '' '' \<notin> set k" "CHR '' '' \<notin> set v"
    by auto
  then have "go_split (CHR ''='') (k @ ''='' @ v) = [k, v]" "go_trim k = k" "go_trim v = v"
    by (simp_all add: go_split_append go_split_word go_trim_word)
  then have "selector_pairs (map (\<lambda>(k, v). k @ ''='' @ v) (kv # kvs)) o' =
      selector_pairs (map (\<lambda>(k, v). k @ ''='' @ v) kvs) (o'(k \<mapsto> v))"
    by (simp add: kv)
  also have "\<dots> = Inr (o'(k \<mapsto> v) ++ map_of (rev kvs))" using Cons.prems by (intro Cons.IH) simp
  also have "o'(k \<mapsto> v) ++ map_of (rev kvs) = o' ++ map_of (rev (kv # kvs))" by (simp add: kv)
  finally show ?case .
qed simp

text \<open>
  The node selector of a run is read as the list of pairs it is meant to be: a text of
  key=value pairs, one blank apart, gives the map of the pairs, a later pair replacing an earlier
  one of the same key; and exactly those texts are accepted whose words, more than one blank
  between them or not, have one equals sign each.
\<close>

theorem node_selector_pairs:
  assumes "\<forall>(k, v) \<in> set kvs. {CHR '' '', CHR ''=''} \<inter> (set k \<union> set v) = {}"
  shows "node_selector_unmarshal (py_join '' '' (map (\<lambda>(k, v). k @ ''='' @ v) kvs)) = Inr (map_of (rev kvs)) \<and>
    ((\<exists>m. node_selector_unmarshal s = Inr m) \<longleftrightarrow>
      (\<forall>w \<in> set (go_split (CHR '' '') s). w = '''' \<or> length (filter (\<lambda>c. c = CHR ''='') w) = 1))"
proof
  show "node_selector_unmarshal (py_join '' '' (map (\<lambda>(k, v). k @ ''='' @ v) kvs)) = Inr (map_of (rev kvs))"
  proof (cases "kvs = []")
    case False
    have "\<forall>x \<in> set (map (\<lambda>(k, v). k @ ''='' @ v) kvs). CHR '' '' \<notin> set x" using assms by auto
    with False have "go_split (CHR '' '') (py_join '' '' (map (\<lambda>(k, v). k @ ''='' @ v) kvs)) =
        map (\<lambda>(k, v). k @ ''='' @ v) kvs"
      by (intro go_split_join) simp_all
    then show ?thesis using selector_pairs_join [OF assms] by (simp add: node_selector_unmarshal_def)
  qed (simp add: node_selector_unmarshal_def)
  show "(\<exists>m. node_selector_unmarshal s = Inr m) \<longleftrightarrow>
      (\<forall>w \<in> set (go_split (CHR '' '') s). w = '''' \<or> length (filter (\<lambda>c. c = CHR ''='') w) = 1)"
    by (simp add: node_selector_unmarshal_def selector_pairs_ok list_all_iff selector_word_def)
qed

theorem node_selector_pairs_witness:
  "node_selector_unmarshal ''cloud.google.com/gke-spot=true disk=ssd'' =
     Inr [''cloud.google.com/gke-spot'' \<mapsto> ''true'', ''disk'' \<mapsto> ''ssd''] \<and>
   \<not> (\<exists>m. node_selector_unmarshal ''ssd'' = Inr m)"
proof -
  let ?kvs = "[(''cloud.google.com/gke-spot'', ''true''), (''disk'', ''ssd'')]"
  have "\<forall>(k, v) \<in> set ?kvs. {CHR '' '', CHR ''=''} \<inter> (set k \<union> set v) = {}" by simp
  from node_selector_pairs [OF this, of "''ssd''"] show ?thesis by (auto simp: fun_upd_twist)
qed

end
