(* ===== verification/Cluster.thy ===== *)
theory Cluster
  imports GoApi
begin

text \<open>
  The objects the operator keeps in its Kubernetes cluster for a job
  (src/k6-operator/internal/controller/testrun_controller.go): the Job with its pods, the
  configuration of Telegraf as a secret, and the disruption budget. The structures hold the
  fields the operator sets or reads; library functions on them are parameters.
\<close>

section \<open>Texts\<close>

text \<open>\<open>fmt.Sprintf\<close> with verbs of one letter, the arguments given as they are rendered.\<close>

fun go_sprintf :: "string \<Rightarrow> string list \<Rightarrow> string" where
  "go_sprintf [] as = []"
| "go_sprintf [c] as = [c]"
| "go_sprintf (c # v # s) [] = c # go_sprintf (v # s) []"
| "go_sprintf (c # v # s) (a # as) =
     (if c = CHR ''%'' then a @ go_sprintf s as else c # go_sprintf (v # s) (a # as))"

definition go_lines :: "string list \<Rightarrow> string" where
  "go_lines = py_join [CHR 0x0A]"

definition go_bool :: "bool \<Rightarrow> string" where
  "go_bool b = (if b then ''true'' else ''false'')"

definition go_has_suffix :: "string \<Rightarrow> string \<Rightarrow> bool" where
  "go_has_suffix s suf \<longleftrightarrow> length suf \<le> length s \<and> drop (length s - length suf) s = suf"

section \<open>The objects\<close>

record env_var =
  ev_name :: string
  ev_value :: string

record probe =
  initial_delay_seconds :: int
  http_path :: string
  http_port :: int
  http_scheme :: string

record container =
  c_name :: string
  c_image :: string
  c_pull_policy :: string
  c_working_dir :: string
  c_command :: "string list"
  c_env :: "env_var list"
  c_ports :: "(string \<times> int) list"
  c_volume_mounts :: "(string \<times> string) list"
  c_liveness :: "probe option"
  c_readiness :: "probe option"
  c_requests :: "(string \<times> string) list"
  c_pre_stop :: "string list"

datatype volume = EmptyDir string | SecretVolume string string

record pod_template =
  restart_policy :: string
  grace_period :: int
  share_process_namespace :: bool
  fs_group :: int
  run_as_user :: int
  run_as_group :: int
  pod_node_selector :: "string \<rightharpoonup> string"
  anti_affinity :: "(string \<times> (string \<times> string) list) list"
  volumes :: "volume list"
  init_containers :: "container list"
  containers :: "container list"

record job_spec =
  js_suspend :: "bool option"
  js_ttl_after_finished :: "int option"
  js_parallelism :: "32 word option"
  js_completions :: "32 word option"
  js_backoff_limit :: "int option"
  js_completion_mode :: string
  js_active_deadline :: "int option"
  js_template :: pod_template

record kube_job =
  kj_name :: string
  kj_labels :: "string \<rightharpoonup> string"
  kj_deleting :: bool
  kj_spec :: job_spec
  kj_active :: "32 word"
  kj_succeeded :: "32 word"
  kj_ready :: "32 word option"
  kj_conditions :: "(string \<times> string) list"

record secret =
  sec_name :: string
  sec_labels :: "string \<rightharpoonup> string"
  sec_data :: "(string \<times> string) list"
  sec_owner :: string

record disruption_budget =
  pdb_labels :: "string \<rightharpoonup> string"
  pdb_owners :: "string list"
  pdb_selector :: "(string \<times> string) list"
  pdb_min_available :: int

record pod =
  pod_name :: string
  pod_conditions :: "(string \<times> string \<times> datetime) list"

text \<open>The zero values of Go.\<close>

definition new_container :: container where
  "new_container =
     \<lparr>c_name = '''', c_image = '''', c_pull_policy = '''', c_working_dir = '''', c_command = [],
      c_env = [], c_ports = [], c_volume_mounts = [], c_liveness = None, c_readiness = None,
      c_requests = [], c_pre_stop = []\<rparr>"

definition new_pod_template :: pod_template where
  "new_pod_template =
     \<lparr>restart_policy = '''', grace_period = 0, share_process_namespace = False, fs_group = 0,
      run_as_user = 0, run_as_group = 0, pod_node_selector = Map.empty, anti_affinity = [],
      volumes = [], init_containers = [], containers = []\<rparr>"

definition new_kube_job :: "string \<Rightarrow> kube_job" where
  "new_kube_job n =
     \<lparr>kj_name = n, kj_labels = Map.empty, kj_deleting = False,
      kj_spec = \<lparr>js_suspend = None, js_ttl_after_finished = None, js_parallelism = None,
        js_completions = None, js_backoff_limit = None, js_completion_mode = '''',
        js_active_deadline = None, js_template = new_pod_template\<rparr>,
      kj_active = 0, kj_succeeded = 0, kj_ready = None, kj_conditions = []\<rparr>"

section \<open>The parameters\<close>

text \<open>
  The libraries: \<open>shellescape.QuoteCommand\<close>, \<open>UpsertEnvVars\<close>, \<open>UpsertVolume\<close> and
  \<open>UpsertContainer\<close> of kmodules, the order in which Go ranges over a map, which is
  unspecified; and the images and the location the operator is configured with. (The pod
  starts empty, so the checks that it has no such volume or container yet hold.)
\<close>

record libraries =
  quote_command :: "string list \<Rightarrow> string"
  upsert_env_vars :: "env_var list \<Rightarrow> env_var list \<Rightarrow> env_var list"
  upsert_volume :: "volume list \<Rightarrow> volume \<Rightarrow> volume list"
  upsert_container :: "container list \<Rightarrow> container \<Rightarrow> container list"
  range_map :: "(string \<rightharpoonup> string) \<Rightarrow> (string \<times> string) list"
  k6_image :: string
  telegraf_image :: string
  operator_location :: string

definition telegraf_config_version :: nat where
  "telegraf_config_version = 1"

definition telegraf_interval_seconds :: int where
  "telegraf_interval_seconds = 10"

definition telegraf_flush_interval_seconds :: int where
  "telegraf_flush_interval_seconds = 10"

definition telegraf_flush_jitter_seconds :: int where
  "telegraf_flush_jitter_seconds = 5"

definition k6_labels :: "string \<Rightarrow> (string \<rightharpoonup> string) \<Rightarrow> (string \<rightharpoonup> string)" where
  "k6_labels n m =
     m(''app.kubernetes.io/name'' \<mapsto> ''k6'', ''app.kubernetes.io/instance'' \<mapsto> n,
       ''app.kubernetes.io/managed-by'' \<mapsto> ''orderly-ape'')"

section \<open>The Job of a test run\<close>

definition grace_seconds :: int where
  "grace_seconds = max 10 (telegraf_flush_interval_seconds * 2 + telegraf_flush_jitter_seconds)"

definition k6_tags :: "libraries \<Rightarrow> go_job \<Rightarrow> string \<rightharpoonup> string" where
  "k6_tags lib job =
     (g_labels (g_test_run job))(''testid'' \<mapsto> g_name job, ''location'' \<mapsto> operator_location lib,
       ''segment_number'' \<mapsto> ''__ASSIGNED_SEGMENT_ID__'')"

definition k6_command :: "libraries \<Rightarrow> go_job \<Rightarrow> string list" where
  "k6_command lib job =
     [''k6'', ''run'', ''--paused'', ''--address'', ''0.0.0.0:6565''] @
     (if g_env_vars (g_test_run job) ''K6_VERBOSE'' = Some ''true'' then [''--verbose''] else []) @
     [''--execution-segment-sequence'', py_join '','' (g_segments (g_test_run job)),
      ''--execution-segment'', ''__ASSIGNED_SEGMENT__''] @
     concat (map (\<lambda>(key, v). [''--tag'', key @ ''='' @ v]) (range_map lib (k6_tags lib job))) @
     [g_source_script (g_test_run job)]"

definition k6_script :: "libraries \<Rightarrow> go_job \<Rightarrow> string" where
  "k6_script lib job =
     py_replace ''__ASSIGNED_SEGMENT_ID__'' ''\"${SEGMENT_ID_$(JOB_COMPLETION_INDEX)}\"''
       (py_replace ''__ASSIGNED_SEGMENT__'' ''\"${SEGMENT_$(JOB_COMPLETION_INDEX)}\"''
         (quote_command lib (k6_command lib job)))"

definition segments_env :: "segment list \<Rightarrow> env_var list" where
  "segments_env segs =
     concat (map (\<lambda>(i, s).
       [\<lparr>ev_name = ''SEGMENT_'' @ str_nat i, ev_value = seg_segment s\<rparr>,
        \<lparr>ev_name = ''SEGMENT_ID_'' @ str_nat i, ev_value = seg_segment_id s\<rparr>])
       (List.enumerate 0 segs))"

definition k6_env :: "libraries \<Rightarrow> go_job \<Rightarrow> env_var list" where
  "k6_env lib job =
     upsert_env_vars lib
       (upsert_env_vars lib
         (fold (\<lambda>(n, v) env. upsert_env_vars lib env [\<lparr>ev_name = n, ev_value = v\<rparr>])
           (range_map lib (g_env_vars (g_test_run job))) [])
         [\<lparr>ev_name = ''TARGET'', ev_value = g_target (g_test_run job)\<rparr>,
          \<lparr>ev_name = ''K6_OUT'', ev_value = ''output-statsd''\<rparr>,
          \<lparr>ev_name = ''K6_STATSD_ENABLE_TAGS'', ev_value = ''true''\<rparr>])
       (segments_env (g_assigned_segments job))"

definition git_container :: "go_job \<Rightarrow> container" where
  "git_container job =
     new_container\<lparr>c_name := ''git'', c_image := ''alpine/git'', c_pull_policy := ''IfNotPresent'',
       c_working_dir := ''/scripts'',
       c_command := [''/bin/sh'', ''-c'', go_lines
         [''mkdir -p /tmp/nobody'', ''export HOME=/tmp/nobody'', ''set -eo pipefail'', ''set -x'',
          ''git config --global --add safe.directory '/scripts'' @ [CHR 0x27],
          ''git init -q'',
          ''git remote add origin https://'' @ g_source_repo (g_test_run job),
          ''git fetch -q --depth=1 origin '' @ g_source_ref (g_test_run job),
          ''git checkout -q FETCH_HEAD'']],
       c_volume_mounts := [(''k6-script'', ''/scripts'')]\<rparr>"

definition k6_probe :: probe where
  "k6_probe =
     \<lparr>initial_delay_seconds = 30, http_path = ''/v1/status'', http_port = 6565, http_scheme = ''HTTP''\<rparr>"

definition k6_shell :: "string list" where
  "k6_shell = [
      '''',
      replicate 24 (CHR 0x20) @ ''PID=\"\"'',
      replicate 24 (CHR 0x20) @ ''terminate() {'',
      replicate 28 (CHR 0x20) @ ''echo \"Received TERM signal. Killing k6\" >&2'',
      replicate 28 (CHR 0x20) @ ''if [ -n \"$PID\" ] ; then kill -TERM $PID || true ; fi'',
      replicate 24 (CHR 0x20) @ ''}'',
      replicate 24 (CHR 0x20) @ ''trap 'terminate' TERM'',
      replicate 24 (CHR 0x20) @ ''%s & PID=$!'',
      replicate 24 (CHR 0x20) @ ''wait $PID'',
      replicate 24 (CHR 0x20) @ ''EXIT_CODE=$?'',
      replicate 24 (CHR 0x20) @ ''echo \"k6 finished with code $EXIT_CODE\" >&2'',
      replicate 24 (CHR 0x20) @ ''echo \"Allow telegraf to flush it's metrics\" >&2'',
      replicate 24 (CHR 0x20) @ ''sleep %d'',
      replicate 24 (CHR 0x20) @ ''echo \"Killing telegraf\" >&2'',
      replicate 24 (CHR 0x20) @ ''killall telegraf || true'',
      replicate 24 (CHR 0x20) @ ''# 99 is the k6 exit code for ThresholdsHaveFailed.'',
      replicate 24 (CHR 0x20) @ ''# This is not an error from the operator's perspective.'',
      replicate 24 (CHR 0x20) @ ''if [ $EXIT_CODE -ne 0 ] && [ $EXIT_CODE -ne 99 ] ; then exit $EXIT_CODE ; fi'',
      replicate 24 (CHR 0x20) @ ''exit 0'',
      replicate 20 (CHR 0x20)]"

definition k6_container :: "libraries \<Rightarrow> go_job \<Rightarrow> container" where
  "k6_container lib job =
     new_container\<lparr>c_name := ''k6'', c_image := k6_image lib,
       c_pull_policy := (if go_has_suffix (k6_image lib) '':latest'' then ''Always'' else ''IfNotPresent''),
       c_working_dir := ''/scripts'',
       c_command := [''/bin/sh'', ''-c'',
         go_sprintf (go_lines k6_shell) [k6_script lib job, str_int grace_seconds]],
       c_env := k6_env lib job,
       c_ports := [(''http-api'', 6565)],
       c_volume_mounts := [(''k6-script'', ''/scripts'')],
       c_liveness := Some k6_probe, c_readiness := Some k6_probe,
       c_requests := [(''cpu'', g_resource_cpu (g_test_run job)), (''memory'', g_resource_memory (g_test_run job))]\<rparr>"

definition telegraf_shell :: "string list" where
  "telegraf_shell = [
      '''',
      replicate 9 (CHR 0x09) @ ''echo \"Allow telegraf to flush it's metrics\" >&2'',
      replicate 9 (CHR 0x09) @ ''sleep %d'',
      replicate 8 (CHR 0x09)]"

definition telegraf_container :: "libraries \<Rightarrow> container" where
  "telegraf_container lib =
     new_container\<lparr>c_name := ''telegraf'', c_image := telegraf_image lib, c_pull_policy := ''IfNotPresent'',
       c_volume_mounts := [(''telegraf-config'', ''/etc/telegraf'')],
       c_pre_stop := [''/bin/sh'', ''-c'',
         go_sprintf (go_lines telegraf_shell) [str_int (2 * telegraf_flush_interval_seconds)]]\<rparr>"

definition telegraf_secret_name :: "go_job \<Rightarrow> string" where
  "telegraf_secret_name job = g_name job @ ''-'' @ str_nat telegraf_config_version"

definition k6_pod :: "libraries \<Rightarrow> go_job \<Rightarrow> pod_template" where
  "k6_pod lib job =
     new_pod_template\<lparr>restart_policy := ''Never'', grace_period := grace_seconds,
       share_process_namespace := True, fs_group := 65534, run_as_user := 65534, run_as_group := 65534,
       pod_node_selector := g_node_selector (g_test_run job),
       anti_affinity := (if g_dedicated_nodes (g_test_run job)
         then [(''kubernetes.io/hostname'', [(''app.kubernetes.io/name'', ''k6'')])] else []),
       volumes := upsert_volume lib (upsert_volume lib [] (EmptyDir ''k6-script''))
         (SecretVolume ''telegraf-config'' (telegraf_secret_name job)),
       init_containers := upsert_container lib [] (git_container job),
       containers := upsert_container lib (upsert_container lib [] (k6_container lib job)) (telegraf_container lib)\<rparr>"

text \<open>
  \<open>int64(d.Seconds())\<close>: whole seconds, towards zero. (The detour over a float is exact for
  deadlines of less than a month.)
\<close>

definition whole_seconds :: "int \<Rightarrow> int" where
  "whole_seconds d = (if d < 0 then - ((- d) div 1000000000) else d div 1000000000)"

text \<open>The function \<open>CreateOrUpdate\<close> is given to bring a Job to its wanted state.\<close>

definition mutate_job :: "libraries \<Rightarrow> go_job \<Rightarrow> kube_job \<Rightarrow> kube_job" where
  "mutate_job lib job obj =
     (let cnt = of_nat (length (g_assigned_segments job)) in
      obj\<lparr>kj_labels := k6_labels (g_name job) (kj_labels obj),
        kj_spec := (kj_spec obj)\<lparr>js_ttl_after_finished := Some 3600, js_parallelism := Some cnt,
          js_completions := Some cnt, js_backoff_limit := Some 0, js_completion_mode := ''Indexed'',
          js_active_deadline := (case g_job_deadline (g_test_run job) of
              None \<Rightarrow> js_active_deadline (kj_spec obj) | Some d \<Rightarrow> Some (whole_seconds d)),
          js_template := k6_pod lib job\<rparr>\<rparr>)"

section \<open>The other objects\<close>

definition telegraf_conf :: "string list" where
  "telegraf_conf = [
      '''',
      ''[agent]'',
      ''interval = \"%ds\"'',
      ''flush_interval = \"%ds\"'',
      ''flush_jitter = \"%ds\"'',
      '''',
      ''# Statsd Server'',
      ''['' @ ''[inputs.statsd]'' @ '']'',
      replicate 2 (CHR 0x20) @ ''## Protocol, must be \"tcp\", \"udp4\", \"udp6\" or \"udp\" (default=udp)'',
      replicate 2 (CHR 0x20) @ ''protocol = \"udp\"'',
      '''',
      replicate 2 (CHR 0x20) @ ''## Address and port to host UDP listener on'',
      replicate 2 (CHR 0x20) @ ''service_address = \":8125\"'',
      '''',
      replicate 2 (CHR 0x20) @ ''## Percentiles to calculate for timing & histogram stats.'',
      replicate 2 (CHR 0x20) @ ''percentiles = [90.0, 95.0, 99.0, 99.9, 99.95]'',
      '''',
      replicate 2 (CHR 0x20) @ ''## Parses extensions to statsd in the datadog statsd format'',
      replicate 2 (CHR 0x20) @ ''## currently supports metrics and datadog tags.'',
      replicate 2 (CHR 0x20) @ ''## http://docs.datadoghq.com/guides/dogstatsd/'',
      replicate 2 (CHR 0x20) @ ''datadog_extensions = true'',
      '''',
      replicate 2 (CHR 0x20) @ ''## Convert all numeric counters to float'',
      replicate 2 (CHR 0x20) @ ''## Enabling this would ensure that both counters and guages are both emitted'',
      replicate 2 (CHR 0x20) @ ''## as floats.'',
      replicate 2 (CHR 0x20) @ ''float_counters = true'',
      '''',
      replicate 2 (CHR 0x20) @ ''## Emit timings metric_<name>_count field as float, the same as all other'',
      replicate 2 (CHR 0x20) @ ''## histogram fields'',
      replicate 2 (CHR 0x20) @ ''float_timings = true'',
      '''',
      replicate 2 (CHR 0x20) @ ''## Emit sets as float'',
      replicate 2 (CHR 0x20) @ ''float_sets = true'',
      '''',
      ''['' @ ''[outputs.influxdb_v2]'' @ '']'',
      replicate 2 (CHR 0x20) @ ''## The URLs of the InfluxDB cluster nodes.'',
      replicate 2 (CHR 0x20) @ ''##'',
      replicate 2 (CHR 0x20) @ ''## Multiple URLs can be specified for a single cluster, only ONE of the'',
      replicate 2 (CHR 0x20) @ ''## urls will be written to each interval.'',
      replicate 2 (CHR 0x20) @ ''##   ex: urls = [\"https://us-west-2-1.aws.cloud2.influxdata.com\"]'',
      replicate 2 (CHR 0x20) @ ''urls = [\"%s\"]'',
      '''',
      replicate 2 (CHR 0x20) @ ''## Token for authentication.'',
      replicate 2 (CHR 0x20) @ ''token = \"%s\"'',
      '''',
      replicate 2 (CHR 0x20) @ ''## Organization is the name of the organization you wish to write to.'',
      replicate 2 (CHR 0x20) @ ''organization = \"%s\"'',
      '''',
      replicate 2 (CHR 0x20) @ ''## Destination bucket to write into.'',
      replicate 2 (CHR 0x20) @ ''bucket = \"%s\"'',
      '''',
      replicate 2 (CHR 0x20) @ ''## Use TLS but skip chain & host verification'',
      replicate 2 (CHR 0x20) @ ''insecure_skip_verify = %t'',
      replicate 12 (CHR 0x20)]"

definition telegraf_config :: "output_json \<Rightarrow> string" where
  "telegraf_config out =
     go_sprintf (go_lines telegraf_conf)
       [str_int telegraf_interval_seconds, str_int telegraf_flush_interval_seconds,
        str_int telegraf_flush_jitter_seconds, oj_influxdb_url out, oj_influxdb_token out,
        oj_influxdb_org out, oj_influxdb_bucket out, go_bool (oj_insecure_skip_verify out)]"

definition telegraf_secret :: "go_job \<Rightarrow> kube_job \<Rightarrow> secret" where
  "telegraf_secret job parent =
     \<lparr>sec_name = telegraf_secret_name job, sec_labels = k6_labels (g_name job) Map.empty,
      sec_data = [(''telegraf.conf'', telegraf_config (g_output_config job))],
      sec_owner = kj_name parent\<rparr>"

text \<open>\<open>SetOwnerReference\<close> adds the owner, once.\<close>

definition mutate_budget :: "go_job \<Rightarrow> kube_job \<Rightarrow> disruption_budget \<Rightarrow> disruption_budget" where
  "mutate_budget job parent obj =
     obj\<lparr>pdb_labels := k6_labels (g_name job) (pdb_labels obj),
       pdb_owners := List.insert (kj_name parent) (pdb_owners obj),
       pdb_selector := [(''batch.kubernetes.io/job-name'', g_name job)],
       pdb_min_available := int (length (g_assigned_segments job))\<rparr>"

section \<open>Reading the objects\<close>

definition get_job_condition :: "kube_job \<Rightarrow> string \<Rightarrow> string option" where
  "get_job_condition obj condition_type = map_of (kj_conditions obj) condition_type"

text \<open>
  A pod is stable when its first ready condition that is older than five seconds is true.
\<close>

definition is_pod_stable_ready :: "datetime \<Rightarrow> pod \<Rightarrow> bool" where
  "is_pod_stable_ready t p =
     (case find (\<lambda>(kind, _, since). kind = ''Ready'' \<and> since + seconds 5 < t) (pod_conditions p) of
        None \<Rightarrow> False
      | Some (_, s, _) \<Rightarrow> s = ''True'')"

end
