(* ===== verification/Reconcile.thy ===== *)
theory Reconcile
  imports Cluster
begin

text \<open>
  The loop of the operator (testrun_controller.go, igniter.go, loadtesting/worker.go and
  ping.go): \<open>Reconcile\<close> with its early returns, the igniters that start the k6 processes, the
  poll of the worker API and the check-in. The two clients it talks through, of the web
  application and of Kubernetes, are records of calls on a state of the outside.
\<close>

section \<open>The clients\<close>

record 'w api_client =
  api_get :: "string \<Rightarrow> ('w, go_error, go_job) prog"
  api_list :: "('w, go_error, go_job list) prog"
  api_update :: "go_job \<Rightarrow> ('w, go_error, go_job) prog"
  api_ping :: "('w, go_error, unit) prog"

text \<open>
  \<open>kube_sync_job\<close> and \<open>kube_sync_budget\<close> are \<open>CreateOrUpdate\<close> of the object with a name and
  the function that changes it; \<open>kube_pods\<close> lists the pods of a Job; \<open>kube_unpause\<close> is the
  request of the igniter to the k6 process of a pod.
\<close>

record 'w kube_client =
  kube_get :: "string \<Rightarrow> ('w, go_error, kube_job) prog"
  kube_update :: "kube_job \<Rightarrow> ('w, go_error, kube_job) prog"
  kube_delete :: "string \<Rightarrow> ('w, go_error, unit) prog"
  kube_sync_job :: "string \<Rightarrow> (kube_job \<Rightarrow> kube_job) \<Rightarrow> ('w, go_error, kube_job) prog"
  kube_create_secret :: "secret \<Rightarrow> ('w, go_error, unit) prog"
  kube_sync_budget :: "string \<Rightarrow> (disruption_budget \<Rightarrow> disruption_budget) \<Rightarrow> ('w, go_error, unit) prog"
  kube_pods :: "string \<Rightarrow> ('w, go_error, pod list) prog"
  kube_unpause :: "string \<Rightarrow> ('w, go_error, unit) prog"

text \<open>
  An igniter: the start it waits for, the pods it will start, and what has become of it.
  The operator keeps one per job, in a map that is lost when the operator restarts.
\<close>

record igniter =
  ig_start_test_at :: datetime
  ig_pod_names :: "string list"
  ig_started :: bool
  ig_error :: "go_error option"

type_synonym igniters = "string \<rightharpoonup> igniter"
type_synonym 'w op_state = "'w \<times> igniters"

record 'w operator =
  op_api :: "'w api_client"
  op_kube :: "'w kube_client"
  op_lib :: libraries
  op_now :: datetime

definition on_world :: "('w, 'e, 'a) prog \<Rightarrow> ('w op_state, 'e, 'a) prog" where
  "on_world m = (\<lambda>(w, igs). case m w of (r, w') \<Rightarrow> (r, w', igs))"

section \<open>Igniters\<close>

text \<open>A stopped igniter is no longer in the map; its goroutine ends with its context.\<close>

definition remove_igniter :: "go_job \<Rightarrow> 'w op_state \<Rightarrow> 'w op_state" where
  "remove_igniter job = (\<lambda>(w, igs). (w, igs(g_name job := None)))"

definition create_igniter :: "'w operator \<Rightarrow> go_job \<Rightarrow> ('w op_state, go_error, igniter) prog" where
  "create_igniter op job = (\<lambda>(w, igs).
     case igs (g_name job) of
       Some ig \<Rightarrow> (Inr ig, w, igs)
     | None \<Rightarrow>
         (case g_start_test_at (g_test_run job) of
            None \<Rightarrow> (Inl (GoError ''Job is not ready to be ignited''), w, igs)
          | Some start \<Rightarrow>
              if \<not> g_ready (g_test_run job)
              then (Inl (GoError ''Job is not ready to be ignited''), w, igs)
              else (case kube_pods (op_kube op) (g_name job) w of
                (Inl x, w') \<Rightarrow> (Inl x, w', igs)
              | (Inr pods, w') \<Rightarrow>
                  let names = map pod_name pods in
                  if length (g_assigned_segments job) \<noteq> length names
                  then (Inl (GoError (''expected '' @ str_nat (length (g_assigned_segments job)) @
                      '' pods, got '' @ str_nat (length names) @ '': ['' @ py_join '' '' names @ '']'')), w', igs)
                  else let ig = \<lparr>ig_start_test_at = start, ig_pod_names = names, ig_started = False,
                      ig_error = None\<rparr>
                    in (Inr ig, w', igs(g_name job \<mapsto> ig)))))"

text \<open>
  \<open>Igniter.Start\<close>, the goroutine of an igniter, in two steps a \<open>Reconcile\<close> may come between:
  when its time has come it is started; then the request goes to every pod and the first
  error is kept.
\<close>

definition igniter_start :: "'w operator \<Rightarrow> string \<Rightarrow> 'w op_state \<Rightarrow> 'w op_state" where
  "igniter_start op n = (\<lambda>(w, igs).
     case igs n of
       None \<Rightarrow> (w, igs)
     | Some ig \<Rightarrow>
         if ig_start_test_at ig \<le> op_now op then (w, igs(n \<mapsto> ig\<lparr>ig_started := True\<rparr>)) else (w, igs))"

fun unpause_all :: "'w kube_client \<Rightarrow> string list \<Rightarrow> 'w \<Rightarrow> go_error option \<times> 'w" where
  "unpause_all k [] w = (None, w)"
| "unpause_all k (n # ns) w =
     (case kube_unpause k n w of
        (r, w') \<Rightarrow> (case unpause_all k ns w' of
          (x, w'') \<Rightarrow> (case r of Inl y \<Rightarrow> Some y | Inr _ \<Rightarrow> x, w'')))"

definition igniter_wait :: "'w operator \<Rightarrow> string \<Rightarrow> 'w op_state \<Rightarrow> 'w op_state" where
  "igniter_wait op n = (\<lambda>(w, igs).
     case igs n of
       None \<Rightarrow> (w, igs)
     | Some ig \<Rightarrow>
         if ig_started ig
         then (case unpause_all (op_kube op) (ig_pod_names ig) w of
           (x, w') \<Rightarrow> (w', igs(n \<mapsto> ig\<lparr>ig_error := x\<rparr>)))
         else (w, igs))"

section \<open>Reconcile\<close>

text \<open>
  A program of the operator may fail and go on, so its parts return the error, or nil, and
  the state. \<open>put_status\<close> is the assignment of a status with its description followed by
  \<open>APIClient.Update\<close>, which replaces the job by the answer unless there is an error.
\<close>

definition put_status ::
  "'w operator \<Rightarrow> status \<Rightarrow> string \<Rightarrow> go_job \<Rightarrow> 'w op_state \<Rightarrow> go_error option \<times> go_job \<times> 'w op_state" where
  "put_status op s description job st =
     (let job = job\<lparr>g_status := status_value s, g_status_description := description\<rparr> in
      case on_world (api_update (op_api op) job) st of
        (Inl x, st') \<Rightarrow> (Some x, job, st')
      | (Inr job', st') \<Rightarrow> (None, job', st'))"

definition worker_pods_failed :: "string \<Rightarrow> string" where
  "worker_pods_failed m = ''Worker pods have failed running k6 tests: '' @ m"

definition reconcile_running ::
  "'w operator \<Rightarrow> go_job \<Rightarrow> kube_job \<Rightarrow> 'w op_state \<Rightarrow> go_error option \<times> 'w op_state" where
  "reconcile_running op job obj st =
     (if g_status job = status_value RUNNING \<and> kj_active obj = 0
      then let (s, m) =
             (if sint (kj_succeeded obj) = int (length (g_assigned_segments job))
              then (COMPLETED, ''Worker pods have successfully completed running k6 tests'')
              else (FAILED, ''Worker pods have failed running k6 tests''))
           in case put_status op s m job st of (x, _, st') \<Rightarrow> (x, st')
      else (None, st))"

definition reconcile_ready ::
  "'w operator \<Rightarrow> go_job \<Rightarrow> kube_job \<Rightarrow> 'w op_state \<Rightarrow> go_error option \<times> 'w op_state" where
  "reconcile_ready op job obj st =
     (if g_status job = status_value READY
      then (case create_igniter op job st of
          (Inl x, st) \<Rightarrow> (Some x, st)
        | (Inr ig, st) \<Rightarrow>
            let (job, st) =
                  (if g_status job = status_value READY \<and> ig_started ig \<and> ig_error ig = None
                   then (case put_status op RUNNING ''Worker pods are currently running k6 tests'' job st of
                     (_, job, st) \<Rightarrow> (job, st))
                   else (job, st));
                (job, st) =
                  (case ig_error ig of
                     Some x \<Rightarrow> (case put_status op FAILED (worker_pods_failed (error_text x)) job st of
                       (_, job, st) \<Rightarrow> (job, st))
                   | None \<Rightarrow> (job, st))
            in reconcile_running op job obj st)
      else reconcile_running op job obj st)"

definition reconcile_queued ::
  "'w operator \<Rightarrow> go_job \<Rightarrow> kube_job \<Rightarrow> 'w op_state \<Rightarrow> go_error option \<times> 'w op_state" where
  "reconcile_queued op job obj st =
     (if g_status job = status_value QUEUED \<and> kj_ready obj = Some (of_nat (length (g_assigned_segments job)))
      then (case on_world (kube_pods (op_kube op) (g_name job)) st of
          (Inl x, st) \<Rightarrow> (Some x, st)
        | (Inr pods, st) \<Rightarrow>
            if list_all (is_pod_stable_ready (op_now op)) pods
            then (case put_status op READY ''Worker pods are ready and waiting to start testing'' job st of
                (Some x, _, st) \<Rightarrow> (Some x, st)
              | (None, job, st) \<Rightarrow> reconcile_ready op job obj st)
            else reconcile_ready op job obj st)
      else reconcile_ready op job obj st)"

definition reconcile_pending ::
  "'w operator \<Rightarrow> go_job \<Rightarrow> kube_job \<Rightarrow> 'w op_state \<Rightarrow> go_error option \<times> 'w op_state" where
  "reconcile_pending op job obj st =
     (if g_status job = status_value PENDING
      then (case put_status op QUEUED ''Test run is queued for execution'' job st of
          (Some x, _, st) \<Rightarrow> (Some x, st)
        | (None, job, st) \<Rightarrow> reconcile_queued op job obj st)
      else reconcile_queued op job obj st)"

text \<open>With the Job at hand: a failed Job fails the run, otherwise the status moves on.\<close>

definition reconcile_object ::
  "'w operator \<Rightarrow> go_job \<Rightarrow> kube_job \<Rightarrow> 'w op_state \<Rightarrow> go_error option \<times> 'w op_state" where
  "reconcile_object op job obj st =
     (case get_job_condition obj ''Failed'' of
        Some m \<Rightarrow> (case put_status op FAILED (worker_pods_failed m) job st of (_, _, st) \<Rightarrow> (None, st))
      | None \<Rightarrow> reconcile_pending op job obj st)"

text \<open>\<open>syncJob\<close>, \<open>syncTelegrafConfig\<close> and \<open>syncPodDisruptionBudget\<close>.\<close>

definition sync_job :: "'w operator \<Rightarrow> go_job \<Rightarrow> ('w, go_error, kube_job) prog" where
  "sync_job op job = kube_sync_job (op_kube op) (g_name job) (mutate_job (op_lib op) job)"

definition sync_telegraf_config :: "'w operator \<Rightarrow> go_job \<Rightarrow> kube_job \<Rightarrow> ('w, go_error, unit) prog" where
  "sync_telegraf_config op job parent = (\<lambda>w.
     case kube_create_secret (op_kube op) (telegraf_secret job parent) w of
       (Inl x, w') \<Rightarrow> (if kube_already_exists x then Inr () else Inl x, w')
     | (Inr u, w') \<Rightarrow> (Inr u, w'))"

definition sync_pod_disruption_budget ::
  "'w operator \<Rightarrow> go_job \<Rightarrow> kube_job \<Rightarrow> ('w, go_error, unit) prog" where
  "sync_pod_disruption_budget op job parent =
     kube_sync_budget (op_kube op) (g_name job) (mutate_budget job parent)"

text \<open>A pending job without a Job in the cluster: make the objects, then go on.\<close>

definition reconcile_create ::
  "'w operator \<Rightarrow> go_job \<Rightarrow> 'w op_state \<Rightarrow> go_error option \<times> 'w op_state" where
  "reconcile_create op job st =
     (case on_world (sync_job op job) st of
        (Inl x, st) \<Rightarrow>
          (case put_status op FAILED (worker_pods_failed (error_text x)) job st of (y, _, st) \<Rightarrow> (y, st))
      | (Inr obj, st) \<Rightarrow>
          (case on_world (sync_telegraf_config op job obj) st of
             (Inl x, st) \<Rightarrow> (Some x, st)
           | (Inr _, st) \<Rightarrow>
               (case on_world (sync_pod_disruption_budget op job obj) st of
                  (Inl x, st) \<Rightarrow> (Some x, st)
                | (Inr _, st) \<Rightarrow> reconcile_object op job obj st)))"

text \<open>
  A job that is past pending and has no Job: it has failed. The status is assigned before
  the description is put together from it.
\<close>

definition reconcile_missing ::
  "'w operator \<Rightarrow> go_job \<Rightarrow> 'w op_state \<Rightarrow> go_error option \<times> 'w op_state" where
  "reconcile_missing op job st =
     (let job = job\<lparr>g_status := status_value FAILED\<rparr> in
      case put_status op FAILED (''Test was `'' @ g_status job @ ''` but no Kubernetes Job found'') job st of
        (_, _, st) \<Rightarrow> (None, st))"

definition suspend_job ::
  "'w operator \<Rightarrow> go_job \<Rightarrow> kube_job \<Rightarrow> 'w op_state \<Rightarrow> go_error option \<times> 'w op_state" where
  "suspend_job op job obj st =
     (if js_suspend (kj_spec obj) \<noteq> Some True
      then (case on_world (kube_update (op_kube op)
              (obj\<lparr>kj_spec := (kj_spec obj)\<lparr>js_suspend := Some True\<rparr>\<rparr>)) st of
          (Inl x, st) \<Rightarrow> (if kube_is_not_found x then None else Some x, remove_igniter job st)
        | (Inr _, st) \<Rightarrow> (None, remove_igniter job st))
      else (None, remove_igniter job st))"

definition reconcile_job ::
  "'w operator \<Rightarrow> go_job \<Rightarrow> string \<Rightarrow> 'w op_state \<Rightarrow> go_error option \<times> 'w op_state" where
  "reconcile_job op job n st =
     (if g_status job = status_value COMPLETED \<or> g_status job = status_value FAILED
      then (None, remove_igniter job st)
      else case on_world (kube_get (op_kube op) n) st of
        (Inr obj, st) \<Rightarrow>
          if kj_deleting obj then (None, st)
          else if g_status job = status_value CANCELED then suspend_job op job obj st
          else reconcile_object op job obj st
      | (Inl x, st) \<Rightarrow>
          if \<not> kube_is_not_found x then (Some x, st)
          else if g_status job = status_value CANCELED then (None, remove_igniter job st)
          else if g_status job \<noteq> status_value PENDING then reconcile_missing op job st
          else reconcile_create op job st)"

definition reconcile ::
  "'w operator \<Rightarrow> string \<Rightarrow> 'w op_state \<Rightarrow> go_error option \<times> 'w op_state" where
  "reconcile op n st =
     (case on_world (api_get (op_api op) n) st of
        (Inl x, st) \<Rightarrow>
          if \<not> api_is_not_found x then (Some x, st)
          else (case on_world (kube_delete (op_kube op) n) st of
              (Inl y, st) \<Rightarrow> (if kube_is_not_found y then None else Some y, st)
            | (Inr _, st) \<Rightarrow> (None, st))
      | (Inr job, st) \<Rightarrow> reconcile_job op job n st)"

section \<open>The poll\<close>

text \<open>
  The worker passes on the jobs that are not completed or failed, one event each; a poll
  that fails passes on none. Each event leads to a call of \<open>Reconcile\<close>, one at a time.
\<close>

definition job_is_watched :: "go_job \<Rightarrow> bool" where
  "job_is_watched job \<longleftrightarrow> g_status job \<noteq> status_value COMPLETED \<and> g_status job \<noteq> status_value FAILED"

definition poll :: "'w operator \<Rightarrow> 'w \<Rightarrow> string list \<times> 'w" where
  "poll op w =
     (case api_list (op_api op) w of
        (Inl _, w') \<Rightarrow> ([], w')
      | (Inr jobs, w') \<Rightarrow> (map g_name (filter job_is_watched jobs), w'))"

definition poll_round :: "'w operator \<Rightarrow> 'w op_state \<Rightarrow> 'w op_state" where
  "poll_round op st =
     (case poll op (fst st) of (ns, w) \<Rightarrow> fold (\<lambda>n st. snd (reconcile op n st)) ns (w, snd st))"

definition pinger_ping :: "'w operator \<Rightarrow> 'w \<Rightarrow> 'w" where
  "pinger_ping op w = snd (api_ping (op_api op) w)"

end
