(* ===== verification/Lifecycle.thy ===== *)
theory Lifecycle
  imports Views
begin

text \<open>
  The whole life of a run, driven by its workers: every location in turn reports queued, then
  every one ready, then running, then completed. From the writes alone the run gets its start
  and its end.
\<close>

section \<open>A phase\<close>

text \<open>The workers of the given locations report a status, one request each.\<close>

definition report :: "string \<Rightarrow> string \<Rightarrow> job_request" where
  "report n loc = \<lparr>q_all = False, q_location = Some loc, q_name = Some n\<rparr>"

definition status_only :: "status \<Rightarrow> job_data" where
  "status_only s =
     \<lparr>d_location = None, d_num_workers = None, d_online_workers = None, d_status = Some s,
      d_status_description = None\<rparr>"

definition phase :: "env \<Rightarrow> string \<Rightarrow> status \<Rightarrow> string list \<Rightarrow> unit web" where
  "phase e n s locs = for_each locs (\<lambda>loc. bindp (put_job e (report n loc) (status_only s)) (\<lambda>_. ret ()))"

definition set_status :: "string \<Rightarrow> string set \<Rightarrow> status \<Rightarrow> test_run_location \<Rightarrow> test_run_location" where
  "set_status n D s l = (if test_run l = n \<and> location l \<in> D then l\<lparr>status := s\<rparr> else l)"

lemma set_status_simps [simp]:
  "pk (set_status n D s l) = pk l" "test_run (set_status n D s l) = test_run l"
  "location (set_status n D s l) = location l" "placed (set_status n D s l) = placed l"
  by (simp_all add: set_status_def placed_def)

text \<open>What the last report of a phase does to the run.\<close>

definition phase_run :: "datetime \<Rightarrow> string \<Rightarrow> status \<Rightarrow> test_run \<Rightarrow> test_run" where
  "phase_run t n s r =
     (if name r = n \<and> s = READY then start_run t r
      else if name r = n \<and> s = COMPLETED then complete_run t r else r)"

lemma assign_status: "assign_data (status_only s) l = l\<lparr>status := s\<rparr>"
  by (simp add: assign_data_def status_only_def)

lemma status_only_fields: "d_location (status_only s) = None" "d_status (status_only s) = Some s"
  by (simp_all add: status_only_def)

lemma find_visible:
  assumes wf: "wf_db db" and l: "l \<in> set (tbl_run_location db)" "test_run l = n"
    and run: "find_run n db = Some r" "\<not> draft r"
  shows "jobs_get_object (report n (location l)) db = (Inr l, db)"
proof (rule jobs_get_object_row [OF wf])
  have "\<not> run_is_draft db l"
    using run find_run_name [OF wf] l(2) unfolding run_is_draft_def list_ex_iff by (metis option.inject)
  with l show "l \<in> set (jobs_get_queryset (report n (location l)) db)"
    by (simp add: jobs_get_queryset_iff report_def)
  show "q_name (report n (location l)) = Some (test_run l)" using l(2) by (simp add: report_def)
qed

text \<open>One report: the row of the location changes, and with the last one the run.\<close>

lemma report_step:
  assumes fsm: "fsm_lists e" "fsm_moves e" and wf: "wf_db db" and l: "l \<in> set (tbl_run_location db)" "test_run l = n"
    and run: "find_run n db = Some r" "\<not> draft r"
    and edge: "status_edge (status l) s" "s \<noteq> FAILED"
  shows "\<exists>db'. put_job e (report n (location l)) (status_only s) db = (Inr (l\<lparr>status := s\<rparr>), db') \<and> wf_db db' \<and>
    tbl_run_location db' = map (set_status n {location l} s) (tbl_run_location db) \<and>
    tbl_test_run db' = (if all_in s n db' then map (phase_run (now e) n s) (tbl_test_run db) else tbl_test_run db)"
proof -
  let ?l = "l\<lparr>status := s\<rparr>"
  let ?db = "after_save (now e) ?l db"
  have put: "put_job e (report n (location l)) (status_only s) db = (Inr ?l, ?db)"
    using put_job_accepts_all [OF fsm wf find_visible [OF wf l run] status_only_fields(1)] edge(1)
    by (simp add: assign_status status_only_fields)
  moreover have "wf_db ?db" using put_job_result [OF fsm wf put] by blast
  moreover have "tbl_run_location ?db = map (set_status n {location l} s) (tbl_run_location db)"
  proof -
    have same: "pk x = pk l \<longleftrightarrow> test_run x = n \<and> location x = location l" "pk x = pk l \<Longrightarrow> x = l"
      if "x \<in> set (tbl_run_location db)" for x
      using that row_identity [OF wf that l(1)] l(2) by auto
    show ?thesis
      using after_save_stored_rows [OF wf l(1), of ?l "now e"] edge(2) same
      by (auto simp: set_status_def)
  qed
  moreover have "tbl_test_run ?db = (if all_in s n ?db then map (phase_run (now e) n s) (tbl_test_run db) else tbl_test_run db)"
  proof -
    have "run_after (now e) ?l ?db = (if all_in s n ?db then phase_run (now e) n s else (\<lambda>r. r))"
      using l(2) by (auto simp: run_after_def phase_run_def fun_eq_iff)
    then show ?thesis using after_save_runs [of "now e" ?l db] by simp
  qed
  ultimately show ?thesis by blast
qed

text \<open>
  All reports of a phase, in any order of the locations: the rows of the run change together,
  and the run exactly once, at the last report.
\<close>

lemma set_status_insert:
  "set_status n {loc} s (set_status n D s l) = set_status n (insert loc D) s l"
  by (auto simp: set_status_def)

lemma all_in_set_status:
  assumes rows: "tbl_run_location db = map (set_status n D s) rows0"
    and D: "location ` set (filter (\<lambda>x. test_run x = n) rows0) \<subseteq> D"
  shows "all_in s n db"
  unfolding all_in_def
proof
  fix x
  assume "x \<in> set (locations_of n db)"
  then have "x \<in> set_status n D s ` set rows0" and n: "test_run x = n"
    by (simp_all add: locations_of_def rows)
  then obtain y where y: "y \<in> set rows0" "x = set_status n D s y" by blast
  with n have "test_run y = n" by simp
  then have "location y \<in> D" using D y(1) by auto
  with y(2) \<open>test_run y = n\<close> show "status x = s" by (simp add: set_status_def)
qed

lemma phase_loop:
  assumes fsm: "fsm_lists e" "fsm_moves e" and wf0: "wf_db db0"
    and all: "\<forall>l \<in> set (locations_of n db0). status l = a" and edge: "status_edge a s" "s \<noteq> FAILED" "a \<noteq> s"
  shows "wf_db db \<Longrightarrow> distinct locs \<Longrightarrow>
    find_run n db = Some r \<Longrightarrow> \<not> draft r \<Longrightarrow>
    tbl_run_location db = map (set_status n D s) (tbl_run_location db0) \<Longrightarrow>
    set locs \<inter> D = {} \<Longrightarrow> D \<union> set locs = location ` set (locations_of n db0) \<Longrightarrow> locs \<noteq> [] \<Longrightarrow>
    \<exists>db'. phase e n s locs db = (Inr (), db') \<and> wf_db db' \<and>
      tbl_run_location db' = map (set_status n (D \<union> set locs) s) (tbl_run_location db0) \<and>
      tbl_test_run db' = map (phase_run (now e) n s) (tbl_test_run db)"
proof (induction locs arbitrary: db r D)
  case Nil
  then show ?case by simp
next
  case (Cons loc locs)
  have "loc \<in> location ` set (locations_of n db0)" using Cons.prems(7) by auto
  then obtain l where l: "l \<in> set (tbl_run_location db0)" "test_run l = n" "location l = loc"
    by (auto simp: locations_of_def)
  have same: "set_status n D s l = l" using Cons.prems(6) l(3) by (simp add: set_status_def)
  then have l_db: "l \<in> set (tbl_run_location db)" using l(1) unfolding Cons.prems(5) by force
  have "status l = a" using all l by (simp add: locations_of_def)
  then have e: "status_edge (status l) s" using edge(1) by simp
  obtain db1 where put: "put_job e (report n loc) (status_only s) db = (Inr (l\<lparr>status := s\<rparr>), db1)"
    and wf1: "wf_db db1" and rows1: "tbl_run_location db1 = map (set_status n {loc} s) (tbl_run_location db)"
    and runs1: "tbl_test_run db1 = (if all_in s n db1 then map (phase_run (now e) n s) (tbl_test_run db) else tbl_test_run db)"
    using report_step [OF fsm Cons.prems(1) l_db l(2) Cons.prems(3,4) e edge(2)] l(3) by blast
  have rows: "tbl_run_location db1 = map (set_status n (insert loc D) s) (tbl_run_location db0)"
    using rows1 Cons.prems(5) by (simp add: set_status_insert)
  have step: "phase e n s (loc # locs) db = phase e n s locs db1"
    using put by (simp add: phase_def bindp_def ret_def)
  have all_in: "all_in s n db1 \<longleftrightarrow> locs = []"
  proof
    assume "locs = []"
    then have "location ` set (filter (\<lambda>x. test_run x = n) (tbl_run_location db0)) \<subseteq> insert loc D"
      using Cons.prems(7) by (simp add: locations_of_def)
    with rows show "all_in s n db1" by (rule all_in_set_status)
  next
    assume ai: "all_in s n db1"
    show "locs = []"
    proof (rule ccontr)
      assume "locs \<noteq> []"
      then obtain x where x: "x \<in> set locs" by (cases locs) auto
      then have "x \<in> location ` set (locations_of n db0)" using Cons.prems(7) by auto
      then obtain y where y: "y \<in> set (tbl_run_location db0)" "test_run y = n" "location y = x"
        by (auto simp: locations_of_def)
      have "set_status n (insert loc D) s y = y"
        using x y Cons.prems(2,6) by (auto simp: set_status_def)
      then have "y \<in> set (tbl_run_location db1)" using y(1) unfolding rows by force
      then have "status y = s" using ai y(2) by (simp add: all_in_def locations_of_def)
      moreover have "status y = a" using all y by (simp add: locations_of_def)
      ultimately show False using edge(3) by simp
    qed
  qed
  show ?case
  proof (cases "locs = []")
    case True
    with step wf1 rows runs1 all_in show ?thesis
      by (intro exI [of _ db1]) (simp add: phase_def ret_def)
  next
    case False
    then have keep: "tbl_test_run db1 = tbl_test_run db" using runs1 all_in by simp
    then have r1: "find_run n db1 = Some r" using Cons.prems(3) by (simp add: find_run_def)
    from Cons.IH [OF wf1 _ r1 Cons.prems(4) rows _ _ False] Cons.prems(2,6,7) keep step
    show ?thesis by auto
  qed
qed

lemma phase_eq:
  assumes fsm: "fsm_lists e" "fsm_moves e" and wf: "wf_db db" and run: "find_run n db = Some r" "\<not> draft r"
    and all: "\<forall>l \<in> set (locations_of n db). status l = a" and ne: "locations_of n db \<noteq> []"
    and edge: "status_edge a s" "s \<noteq> FAILED" "a \<noteq> s"
    and locs: "distinct locs" "set locs = location ` set (locations_of n db)"
  shows "\<exists>db'. phase e n s locs db = (Inr (), db') \<and> wf_db db' \<and>
      tbl_run_location db' = map (\<lambda>l. if test_run l = n then l\<lparr>status := s\<rparr> else l) (tbl_run_location db) \<and>
      tbl_test_run db' = map (phase_run (now e) n s) (tbl_test_run db)"
proof -
  have "locs \<noteq> []" using ne locs(2) by auto
  moreover have "map (set_status n {} s) (tbl_run_location db) = tbl_run_location db"
    by (rule map_idI) (simp add: set_status_def)
  ultimately obtain db' where db': "phase e n s locs db = (Inr (), db')" "wf_db db'"
    "tbl_run_location db' = map (set_status n (set locs) s) (tbl_run_location db)"
    "tbl_test_run db' = map (phase_run (now e) n s) (tbl_test_run db)"
    using phase_loop [OF fsm wf all edge wf locs(1) run, of "{}"] locs(2) by auto
  moreover have "set_status n (set locs) s l = (if test_run l = n then l\<lparr>status := s\<rparr> else l)"
    if "l \<in> set (tbl_run_location db)" for l
    using that locs(2) by (auto simp: set_status_def locations_of_def)
  ultimately show ?thesis by (intro exI [of _ db']) (auto cong: map_cong)
qed

section \<open>The life of a run\<close>

text \<open>A started run all of whose locations, the set \<open>L\<close>, have the status \<open>a\<close>.\<close>

definition in_phase :: "string \<Rightarrow> string set \<Rightarrow> status \<Rightarrow> test_run \<Rightarrow> database \<Rightarrow> bool" where
  "in_phase n L a r db \<longleftrightarrow>
     wf_db db \<and> find_run n db = Some r \<and> \<not> draft r \<and> L \<noteq> {} \<and> all_in a n db \<and>
     location ` set (locations_of n db) = L"

definition others_kept :: "string \<Rightarrow> database \<Rightarrow> database \<Rightarrow> bool" where
  "others_kept n db db' \<longleftrightarrow>
     (\<forall>m. m \<noteq> n \<longrightarrow> find_run m db' = find_run m db \<and> locations_of m db' = locations_of m db)"

lemma locations_after_phase:
  "filter (\<lambda>l. test_run l = m) (map (\<lambda>l. if test_run l = n then l\<lparr>status := s\<rparr> else l) ls) =
     map (\<lambda>l. if m = n then l\<lparr>status := s\<rparr> else l) (filter (\<lambda>l. test_run l = m) ls)"
  by (induction ls) auto

lemma phase_run_fields [simp]: "name (phase_run t n s r) = name r" "draft (phase_run t n s r) = draft r"
  by (simp_all add: phase_run_def)

lemma phase_step:
  assumes fsm: "fsm_lists e" "fsm_moves e" and ph: "in_phase n L a r db"
    and edge: "status_edge a s" "s \<noteq> FAILED" "a \<noteq> s" and locs: "distinct locs" "set locs = L"
  obtains db' where "phase e n s locs db = (Inr (), db')" "in_phase n L s (phase_run (now e) n s r) db'"
    "others_kept n db db'"
proof -
  have wf: "wf_db db" and run: "find_run n db = Some r" "\<not> draft r" and L: "L \<noteq> {}"
    and all: "\<forall>l \<in> set (locations_of n db). status l = a" and locs_n: "location ` set (locations_of n db) = L"
    using ph by (simp_all add: in_phase_def all_in_def)
  have "set locs = location ` set (locations_of n db)" "locations_of n db \<noteq> []" using locs(2) locs_n L by auto
  then obtain db' where db': "phase e n s locs db = (Inr (), db')" "wf_db db'"
    "tbl_run_location db' = map (\<lambda>l. if test_run l = n then l\<lparr>status := s\<rparr> else l) (tbl_run_location db)"
    "tbl_test_run db' = map (phase_run (now e) n s) (tbl_test_run db)"
    using phase_eq [OF fsm wf run all _ edge locs(1)] by blast
  have rows: "locations_of m db' = map (\<lambda>l. if m = n then l\<lparr>status := s\<rparr> else l) (locations_of m db)" for m
    by (simp add: locations_of_def db'(3) locations_after_phase)
  have runs: "find_run m db' = map_option (phase_run (now e) n s) (find_run m db)" for m
    by (simp add: find_run_def db'(4) find_run_map)
  have "in_phase n L s (phase_run (now e) n s r) db'"
    using db'(2) run L locs_n rows [of n] by (auto simp: in_phase_def runs all_in_def image_image)
  moreover have "others_kept n db db'"
  proof -
    have "find_run m db' = find_run m db" if "m \<noteq> n" for m
      using that by (cases "find_run m db") (auto simp: runs phase_run_def dest: find_run_row)
    then show ?thesis by (simp add: others_kept_def rows)
  qed
  ultimately show ?thesis using db'(1) by (rule that [rotated])
qed

lemma others_kept_trans: "others_kept n a b \<Longrightarrow> others_kept n b c \<Longrightarrow> others_kept n a c"
  by (simp add: others_kept_def)

text \<open>
  C15. A run that is started, with all its locations pending, is carried through by the reports
  of its workers alone: in every phase the locations may report in any order, no request
  fails, and in the end every location is completed, the start of the run is 30 seconds after
  the phase ready, the end is the time of the phase completed, both in whole seconds, and no
  other run or location has changed.
\<close>

theorem run_lifecycle:
  assumes "fsm_lists e1" "fsm_moves e1" "fsm_lists e2" "fsm_moves e2" "fsm_lists e3" "fsm_moves e3"
    "fsm_lists e4" "fsm_moves e4"
    and "wf_db db" and "find_run n db = Some r" and "\<not> draft r" and "started_at r = None" and "completed_at r = None"
    and "locations_of n db \<noteq> []" and "\<forall>l \<in> set (locations_of n db). status l = PENDING"
    and "\<forall>locs \<in> {l1, l2, l3, l4}. distinct locs \<and> set locs = location ` set (locations_of n db)"
  shows "\<exists>db' r'. bindp (phase e1 n QUEUED l1) (\<lambda>_. bindp (phase e2 n READY l2)
      (\<lambda>_. bindp (phase e3 n RUNNING l3) (\<lambda>_. phase e4 n COMPLETED l4))) db = (Inr (), db') \<and>
    wf_db db' \<and> (\<forall>l \<in> set (locations_of n db'). status l = COMPLETED) \<and>
    find_run n db' = Some r' \<and> started_at r' = Some (floor_second (now e2 + seconds 30)) \<and>
    completed_at r' = Some (floor_second (now e4)) \<and>
    (\<forall>m. m \<noteq> n \<longrightarrow> find_run m db' = find_run m db \<and> locations_of m db' = locations_of m db)"
proof -
  let ?L = "location ` set (locations_of n db)"
  have nm: "name r = n" using find_run_row [OF assms(10)] by simp
  have p0: "in_phase n ?L PENDING r db" using assms(9-15) by (simp add: in_phase_def all_in_def)
  obtain db1 where 1: "phase e1 n QUEUED l1 db = (Inr (), db1)" "in_phase n ?L QUEUED (phase_run (now e1) n QUEUED r) db1"
    "others_kept n db db1"
    using phase_step [OF assms(1,2) p0, of QUEUED l1] assms(16) by auto
  obtain db2 where 2: "phase e2 n READY l2 db1 = (Inr (), db2)"
    "in_phase n ?L READY (phase_run (now e2) n READY (phase_run (now e1) n QUEUED r)) db2" "others_kept n db1 db2"
    using phase_step [OF assms(3,4) 1(2), of READY l2] assms(16) by auto
  obtain db3 where 3: "phase e3 n RUNNING l3 db2 = (Inr (), db3)"
    "in_phase n ?L RUNNING (phase_run (now e3) n RUNNING (phase_run (now e2) n READY (phase_run (now e1) n QUEUED r))) db3"
    "others_kept n db2 db3"
    using phase_step [OF assms(5,6) 2(2), of RUNNING l3] assms(16) by auto
  let ?r = "phase_run (now e4) n COMPLETED
    (phase_run (now e3) n RUNNING (phase_run (now e2) n READY (phase_run (now e1) n QUEUED r)))"
  obtain db4 where 4: "phase e4 n COMPLETED l4 db3 = (Inr (), db4)" "in_phase n ?L COMPLETED ?r db4"
    "others_kept n db3 db4"
    using phase_step [OF assms(7,8) 3(2), of COMPLETED l4] assms(16) by auto
  have "started_at ?r = Some (floor_second (now e2 + seconds 30))" "completed_at ?r = Some (floor_second (now e4))"
    using nm assms(12,13) by (simp_all add: phase_run_def start_run_def complete_run_def start_delay_seconds_def)
  moreover have "others_kept n db db4" using 1(3) 2(3) 3(3) 4(3) by (meson others_kept_trans)
  ultimately show ?thesis
    using 1(1) 2(1) 3(1) 4(1,2)
    by (intro exI [of _ db4] exI [of _ ?r]) (simp add: bindp_def in_phase_def all_in_def others_kept_def)
qed

theorem run_lifecycle_witness:
  "\<exists>db' r'. bindp (phase (sample_env 0) ''shop-a1'' QUEUED [''us'', ''eu'']) (\<lambda>_.
      bindp (phase (sample_env 60000000) ''shop-a1'' READY [''eu'', ''us'']) (\<lambda>_.
      bindp (phase (sample_env 90000000) ''shop-a1'' RUNNING [''eu'', ''us'']) (\<lambda>_.
      phase (sample_env 900500000) ''shop-a1'' COMPLETED [''us'', ''eu'']))) (sample_db False PENDING PENDING) = (Inr (), db') \<and>
    find_run ''shop-a1'' db' = Some r' \<and> started_at r' = Some 90000000 \<and> completed_at r' = Some 900000000"
proof -
  let ?db = "sample_db False PENDING PENDING"
  have run: "find_run ''shop-a1'' ?db = Some (sample_run False)" by code_simp
  have r: "\<not> draft (sample_run False)" "started_at (sample_run False) = None" "completed_at (sample_run False) = None"
    by (simp_all add: sample_run_def new_test_run_def)
  have rows: "locations_of ''shop-a1'' ?db = [sample_row 4 ''eu'' 2 PENDING, sample_row 5 ''us'' 3 PENDING]" by code_simp
  then have ne: "locations_of ''shop-a1'' ?db \<noteq> []"
    and all: "\<forall>l \<in> set (locations_of ''shop-a1'' ?db). status l = PENDING"
    by (simp_all add: sample_row_def new_test_run_location_def)
  have locs: "\<forall>locs \<in> {[''us'', ''eu''], [''eu'', ''us''], [''eu'', ''us''], [''us'', ''eu'']}.
      distinct locs \<and> set locs = location ` set (locations_of ''shop-a1'' ?db)"
    unfolding rows by (auto simp: sample_row_def new_test_run_location_def)
  have t: "floor_second (now (sample_env 60000000) + seconds 30) = 90000000"
    "floor_second (now (sample_env 900500000)) = 900000000"
    by (simp_all add: sample_env_def clock_defs)
  show ?thesis
    using run_lifecycle [OF sample_env_laws(2,3) sample_env_laws(2,3) sample_env_laws(2,3) sample_env_laws(2,3)
        sample_db_wf run r ne all locs, of 0 60000000 90000000 900500000]
    unfolding t by blast
qed

end
