(* ===== verification/Workers.thy ===== *)
theory Workers
  imports Reconcile Lifecycle
begin

text \<open>
  The operator of a location against the web application: its client of the worker API
  (client/uncached.go) calls the requests of the theory Views, the Kubernetes cluster
  stays a parameter. The world is the database with the state of the cluster.
\<close>

section \<open>The client of the worker API\<close>

text \<open>The answers of the web application: its exceptions as status codes.\<close>

fun http_status :: "exn \<Rightarrow> nat" where
  "http_status Http404 = 404"
| "http_status (ValidationError _) = 400"
| "http_status _ = 500"

definition status_of_text :: "string \<Rightarrow> status option" where
  "status_of_text s = find (\<lambda>c. status_value c = s) [PENDING, QUEUED, READY, RUNNING, CANCELED, COMPLETED, FAILED]"

definition web_request :: "string \<Rightarrow> string \<Rightarrow> job_request" where
  "web_request region n = \<lparr>q_all = False, q_location = Some region, q_name = Some n\<rparr>"

text \<open>A job of the API as the client gets it.\<close>

definition web_job ::
  "(string \<Rightarrow> string \<Rightarrow> exn + string) \<Rightarrow> parsers \<Rightarrow> test_run_location \<Rightarrow> database \<Rightarrow> go_error + go_job" where
  "web_job reverse_job p l db =
     (case job_repr reverse_job l db of
        (Inl x, _) \<Rightarrow> Inl (StatusError (http_status x))
      | (Inr j, _) \<Rightarrow> decode_job p j)"

definition web_get ::
  "(string \<Rightarrow> string \<Rightarrow> exn + string) \<Rightarrow> parsers \<Rightarrow> string \<Rightarrow> string \<Rightarrow> (database, go_error, go_job) prog" where
  "web_get reverse_job p region n db =
     (if \<not> route_location region then (Inl (StatusError 404), db)
      else case retrieve_job reverse_job (web_request region n) db of
        (Inl x, db') \<Rightarrow> (Inl (StatusError (http_status x)), db')
      | (Inr j, db') \<Rightarrow> (decode_job p j, db'))"

definition web_list ::
  "(string \<Rightarrow> string \<Rightarrow> exn + string) \<Rightarrow> parsers \<Rightarrow> string \<Rightarrow> (database, go_error, go_job list) prog" where
  "web_list reverse_job p region db =
     (if \<not> route_location region then (Inl (StatusError 404), db)
      else case list_jobs reverse_job \<lparr>q_all = False, q_location = Some region, q_name = None\<rparr> db of
        (Inl x, db') \<Rightarrow> (Inl (StatusError (http_status x)), db')
      | (Inr js, db') \<Rightarrow> (decode_jobs p js, db'))"

text \<open>
  The update sends the whole job; of its fields the serializer takes the writable ones. A
  status that is no choice and a negative number are refused. The answer is the row
  after the update.
\<close>

definition job_body :: "go_job \<Rightarrow> status \<Rightarrow> job_data" where
  "job_body job s =
     \<lparr>d_location = Some (g_location job), d_num_workers = Some (nat (sint (g_workers job))),
      d_online_workers = Some (nat (sint (g_online_workers job))), d_status = Some s,
      d_status_description = Some (g_status_description job)\<rparr>"

definition web_update ::
  "env \<Rightarrow> (string \<Rightarrow> string \<Rightarrow> exn + string) \<Rightarrow> parsers \<Rightarrow> string \<Rightarrow> go_job \<Rightarrow> (database, go_error, go_job) prog" where
  "web_update e reverse_job p region job db =
     (if \<not> route_location region then (Inl (StatusError 404), db)
      else case status_of_text (g_status job) of
        None \<Rightarrow> (Inl (StatusError 400), db)
      | Some s \<Rightarrow>
          if sint (g_workers job) < 0 \<or> sint (g_online_workers job) < 0 then (Inl (StatusError 400), db)
          else (case put_job e (web_request region (g_name job)) (job_body job s) db of
              (Inl x, db') \<Rightarrow> (Inl (StatusError (http_status x)), db')
            | (Inr l, db') \<Rightarrow> (web_job reverse_job p l db', db')))"

definition web_ping :: "env \<Rightarrow> string \<Rightarrow> (database, go_error, unit) prog" where
  "web_ping e region db =
     (if \<not> route_location region then (Inl (StatusError 404), db)
      else case ping_create e (Some region) db of
        (Inl x, db') \<Rightarrow> (Inl (StatusError (http_status x)), db')
      | (Inr (Response code), db') \<Rightarrow>
          (if code \<in> {200, 201, 202, 204} then Inr () else Inl (StatusError code), db'))"

section \<open>The operator of a location\<close>

definition in_db :: "('d, 'e, 'a) prog \<Rightarrow> ('d \<times> 'c, 'e, 'a) prog" where
  "in_db m = (\<lambda>(db, c). case m db of (r, db') \<Rightarrow> (r, db', c))"

definition in_cluster :: "('c, 'e, 'a) prog \<Rightarrow> ('d \<times> 'c, 'e, 'a) prog" where
  "in_cluster m = (\<lambda>(db, c). case m c of (r, c') \<Rightarrow> (r, db, c'))"

definition web_client ::
  "env \<Rightarrow> (string \<Rightarrow> string \<Rightarrow> exn + string) \<Rightarrow> parsers \<Rightarrow> string \<Rightarrow> (database \<times> 'c) api_client" where
  "web_client e reverse_job p region =
     \<lparr>api_get = (\<lambda>n. in_db (web_get reverse_job p region n)),
      api_list = in_db (web_list reverse_job p region),
      api_update = (\<lambda>job. in_db (web_update e reverse_job p region job)),
      api_ping = in_db (web_ping e region)\<rparr>"

definition cluster_client :: "'c kube_client \<Rightarrow> ('d \<times> 'c) kube_client" where
  "cluster_client k =
     \<lparr>kube_get = (\<lambda>n. in_cluster (kube_get k n)),
      kube_update = (\<lambda>obj. in_cluster (kube_update k obj)),
      kube_delete = (\<lambda>n. in_cluster (kube_delete k n)),
      kube_sync_job = (\<lambda>n f. in_cluster (kube_sync_job k n f)),
      kube_create_secret = (\<lambda>s. in_cluster (kube_create_secret k s)),
      kube_sync_budget = (\<lambda>n f. in_cluster (kube_sync_budget k n f)),
      kube_pods = (\<lambda>n. in_cluster (kube_pods k n)),
      kube_unpause = (\<lambda>n. in_cluster (kube_unpause k n))\<rparr>"

record 'c site =
  site_env :: env
  site_reverse :: "string \<Rightarrow> string \<Rightarrow> exn + string"
  site_parsers :: parsers
  site_region :: string
  site_kube :: "'c kube_client"
  site_lib :: libraries

definition site_operator :: "'c site \<Rightarrow> (database \<times> 'c) operator" where
  "site_operator s =
     \<lparr>op_api = web_client (site_env s) (site_reverse s) (site_parsers s) (site_region s),
      op_kube = cluster_client (site_kube s), op_lib = site_lib s, op_now = now (site_env s)\<rparr>"

lemmas site_defs = site_operator_def web_client_def cluster_client_def in_db_def in_cluster_def

section \<open>What the client reads\<close>

lemma status_of_text_value [simp]: "status_of_text (status_value s) = Some s"
  by (cases s) (simp_all add: status_of_text_def)

declare status_value.simps [simp del]

text \<open>The fields of a run the structures of the client can hold.\<close>

definition run_readable :: "parsers \<Rightarrow> test_run \<Rightarrow> bool" where
  "run_readable p r \<longleftrightarrow>
     list_all selector_word (go_split (CHR '' '') (node_selector r)) \<and>
     parse_duration p (job_deadline r) \<noteq> None \<and>
     quantity_ok p (resources_cpu r) \<and> quantity_ok p (resources_memory r)"

lemma test_run_repr_read [simp]:
  "rj_node_selector (test_run_repr db r) = node_selector r" "rj_job_deadline (test_run_repr db r) = job_deadline r"
  "rj_resources_cpu (test_run_repr db r) = resources_cpu r"
  "rj_resources_memory (test_run_repr db r) = resources_memory r"
  "rj_ready (test_run_repr db r) = run_ready db r" "rj_started_at (test_run_repr db r) = started_at r"
  "rj_segments (test_run_repr db r) = segments db r"
  by (simp_all add: test_run_repr_def)

lemma node_selector_unmarshal_cases:
  obtains (ok) m where "node_selector_unmarshal s = Inr m" "list_all selector_word (go_split (CHR '' '') s)"
    | (error) x where "node_selector_unmarshal s = Inl (GoError x)" "\<not> list_all selector_word (go_split (CHR '' '') s)"
proof (cases "node_selector_unmarshal s")
  case (Inr m)
  then have "list_all selector_word (go_split (CHR '' '') s)"
    using selector_pairs_ok [of "go_split (CHR '' '') s" Map.empty] by (auto simp: node_selector_unmarshal_def)
  with Inr show ?thesis by (rule ok)
next
  case (Inl e)
  have "selector_pairs ws o' = Inl e \<Longrightarrow> \<exists>x. e = GoError x" for ws o'
    by (induction ws arbitrary: o') (auto split: list.splits if_splits)
  with Inl obtain x where "e = GoError x" by (auto simp: node_selector_unmarshal_def)
  moreover have "\<not> list_all selector_word (go_split (CHR '' '') s)"
    using Inl selector_pairs_ok [of "go_split (CHR '' '') s" Map.empty] by (auto simp: node_selector_unmarshal_def)
  ultimately show ?thesis using Inl error by simp
qed

lemma decode_test_run_cases:
  obtains (ok) g where "decode_test_run p (test_run_repr db r) = Inr g" "run_readable p r"
      "g_ready g = run_ready db r" "g_start_test_at g = started_at r" "g_segments g = segments db r"
    | (error) m where "decode_test_run p (test_run_repr db r) = Inl (GoError m)" "\<not> run_readable p r"
proof (cases rule: node_selector_unmarshal_cases [of "node_selector r"])
  case (error m)
  with that(2) show ?thesis by (simp add: decode_test_run_def run_readable_def)
next
  case sel: (ok m)
  show ?thesis
  proof (cases "parse_duration p (job_deadline r)")
    case None
    then have "decode_test_run p (test_run_repr db r) = Inl (GoError ''time: invalid duration'')"
      using sel by (simp add: decode_test_run_def)
    with None that(2) show ?thesis by (simp add: run_readable_def)
  next
    case (Some d)
    show ?thesis
    proof (cases "quantity_ok p (resources_cpu r) \<and> quantity_ok p (resources_memory r)")
      case True
      then have "\<exists>g. decode_test_run p (test_run_repr db r) = Inr g \<and> g_ready g = run_ready db r \<and>
          g_start_test_at g = started_at r \<and> g_segments g = segments db r"
        using sel(1) Some by (simp add: decode_test_run_def)
      moreover have "run_readable p r" using sel(2) Some True by (simp add: run_readable_def)
      ultimately show ?thesis using that(1) by blast
    next
      case False
      then have "decode_test_run p (test_run_repr db r) = Inl (GoError ''invalid quantity'')"
        using sel Some by (simp add: decode_test_run_def)
      with False that(2) show ?thesis by (auto simp: run_readable_def)
    qed
  qed
qed

text \<open>The job of a row: when there is one, and its fields.\<close>

definition row_readable :: "'c site \<Rightarrow> database \<Rightarrow> test_run_location \<Rightarrow> bool" where
  "row_readable s db l \<longleftrightarrow>
     (\<exists>r. find_run (test_run l) db = Some r \<and> run_readable (site_parsers s) r) \<and>
     (\<exists>url. site_reverse s (location l) (test_run l) = Inr url) \<and>
     fits_int32 (num_workers l) \<and> fits_int32 (online_workers l)"

definition job_shows :: "database \<Rightarrow> test_run_location \<Rightarrow> go_job \<Rightarrow> bool" where
  "job_shows db l job \<longleftrightarrow>
     g_name job = test_run l \<and> g_location job = location l \<and> g_status job = status_value (status l) \<and>
     g_status_description job = status_description l \<and> g_workers job = of_nat (num_workers l) \<and>
     g_online_workers job = of_nat (online_workers l) \<and> g_assigned_segments job = pieces db l \<and>
     (\<exists>r. find_run (test_run l) db = Some r \<and> g_ready (g_test_run job) = run_ready db r \<and>
       g_start_test_at (g_test_run job) = started_at r \<and> g_segments (g_test_run job) = segments db r)"

lemma web_job_readable:
  assumes wf: "wf_db db" and l: "l \<in> set (tbl_run_location db)"
  shows "row_readable s db l \<Longrightarrow> \<exists>job. web_job (site_reverse s) (site_parsers s) l db = Inr job \<and> job_shows db l job"
    and "\<not> row_readable s db l \<Longrightarrow> \<exists>x. web_job (site_reverse s) (site_parsers s) l db = Inl x"
proof -
  obtain r out where r: "find_run (test_run l) db = Some r" "name r = test_run l"
    and repr: "job_repr (site_reverse s) l db =
      (case site_reverse s (location l) (test_run l) of Inl x \<Rightarrow> (Inl x, db)
       | Inr url \<Rightarrow> (Inr
         \<lparr>j_name = test_run l, j_url = url, j_test_run = test_run_repr db r, j_output_config = output_repr out,
          j_assigned_segments = pieces db l, j_location = location l, j_num_workers = num_workers l,
          j_online_workers = online_workers l, j_status = status l,
          j_status_description = status_description l\<rparr>, db))"
    by (rule job_repr_eq [OF wf l, of "site_reverse s"]) (rule that)
  show "\<exists>job. web_job (site_reverse s) (site_parsers s) l db = Inr job \<and> job_shows db l job"
    if readable: "row_readable s db l"
  proof -
    from readable obtain url where url: "site_reverse s (location l) (test_run l) = Inr url"
      and fits: "fits_int32 (num_workers l)" "fits_int32 (online_workers l)"
      and run: "run_readable (site_parsers s) r"
      using r(1) by (auto simp: row_readable_def)
    obtain g where g: "decode_test_run (site_parsers s) (test_run_repr db r) = Inr g"
      "g_ready g = run_ready db r" "g_start_test_at g = started_at r" "g_segments g = segments db r"
      using run by (cases rule: decode_test_run_cases [of "site_parsers s" db r]) (blast intro: that)+
    with url fits r show ?thesis by (simp add: web_job_def repr decode_job_def job_shows_def)
  qed
  show "\<exists>x. web_job (site_reverse s) (site_parsers s) l db = Inl x" if "\<not> row_readable s db l"
  proof (cases "site_reverse s (location l) (test_run l)")
    case (Inr url)
    then show ?thesis
      using that r(1)
      by (cases rule: decode_test_run_cases [of "site_parsers s" db r])
        (auto simp: web_job_def repr decode_job_def row_readable_def)
  qed (simp add: web_job_def repr)
qed

section \<open>Rows the operator serves\<close>

text \<open>
  A row an operator can act on: of its location, of a run that is no draft, and with values
  its client can decode.
\<close>

definition served :: "'c site \<Rightarrow> database \<Rightarrow> test_run_location \<Rightarrow> bool" where
  "served s db l \<longleftrightarrow>
     wf_db db \<and> l \<in> set (tbl_run_location db) \<and> location l = site_region s \<and>
     route_location (site_region s) \<and> \<not> run_is_draft db l \<and> row_readable s db l"

definition reported :: "status \<Rightarrow> string \<Rightarrow> test_run_location \<Rightarrow> test_run_location" where
  "reported st m l = l\<lparr>status := st, status_description := m\<rparr>"

lemma reported_simps [simp]:
  "pk (reported st m l) = pk l" "test_run (reported st m l) = test_run l" "location (reported st m l) = location l"
  "num_workers (reported st m l) = num_workers l" "online_workers (reported st m l) = online_workers l"
  "status (reported st m l) = st" "status_description (reported st m l) = m" "placed (reported st m l) = placed l"
  by (simp_all add: reported_def placed_def)

lemma served_found:
  assumes "served s db l"
  shows "jobs_get_object (web_request (site_region s) (test_run l)) db = (Inr l, db)"
proof (rule jobs_get_object_row)
  show "wf_db db" using assms by (simp add: served_def)
  show "l \<in> set (jobs_get_queryset (web_request (site_region s) (test_run l)) db)"
    using assms by (simp add: served_def jobs_get_queryset_iff web_request_def)
qed (simp add: web_request_def)

lemma served_job:
  assumes "served s db l"
  obtains job where "web_job (site_reverse s) (site_parsers s) l db = Inr job" "job_shows db l job"
  using web_job_readable(1) assms unfolding served_def by blast

lemma served_get:
  assumes "served s db l"
  shows "web_get (site_reverse s) (site_parsers s) (site_region s) (test_run l) db =
    (web_job (site_reverse s) (site_parsers s) l db, db)"
proof -
  have "snd (job_repr (site_reverse s) l db) = db" by (rule job_repr_state)
  then show ?thesis
    using assms served_found [OF assms]
    by (auto simp: web_get_def retrieve_job_def bindp_def web_job_def served_def split: sum.split prod.split)
qed

lemma run_after_read [simp]:
  "node_selector (run_after t l s r) = node_selector r" "job_deadline (run_after t l s r) = job_deadline r"
  "resources_cpu (run_after t l s r) = resources_cpu r" "resources_memory (run_after t l s r) = resources_memory r"
  "pk (run_after t l s r) = pk r"
  by (simp_all add: run_after_def start_run_def complete_run_def)

lemma find_run_after_save:
  "find_run n (after_save t l db) = map_option (run_after t l (after_save t l db)) (find_run n db)"
  unfolding find_run_def after_save_runs [of t l db] by (rule find_run_map) simp

lemma served_after_save:
  assumes "served s db l"
  shows "served s (after_save t (reported st m l) db) (reported st m l)"
    and "save_run_location e (reported st m l) db = (Inr (reported st m l), after_save (now e) (reported st m l) db)"
proof -
  let ?l = "reported st m l" and ?db = "after_save t (reported st m l) db"
  have wf: "wf_db db" and l: "l \<in> set (tbl_run_location db)" using assms by (simp_all add: served_def)
  have "stored_at db ?l" using l by (auto simp: stored_at_def)
  with wf show "save_run_location e ?l db = (Inr ?l, after_save (now e) ?l db)" by (rule save_stored_location)
  have "wf_db ?db" by (rule wf_after_save [OF wf save_stored_row [OF wf \<open>stored_at db ?l\<close>]])
  moreover have "?l \<in> set (tbl_run_location ?db)"
    using after_save_stored_rows [OF wf l, of ?l t] l by (auto intro: rev_image_eqI)
  moreover have "row_readable s ?db ?l"
    using assms by (auto simp: served_def row_readable_def find_run_after_save run_readable_def)
  moreover have "\<not> run_is_draft ?db ?l"
    using assms unfolding run_is_draft_after_save by (simp add: served_def run_is_draft_def)
  ultimately show "served s ?db ?l" using assms by (simp add: served_def)
qed

lemma sint_of_int32: "fits_int32 n \<Longrightarrow> sint (of_nat n :: 32 word) = int n"
  by (simp add: fits_int32_def signed_of_nat signed_take_bit_int_eq_self)

text \<open>An update of the status along an edge is accepted, and the answer is the changed row.\<close>

lemma served_put:
  assumes fsm: "fsm_lists (site_env s)" "fsm_moves (site_env s)" and served: "served s db l"
    and job: "job_shows db l job" and edge: "st = status l \<or> status_edge (status l) st"
  shows "put_job (site_env s) (web_request (site_region s) (test_run l))
      (job_body (job\<lparr>g_status := status_value st, g_status_description := m\<rparr>) st) db =
    (Inr (reported st m l), after_save (now (site_env s)) (reported st m l) db)"
proof -
  let ?q = "web_request (site_region s) (test_run l)"
  let ?d = "job_body (job\<lparr>g_status := status_value st, g_status_description := m\<rparr>) st"
  have wf: "wf_db db" and fits: "fits_int32 (num_workers l)" "fits_int32 (online_workers l)"
    using served by (auto simp: served_def row_readable_def)
  have assign: "assign_data ?d l = reported st m l"
    using job fits by (simp add: assign_data_def job_body_def job_shows_def reported_def sint_of_int32)
  have found: "jobs_get_object ?q db = (Inr l, db)" using served by (rule served_found)
  show ?thesis
  proof (rule put_job_cases [OF fsm wf, of ?q ?d])
    assume "\<forall>l \<in> set (jobs_get_queryset ?q db). q_name ?q \<noteq> Some (test_run l)"
    with jobs_get_object_found [OF found] show ?thesis by blast
  next
    fix l' s'
    assume "jobs_get_object ?q db = (Inr l', db)" "d_status ?d = Some s'" "s' \<noteq> status l'" "\<not> status_edge (status l') s'"
    with found edge show ?thesis by (simp add: job_body_def)
  next
    fix l'
    assume "jobs_get_object ?q db = (Inr l', db)"
      and "put_job (site_env s) ?q ?d db = save_run_location (site_env s) (assign_data ?d l') db"
    with found assign served_after_save(2) [OF served] show ?thesis by simp
  qed
qed

lemma served_update:
  assumes fsm: "fsm_lists (site_env s)" "fsm_moves (site_env s)" and served: "served s db l"
    and job: "job_shows db l job" and edge: "st = status l \<or> status_edge (status l) st"
  shows "web_update (site_env s) (site_reverse s) (site_parsers s) (site_region s)
      (job\<lparr>g_status := status_value st, g_status_description := m\<rparr>) db =
    (web_job (site_reverse s) (site_parsers s) (reported st m l) (after_save (now (site_env s)) (reported st m l) db),
     after_save (now (site_env s)) (reported st m l) db)"
proof -
  have "fits_int32 (num_workers l)" "fits_int32 (online_workers l)" and region: "route_location (site_region s)"
    using served by (auto simp: served_def row_readable_def)
  with job have "\<not> sint (g_workers job) < 0" "\<not> sint (g_online_workers job) < 0" "g_name job = test_run l"
    by (simp_all add: job_shows_def sint_of_int32)
  then show ?thesis using region served_put [OF assms] by (simp add: web_update_def)
qed

section \<open>What a reconciliation reports\<close>

text \<open>The job of a row, and the database after a report of its location.\<close>

definition job_of :: "'c site \<Rightarrow> database \<Rightarrow> test_run_location \<Rightarrow> go_job" where
  "job_of s db l = projr (web_job (site_reverse s) (site_parsers s) l db)"

definition reported_db :: "'c site \<Rightarrow> status \<Rightarrow> string \<Rightarrow> test_run_location \<Rightarrow> database \<Rightarrow> database" where
  "reported_db s st m l db = after_save (now (site_env s)) (reported st m l) db"

lemma job_of_served:
  assumes "served s db l"
  shows "web_job (site_reverse s) (site_parsers s) l db = Inr (job_of s db l)" "job_shows db l (job_of s db l)"
proof -
  obtain job where "web_job (site_reverse s) (site_parsers s) l db = Inr job" "job_shows db l job"
    using assms by (rule served_job)
  then show "web_job (site_reverse s) (site_parsers s) l db = Inr (job_of s db l)" "job_shows db l (job_of s db l)"
    by (simp_all add: job_of_def)
qed

lemma job_of_fields:
  assumes "served s db l"
  shows "g_name (job_of s db l) = test_run l" "g_status (job_of s db l) = status_value (status l)"
    "g_assigned_segments (job_of s db l) = pieces db l"
  using job_of_served(2) [OF assms] by (simp_all add: job_shows_def)

lemma served_reported: "served s db l \<Longrightarrow> served s (reported_db s st m l db) (reported st m l)"
  unfolding reported_db_def by (rule served_after_save(1))

lemma put_status_served:
  assumes "fsm_lists (site_env s)" and "fsm_moves (site_env s)" and "served s db l" and "status_edge (status l) st"
  shows "put_status (site_operator s) st m (job_of s db l) ((db, c), igs) =
    (None, job_of s (reported_db s st m l db) (reported st m l), (reported_db s st m l db, c), igs)"
  using served_update [OF assms(1-3) job_of_served(2) [OF assms(3)], of st m]
    job_of_served(1) [OF served_reported [OF assms(3)]] assms(4)
  by (simp add: put_status_def on_world_def site_defs reported_db_def)

text \<open>
  A sequence of reports of one location: every one is a save of its row with a status one edge of
  the transition table further, and none sets it back to pending.
\<close>

inductive reports :: "'c site \<Rightarrow> string \<Rightarrow> database \<Rightarrow> status list \<Rightarrow> database \<Rightarrow> bool"
  for s :: "'c site" and n :: string where
  reports_none: "reports s n db [] db"
| reports_one: "reports s n db (st # sts) db'"
    if "served s db l" "test_run l = n" "status_edge (status l) st" "st \<noteq> PENDING" "reports s n (reported_db s st m l db) sts db'"

text \<open>
  What has become of the igniters: none is new but for the run \<open>n\<close>, and a new one waits for the start
  the run shows.
\<close>

definition starts_at :: "database \<Rightarrow> string \<Rightarrow> datetime \<Rightarrow> bool" where
  "starts_at db n t \<longleftrightarrow> (\<exists>r. find_run n db = Some r \<and> started_at r = Some t)"

definition igniters_from :: "database \<Rightarrow> string \<Rightarrow> igniters \<Rightarrow> igniters \<Rightarrow> bool" where
  "igniters_from db n igs igs' \<longleftrightarrow>
     (\<forall>k ig. igs' k = Some ig \<longrightarrow> igs k = Some ig \<or> k = n \<and> starts_at db n (ig_start_test_at ig))"

lemma igniters_from_simps [simp]: "igniters_from db n igs igs" "igniters_from db n igs (igs(m := None))"
  by (simp_all add: igniters_from_def)

lemma starts_at_reported:
  assumes "starts_at db k t"
  shows "starts_at (reported_db s st m l db) k t"
proof -
  obtain r where r: "find_run k db = Some r" "started_at r = Some t" using assms by (auto simp: starts_at_def)
  have "started_at (run_after t' l' db' r) = Some t" for t' l' db'
    using r(2) by (simp add: run_after_def start_run_def complete_run_def)
  with r(1) show ?thesis by (simp add: starts_at_def reported_db_def find_run_after_save)
qed

lemma starts_at_reports: "reports s n db sts db' \<Longrightarrow> starts_at db k t \<Longrightarrow> starts_at db' k t"
  by (induction rule: reports.induct) (simp_all add: starts_at_reported)

lemma in_cluster_db: "on_world (in_cluster m) ((db, c), igs) = (case m c of (r, c') \<Rightarrow> (r, (db, c'), igs))"
  by (auto simp: on_world_def in_cluster_def split: prod.split)

lemma site_calls:
  "on_world (kube_get (op_kube (site_operator s)) n) ((db, c), igs) =
     (case kube_get (site_kube s) n c of (r, c') \<Rightarrow> (r, (db, c'), igs))"
  "on_world (kube_update (op_kube (site_operator s)) obj) ((db, c), igs) =
     (case kube_update (site_kube s) obj c of (r, c') \<Rightarrow> (r, (db, c'), igs))"
  "on_world (kube_delete (op_kube (site_operator s)) n) ((db, c), igs) =
     (case kube_delete (site_kube s) n c of (r, c') \<Rightarrow> (r, (db, c'), igs))"
  "on_world (kube_pods (op_kube (site_operator s)) n) ((db, c), igs) =
     (case kube_pods (site_kube s) n c of (r, c') \<Rightarrow> (r, (db, c'), igs))"
  "op_now (site_operator s) = now (site_env s)" "op_lib (site_operator s) = site_lib s"
  by (simp_all add: site_operator_def cluster_client_def in_cluster_db)

text \<open>The stages of \<open>Reconcile\<close> on a row.\<close>

lemma running_served:
  assumes fsm: "fsm_lists (site_env s)" "fsm_moves (site_env s)" and served: "served s db l"
  shows "reconcile_running (site_operator s) (job_of s db l) obj ((db, c), igs) =
    (if status l = RUNNING \<and> kj_active obj = 0
     then let (st, m) = (if sint (kj_succeeded obj) = int (length (pieces db l))
              then (COMPLETED, ''Worker pods have successfully completed running k6 tests'')
              else (FAILED, ''Worker pods have failed running k6 tests''))
       in (None, (reported_db s st m l db, c), igs)
     else (None, (db, c), igs))"
  by (simp add: reconcile_running_def job_of_fields [OF served] put_status_served [OF fsm served])

lemma ready_served:
  assumes fsm: "fsm_lists (site_env s)" "fsm_moves (site_env s)" and served: "served s db l"
    and ig: "create_igniter (site_operator s) (job_of s db l) ((db, c), igs) = (r, (db, c'), igs')"
  shows "reconcile_ready (site_operator s) (job_of s db l) obj ((db, c), igs) =
    (if status l \<noteq> READY then reconcile_running (site_operator s) (job_of s db l) obj ((db, c), igs)
     else case r of
       Inl x \<Rightarrow> (Some x, (db, c'), igs')
     | Inr ig \<Rightarrow>
         (case ig_error ig of
            Some x \<Rightarrow> (None, (reported_db s FAILED (worker_pods_failed (error_text x)) l db, c'), igs')
          | None \<Rightarrow>
              if ig_started ig
              then let m = ''Worker pods are currently running k6 tests'' in
                reconcile_running (site_operator s) (job_of s (reported_db s RUNNING m l db) (reported RUNNING m l))
                  obj ((reported_db s RUNNING m l db, c'), igs')
              else (None, (db, c'), igs')))"
  using running_served [OF fsm served_reported [OF served]] running_served [OF fsm served]
  by (auto simp: reconcile_ready_def job_of_fields [OF served] ig put_status_served [OF fsm served] Let_def
      split: sum.split option.split)

lemma put_status_overwrites: "put_status op st m (job\<lparr>g_status := v\<rparr>) x = put_status op st m job x"
  by (simp add: put_status_def)

lemma missing_served:
  assumes "fsm_lists (site_env s)" and "fsm_moves (site_env s)" and "served s db l"
  shows "reconcile_missing (site_operator s) (job_of s db l) ((db, c), igs) =
    (None, (reported_db s FAILED ''Test was `failed` but no Kubernetes Job found'' l db, c), igs)"
  by (simp add: reconcile_missing_def Let_def status_value.simps put_status_overwrites put_status_served [OF assms])

lemma reconcile_served:
  assumes "served s db l"
  shows "reconcile (site_operator s) (test_run l) ((db, c), igs) =
    reconcile_job (site_operator s) (job_of s db l) (test_run l) ((db, c), igs)"
  using served_get [OF assms] job_of_served(1) [OF assms]
  by (simp add: reconcile_def on_world_def site_defs)

end
