(* ===== verification/Stages.thy ===== *)
theory Stages
  imports Workers
begin

text \<open>
  What a reconciliation does, stage by stage, proved once for every relation of the states before
  and after that the four things it can do keep to: to report a status of its row, to call the
  cluster about its run, to make an igniter with the start of the run, and to remove it.
\<close>

section \<open>Calls to the cluster\<close>

text \<open>
  The calls of a reconciliation of the run \<open>n\<close>: they name its Job, its disruption budget, its Telegraf
  secret or its pods, or update the Job they got under its name.
\<close>

inductive kube_step :: "'c kube_client \<Rightarrow> string \<Rightarrow> 'c \<Rightarrow> 'c \<Rightarrow> bool" for k :: "'c kube_client" and n :: string where
  kube_step_get: "kube_step k n c c'" if "kube_get k n c = (r, c')"
| kube_step_update: "kube_step k n c c'"
    if "kube_get k n c0 = (Inr obj, c1)" "kube_update k (obj\<lparr>kj_spec := spec\<rparr>) c = (r, c')"
| kube_step_delete: "kube_step k n c c'" if "kube_delete k n c = (r, c')"
| kube_step_job: "kube_step k n c c'" if "kube_sync_job k n f c = (r, c')"
| kube_step_secret: "kube_step k n c c'"
    if "sec_name sec = n @ ''-'' @ str_nat telegraf_config_version" "kube_create_secret k sec c = (r, c')"
| kube_step_budget: "kube_step k n c c'" if "kube_sync_budget k n f c = (r, c')"
| kube_step_pods: "kube_step k n c c'" if "kube_pods k n c = (r, c')"

section \<open>The stages of a reconciliation\<close>

locale stages = guarantee R for R :: "(database \<times> 'c) op_state \<Rightarrow> (database \<times> 'c) op_state \<Rightarrow> bool" +
  fixes s :: "'c site" and n :: string
  assumes R_report: "served s db l \<Longrightarrow> test_run l = n \<Longrightarrow> status_edge (status l) st \<Longrightarrow> st \<noteq> PENDING \<Longrightarrow>
      R ((db, c), igs) ((reported_db s st m l db, c), igs)"
    and R_cluster: "kube_step (site_kube s) n c c' \<Longrightarrow> R ((db, c), igs) ((db, c'), igs)"
    and R_made: "starts_at db n (ig_start_test_at ig) \<Longrightarrow> R ((db, c), igs) ((db, c), igs(n \<mapsto> ig))"
    and R_removed: "R ((db, c), igs) ((db, c), igs(n := None))"
begin

text \<open>After a first step.\<close>

lemma R_report_then:
  assumes "served s db l" and "test_run l = n" and "status_edge (status l) st" and "st \<noteq> PENDING"
    and "R ((reported_db s st m l db, c), igs) st'"
  shows "R ((db, c), igs) st'"
  using R_trans [OF R_report [OF assms(1-4)] assms(5)] .

lemma R_cluster_then:
  "kube_step (site_kube s) n c c' \<Longrightarrow> R ((db, c'), igs) st' \<Longrightarrow> R ((db, c), igs) st'"
  using R_trans [OF R_cluster] .

lemma running_stage:
  assumes fsm: "fsm_lists (site_env s)" "fsm_moves (site_env s)" and served: "served s db l" and n: "test_run l = n"
  shows "R ((db, c), igs) (snd (reconcile_running (site_operator s) (job_of s db l) obj ((db, c), igs)))"
proof -
  have "R ((db, c), igs) ((reported_db s st m l db, c), igs)" if "status l = RUNNING" "st \<in> {COMPLETED, FAILED}" for st m
    using that by (intro R_report [OF served n]) auto
  then show ?thesis by (simp add: running_served [OF fsm served] R_refl)
qed

lemma igniter_stage:
  assumes served: "served s db l" and n: "test_run l = n"
    and "create_igniter (site_operator s) (job_of s db l) ((db, c), igs) = (r, (db', c'), igs')"
  shows "db' = db \<and> R ((db, c), igs) ((db, c'), igs')"
proof -
  obtain x where x: "find_run n db = Some x" "g_start_test_at (g_test_run (job_of s db l)) = started_at x"
    using job_of_served(2) [OF served] n by (auto simp: job_shows_def)
  have made: "R ((db, c), igs) ((db, c1), igs(n \<mapsto> ig))"
    if "kube_pods (site_kube s) n c = (Inr ps, c1)" "started_at x = Some (ig_start_test_at ig)" for ps c1 ig
    using that(2) x(1) by (intro R_cluster_then [OF kube_step_pods [OF that(1)] R_made]) (auto simp: starts_at_def)
  have pods: "R ((db, c), igs) ((db, c1), igs)" if "kube_pods (site_kube s) n c = (r, c1)" for r c1
    using R_cluster [OF kube_step_pods [OF that]] .
  show ?thesis
    using assms(3) x(2) made pods
    by (auto simp: create_igniter_def job_of_fields [OF served] n Let_def site_operator_def cluster_client_def
        in_cluster_def R_refl split: option.splits if_splits sum.splits prod.splits)
qed

lemma ready_stage:
  assumes fsm: "fsm_lists (site_env s)" "fsm_moves (site_env s)" and served: "served s db l" and n: "test_run l = n"
  shows "R ((db, c), igs) (snd (reconcile_ready (site_operator s) (job_of s db l) obj ((db, c), igs)))"
proof -
  obtain r db' c' igs' where ig': "create_igniter (site_operator s) (job_of s db l) ((db, c), igs) = (r, (db', c'), igs')"
    by (metis prod.exhaust)
  then have ig: "create_igniter (site_operator s) (job_of s db l) ((db, c), igs) = (r, (db, c'), igs')"
    and made: "R ((db, c), igs) ((db, c'), igs')"
    using igniter_stage [OF served n] by auto
  have "R ((db, c), igs) (snd (reconcile_running (site_operator s)
      (job_of s (reported_db s RUNNING m l db) (reported RUNNING m l)) obj ((reported_db s RUNNING m l db, c'), igs')))"
    if "status l = READY" for m
    using running_stage [OF fsm served_reported [OF served], of RUNNING m] that n
    by (intro R_trans [OF made R_report_then [OF served n, of RUNNING m]]) simp_all
  moreover have "R ((db, c), igs) ((reported_db s FAILED m l db, c'), igs')" for m
    by (intro R_trans [OF made R_report [OF served n]]) simp_all
  ultimately show ?thesis
    using running_stage [OF fsm served n] made
    by (auto simp: ready_served [OF fsm served ig] Let_def split: sum.split option.split)
qed

lemma queued_stage:
  assumes fsm: "fsm_lists (site_env s)" "fsm_moves (site_env s)" and served: "served s db l" and n: "test_run l = n"
  shows "R ((db, c), igs) (snd (reconcile_queued (site_operator s) (job_of s db l) obj ((db, c), igs)))"
proof -
  obtain r c' where pods: "kube_pods (site_kube s) n c = (r, c')" by fastforce
  note call = R_cluster_then [OF kube_step_pods [OF pods]]
  have "R ((db, c), igs) (snd (reconcile_ready (site_operator s)
      (job_of s (reported_db s READY m l db) (reported READY m l)) obj ((reported_db s READY m l db, c'), igs)))"
    if "status l = QUEUED" for m
    using ready_stage [OF fsm served_reported [OF served], of READY m] that n
    by (intro call [OF R_report_then [OF served n, of READY m]]) simp_all
  then show ?thesis
    using ready_stage [OF fsm served n] call [OF ready_stage [OF fsm served n]] call [OF R_refl]
    by (auto simp: reconcile_queued_def job_of_fields [OF served] n site_calls pods put_status_served [OF fsm served]
        split: sum.split)
qed

lemma pending_stage:
  assumes fsm: "fsm_lists (site_env s)" "fsm_moves (site_env s)" and served: "served s db l" and n: "test_run l = n"
  shows "R ((db, c), igs) (snd (reconcile_pending (site_operator s) (job_of s db l) obj ((db, c), igs)))"
proof -
  have "R ((db, c), igs) (snd (reconcile_queued (site_operator s)
      (job_of s (reported_db s QUEUED m l db) (reported QUEUED m l)) obj ((reported_db s QUEUED m l db, c), igs)))"
    if "status l = PENDING" for m
    using queued_stage [OF fsm served_reported [OF served], of QUEUED m] that n
    by (intro R_report_then [OF served n, of QUEUED m]) simp_all
  then show ?thesis
    using queued_stage [OF fsm served n]
    by (auto simp: reconcile_pending_def job_of_fields [OF served] put_status_served [OF fsm served])
qed

lemma object_stage:
  assumes fsm: "fsm_lists (site_env s)" "fsm_moves (site_env s)" and served: "served s db l" and n: "test_run l = n"
  shows "R ((db, c), igs) (snd (reconcile_object (site_operator s) (job_of s db l) obj ((db, c), igs)))"
  using pending_stage [OF assms] R_report [OF served n, of FAILED]
  by (auto simp: reconcile_object_def put_status_served [OF fsm served] split: option.split)

lemma create_stage:
  assumes fsm: "fsm_lists (site_env s)" "fsm_moves (site_env s)" and served: "served s db l" and n: "test_run l = n"
  shows "R ((db, c), igs) (snd (reconcile_create (site_operator s) (job_of s db l) ((db, c), igs)))"
proof -
  let ?job = "job_of s db l"
  obtain r1 c1 where 1: "kube_sync_job (site_kube s) n (mutate_job (site_lib s) ?job) c = (r1, c1)" by fastforce
  note call1 = R_cluster_then [OF kube_step_job [OF 1]]
  show ?thesis
  proof (cases r1)
    case (Inl x)
    with 1 show ?thesis
      using call1 [OF R_report [OF served n, of FAILED]]
      by (simp add: reconcile_create_def sync_job_def on_world_def site_defs job_of_fields [OF served] n
          put_status_served [OF fsm served, unfolded site_defs])
  next
    case (Inr obj)
    have name: "sec_name (telegraf_secret ?job obj) = n @ ''-'' @ str_nat telegraf_config_version"
      by (simp add: telegraf_secret_def telegraf_secret_name_def job_of_fields [OF served] n)
    obtain r2 c2 where 2: "kube_create_secret (site_kube s) (telegraf_secret ?job obj) c1 = (r2, c2)" by fastforce
    note call2 = R_cluster_then [OF kube_step_secret [OF name 2]]
    obtain r3 c3 where 3: "kube_sync_budget (site_kube s) n (mutate_budget ?job obj) c2 = (r3, c3)" by fastforce
    note call3 = R_cluster_then [OF kube_step_budget [OF 3]]
    have "reconcile_create (site_operator s) ?job ((db, c), igs) =
      (case r2 of Inl x \<Rightarrow> if kube_already_exists x
           then (case r3 of Inl y \<Rightarrow> (Some y, (db, c3), igs) | Inr _ \<Rightarrow> reconcile_object (site_operator s) ?job obj ((db, c3), igs))
           else (Some x, (db, c2), igs)
       | Inr _ \<Rightarrow> (case r3 of Inl y \<Rightarrow> (Some y, (db, c3), igs) | Inr _ \<Rightarrow> reconcile_object (site_operator s) ?job obj ((db, c3), igs)))"
      using 1 2 3 Inr
      by (simp add: reconcile_create_def sync_job_def sync_telegraf_config_def sync_pod_disruption_budget_def
          on_world_def site_defs job_of_fields [OF served] n split: sum.split)
    then show ?thesis
      using call1 [OF call2 [OF call3 [OF object_stage [OF assms]]]] call1 [OF call2 [OF call3 [OF R_refl]]]
        call1 [OF call2 [OF R_refl]]
      by (simp split: sum.split)
  qed
qed

lemma job_stage:
  assumes fsm: "fsm_lists (site_env s)" "fsm_moves (site_env s)" and served: "served s db l" and n: "test_run l = n"
  shows "R ((db, c), igs) (snd (reconcile_job (site_operator s) (job_of s db l) n ((db, c), igs)))"
proof -
  obtain r c' where get: "kube_get (site_kube s) n c = (r, c')" by fastforce
  note call = R_cluster_then [OF kube_step_get [OF get]]
  have "R ((db, c), igs) (snd (suspend_job (site_operator s) (job_of s db l) obj ((db, c'), igs)))" if "r = Inr obj" for obj
  proof -
    let ?obj = "obj\<lparr>kj_spec := (kj_spec obj)\<lparr>js_suspend := Some True\<rparr>\<rparr>"
    obtain u c2 where u: "kube_update (site_kube s) ?obj c' = (u, c2)" by fastforce
    have "kube_get (site_kube s) n c = (Inr obj, c')" using get that by simp
    from call [OF R_cluster_then [OF kube_step_update [OF this u] R_removed]] call [OF R_removed] u
    show ?thesis
      by (auto simp: suspend_job_def site_calls remove_igniter_def job_of_fields [OF served] n split: sum.split)
  qed
  then show ?thesis
    using call [OF create_stage [OF assms]] call [OF object_stage [OF assms]] call [OF R_report [OF served n, of FAILED]]
      call [OF R_refl] call [OF R_removed] R_removed
    by (auto simp: reconcile_job_def job_of_fields [OF served] n site_calls get remove_igniter_def
        missing_served [OF fsm served] split: sum.split)
qed

text \<open>A whole reconciliation, of a row it serves or not.\<close>

lemma reconcile_stage:
  assumes fsm: "fsm_lists (site_env s)" "fsm_moves (site_env s)" and wf: "wf_db db"
  shows "R ((db, c), igs) (snd (reconcile (site_operator s) n ((db, c), igs)))"
proof -
  obtain r c' where "kube_delete (site_kube s) n c = (r, c')" by fastforce
  then have gone: "R ((db, c), igs) (snd (reconcile (site_operator s) n ((db, c), igs)))"
    if "web_get (site_reverse s) (site_parsers s) (site_region s) n db = (Inl x, db)" for x
    using that R_cluster [OF kube_step_delete]
    by (auto simp: reconcile_def on_world_def site_defs R_refl split: sum.split)
  show ?thesis
  proof (cases "route_location (site_region s)")
    case False
    then show ?thesis using gone by (simp add: web_get_def)
  next
    case region: True
    let ?q = "web_request (site_region s) n"
    show ?thesis
    proof (rule jobs_get_object_cases [OF wf, of ?q])
      assume "jobs_get_object ?q db = (Inl Http404, db)"
      then show ?thesis using region gone by (simp add: web_get_def retrieve_job_def bindp_def)
    next
      fix l
      assume found: "jobs_get_object ?q db = (Inr l, db)" and l: "l \<in> set (jobs_get_queryset ?q db)"
        and "q_name ?q = Some (test_run l)"
      then have n: "test_run l = n" by (simp add: web_request_def)
      from l have row: "l \<in> set (tbl_run_location db)" "location l = site_region s" "\<not> run_is_draft db l"
        by (simp_all add: jobs_get_queryset_iff web_request_def)
      have get: "web_get (site_reverse s) (site_parsers s) (site_region s) n db =
          (web_job (site_reverse s) (site_parsers s) l db, db)"
        using region found job_repr_state [of "site_reverse s" l db]
        by (auto simp: web_get_def retrieve_job_def bindp_def web_job_def split: sum.split prod.split)
      show ?thesis
      proof (cases "row_readable s db l")
        case True
        with wf row region have "served s db l" by (simp add: served_def)
        then show ?thesis using job_stage [OF fsm _ n] reconcile_served [of s db l] n by simp
      next
        case False
        with web_job_readable(2) [OF wf row(1)] get gone show ?thesis by auto
      qed
    qed
  qed
qed

end

section \<open>Reports of the own row\<close>

definition only_reports :: "'c site \<Rightarrow> string \<Rightarrow> (database \<times> 'c) op_state \<Rightarrow> (database \<times> 'c) op_state \<Rightarrow> bool" where
  "only_reports s n st st' \<longleftrightarrow>
     (\<exists>sts. reports s n (fst (fst st)) sts (fst (fst st'))) \<and> igniters_from (fst (fst st')) n (snd st) (snd st')"

lemma reports_trans: "reports s n a sts b \<Longrightarrow> reports s n b sts' d \<Longrightarrow> reports s n a (sts @ sts') d"
  by (induction rule: reports.induct) (auto intro: reports_one)

lemma only_reports_trans: "only_reports s n x y \<Longrightarrow> only_reports s n y z \<Longrightarrow> only_reports s n x z"
proof -
  assume "only_reports s n x y" and "only_reports s n y z"
  then obtain sts sts' where sts: "reports s n (fst (fst x)) sts (fst (fst y))" "reports s n (fst (fst y)) sts' (fst (fst z))"
    and igs: "igniters_from (fst (fst y)) n (snd x) (snd y)" "igniters_from (fst (fst z)) n (snd y) (snd z)"
    by (auto simp: only_reports_def)
  have "igniters_from (fst (fst z)) n (snd x) (snd z)"
    using igs starts_at_reports [OF sts(2)] unfolding igniters_from_def by blast
  then show "only_reports s n x z" using reports_trans [OF sts] by (auto simp: only_reports_def)
qed

interpretation acts: stages "only_reports s n" s n for s n
proof
  show "only_reports s n st st" for st :: "(database \<times> 'a) op_state"
    by (auto simp: only_reports_def intro: reports_none)
  show "only_reports s n x z" if "only_reports s n x y" "only_reports s n y z" for x y z :: "(database \<times> 'a) op_state"
    using that by (rule only_reports_trans)
  show "only_reports s n ((db, c), igs) ((reported_db s st m l db, c), igs)"
    if "served s db l" "test_run l = n" "status_edge (status l) st" "st \<noteq> PENDING" for db l st c igs m
    using reports_one [OF that reports_none] by (auto simp: only_reports_def)
  show "only_reports s n ((db, c), igs) ((db, c), igs(n \<mapsto> ig))" if "starts_at db n (ig_start_test_at ig)" for db c ig igs
    using that by (auto simp: only_reports_def igniters_from_def intro: reports_none)
qed (auto simp: only_reports_def intro: reports_none)

lemma reports_wf: "reports s n db sts db' \<Longrightarrow> wf_db db \<Longrightarrow> wf_db db'"
proof (induction rule: reports.induct)
  case (reports_one db l st m sts db')
  have "stored_at db (reported st m l)" using reports_one.hyps(1) by (auto simp: stored_at_def served_def)
  from wf_after_save [OF reports_one.prems save_stored_row [OF reports_one.prems this]] reports_one.IH
  show ?case by (simp add: reported_db_def)
qed simp

lemma reconcile_reports:
  assumes "fsm_lists (site_env s)" and "fsm_moves (site_env s)" and "wf_db db"
  shows "only_reports s n ((db, c), igs) (snd (reconcile (site_operator s) n ((db, c), igs)))"
  using assms by (rule acts.reconcile_stage)

section \<open>Runs apart\<close>

text \<open>A report changes no other run and none of its rows.\<close>

lemma reported_others_kept:
  assumes "served s db l"
  shows "others_kept (test_run l) db (reported_db s st m l db)"
proof -
  have wf: "wf_db db" and row: "l \<in> set (tbl_run_location db)" using assms by (simp_all add: served_def)
  let ?l = "reported st m l"
  let ?f = "\<lambda>x. if pk x = pk l then ?l else if st = FAILED then auto_cancel (test_run l) (auto_cancel_message ?l) x else x"
  have "find_run k (reported_db s st m l db) = find_run k db" if "k \<noteq> test_run l" for k
    using that by (cases "find_run k db") (auto simp: reported_db_def find_run_after_save run_after_def dest: find_run_row)
  moreover have "locations_of k (reported_db s st m l db) = locations_of k db" if k: "k \<noteq> test_run l" for k
  proof -
    have rows: "tbl_run_location (reported_db s st m l db) = map ?f (tbl_run_location db)"
      using after_save_stored_rows [OF wf row, of ?l] by (simp add: reported_db_def)
    have run: "test_run (?f x) = test_run x" if "x \<in> set (tbl_run_location db)" for x
      using row_identity(1) [OF wf that row] by (auto simp: auto_cancel_def)
    have "?f x = x" if "x \<in> set (tbl_run_location db)" "test_run x = k" for x
      using row_identity(1) [OF wf that(1) row] that(2) k by (auto simp: auto_cancel_def)
    then have "map ?f (locations_of k db) = locations_of k db" by (intro map_idI) (auto simp: locations_of_def)
    moreover have "locations_of k (reported_db s st m l db) = map ?f (locations_of k db)"
      unfolding locations_of_def rows filter_map using run by (simp add: comp_def cong: filter_cong)
    ultimately show ?thesis by simp
  qed
  ultimately show ?thesis by (simp add: others_kept_def)
qed

text \<open>
  \<open>seen c m\<close> is what a cluster in the state \<open>c\<close> has of the run \<open>m\<close>. That the calls about one run do not
  touch the objects of another one is what Kubernetes promises.
\<close>

definition confined :: "('c \<Rightarrow> string \<Rightarrow> 'o) \<Rightarrow> string \<Rightarrow> 'c kube_client \<Rightarrow> bool" where
  "confined seen n k \<longleftrightarrow> (\<forall>c c' m. kube_step k n c c' \<and> m \<noteq> n \<longrightarrow> seen c' m = seen c m)"

definition apart ::
  "('c \<Rightarrow> string \<Rightarrow> 'o) \<Rightarrow> 'c site \<Rightarrow> string \<Rightarrow> (database \<times> 'c) op_state \<Rightarrow> (database \<times> 'c) op_state \<Rightarrow> bool" where
  "apart seen s n st st' \<longleftrightarrow>
     others_kept n (fst (fst st)) (fst (fst st')) \<and> (\<forall>m. m \<noteq> n \<longrightarrow> snd st' m = snd st m) \<and>
     (confined seen n (site_kube s) \<longrightarrow> (\<forall>m. m \<noteq> n \<longrightarrow> seen (snd (fst st')) m = seen (snd (fst st)) m))"

interpretation others: stages "apart seen s n" s n for seen s n
proof
  show "apart seen s n x z" if "apart seen s n x y" "apart seen s n y z" for x y z
    using that others_kept_trans by (auto simp: apart_def)
  show "apart seen s n ((db, c), igs) ((reported_db s st m l db, c), igs)"
    if "served s db l" "test_run l = n" for db l st c igs m
    using reported_others_kept [OF that(1)] that(2) by (simp add: apart_def)
qed (auto simp: apart_def others_kept_def confined_def)

end
