(* ===== verification/Operation.thy ===== *)
theory Operation
  imports Stages
begin

text \<open>
  What the operator of a location does to the database of the web application and what it
  observes of it: the properties of the theories GoApi to Stages, with a small concrete
  cluster for the examples.
\<close>

section \<open>A concrete site\<close>

text \<open>A cluster with at most one Job, two pods that have long been ready, and no failures.\<close>

definition sample_pods :: "pod list" where
  "sample_pods =
     [\<lparr>pod_name = ''shop-a1-0'', pod_conditions = [(''Ready'', ''True'', 0)]\<rparr>,
      \<lparr>pod_name = ''shop-a1-1'', pod_conditions = [(''Ready'', ''True'', 0)]\<rparr>]"

definition sample_kube :: "kube_job option kube_client" where
  "sample_kube =
     \<lparr>kube_get = (\<lambda>n c. (case c of None \<Rightarrow> Inl (KubeNotFound ''not found'') | Some obj \<Rightarrow> Inr obj, c)),
      kube_update = (\<lambda>obj c. (Inr obj, Some obj)),
      kube_delete = (\<lambda>n c. (case c of None \<Rightarrow> Inl (KubeNotFound ''not found'') | Some _ \<Rightarrow> Inr (), None)),
      kube_sync_job = (\<lambda>n f c. let obj = f (case c of None \<Rightarrow> new_kube_job n | Some obj \<Rightarrow> obj) in (Inr obj, Some obj)),
      kube_create_secret = (\<lambda>sec c. (Inr (), c)),
      kube_sync_budget = (\<lambda>n f c. (Inr (), c)),
      kube_pods = (\<lambda>n c. (Inr sample_pods, c)),
      kube_unpause = (\<lambda>n c. (Inr (), c))\<rparr>"

definition sample_lib :: libraries where
  "sample_lib =
     \<lparr>quote_command = py_join '' '',
      upsert_env_vars = (\<lambda>env new. fold (\<lambda>v env. upsert ev_name v env) new env),
      upsert_volume = (\<lambda>vs v. vs @ [v]), upsert_container = (\<lambda>cs c. cs @ [c]),
      range_map = (\<lambda>m. []), k6_image = ''ghcr.io/reviewsignal/orderly-ape/k6:latest'',
      telegraf_image = ''telegraf:1.31.1-alpine'', operator_location = ''eu''\<rparr>"

definition sample_site :: "datetime \<Rightarrow> kube_job option site" where
  "sample_site t =
     \<lparr>site_env = sample_env t, site_reverse = (\<lambda>loc n. Inr (''/'' @ loc @ ''/'' @ n)),
      site_parsers = \<lparr>parse_duration = (\<lambda>d. if d = ''1h'' then Some 3600000000000 else None),
        quantity_ok = (\<lambda>q. q \<noteq> '''')\<rparr>,
      site_region = ''eu'', site_kube = sample_kube, site_lib = sample_lib\<rparr>"

lemma sample_site_laws: "fsm_lists (site_env (sample_site t))" "fsm_moves (site_env (sample_site t))"
  using sample_env_laws(2,3) by (simp_all add: sample_site_def)

lemma sample_served:
  "served (sample_site t) (sample_db False s1 s2) (sample_row 4 ''eu'' 2 s1)"
proof -
  have "find_run ''shop-a1'' (sample_db False s1 s2) = Some (sample_run False)"
    by (simp add: find_run_def by_key_def sample_db_def sample_run_def)
  moreover have "run_readable (site_parsers (sample_site t)) (sample_run False)"
    by (simp add: run_readable_def sample_site_def sample_run_def new_test_run_def selector_word_def)
  moreover have "route_location ''eu''" by (simp add: route_location_def route_char_def)
  ultimately show ?thesis
    using sample_db_wf
    by (simp add: served_def row_readable_def run_is_draft_def sample_db_def sample_row_def sample_run_def
        new_test_run_def new_test_run_location_def sample_site_def fits_int32_def)
qed

section \<open>Properties\<close>

text \<open>
  C7. The operator keeps to the rules of the web application: whatever its cluster answers and
  whatever state its igniters are in, a reconciliation changes the database by a sequence of
  reports of its own row only, each one edge of the transition table further and none of them a
  retry, and the database stays well formed.
\<close>

theorem reconcile_keeps_rules:
  assumes "fsm_lists (site_env s)" and "fsm_moves (site_env s)" and "wf_db db"
  shows "\<exists>sts. reports s n db sts (fst (fst (snd (reconcile (site_operator s) n ((db, c), igs))))) \<and>
    wf_db (fst (fst (snd (reconcile (site_operator s) n ((db, c), igs)))))"
  using reconcile_reports [OF assms, where n = n and c = c and igs = igs] reports_wf [OF _ assms(3)] by (auto simp: only_reports_def)

theorem reconcile_keeps_rules_witness:
  "wf_db (fst (fst (snd (reconcile (site_operator (sample_site 0)) ''shop-a1'' ((sample_db False PENDING READY, None), Map.empty)))))"
  using reconcile_keeps_rules [OF sample_site_laws sample_db_wf] by blast

text \<open>
  C8. The operator keeps runs apart. Whatever the web application and the cluster answer, a
  reconciliation of one run changes no other run, none of its rows and none of its igniters; and, as
  far as Kubernetes confines calls to the objects they name, nothing of another run in the cluster.
\<close>

theorem reconcile_isolated:
  assumes "fsm_lists (site_env s)" and "fsm_moves (site_env s)" and "wf_db db" and "confined seen n (site_kube s)"
    and "reconcile (site_operator s) n ((db, c), igs) = (x, (db', c'), igs')" and "m \<noteq> n"
  shows "find_run m db' = find_run m db \<and> locations_of m db' = locations_of m db \<and> igs' m = igs m \<and> seen c' m = seen c m"
  using others.reconcile_stage [OF assms(1-3), of seen n c igs] assms(4-6) by (simp add: apart_def others_kept_def)

text \<open>A cluster with a shelf for the Job of every run.\<close>

definition shelf_kube :: "(string \<rightharpoonup> kube_job) kube_client" where
  "shelf_kube =
     \<lparr>kube_get = (\<lambda>n c. (case c n of None \<Rightarrow> Inl (KubeNotFound ''not found'') | Some obj \<Rightarrow> Inr (obj\<lparr>kj_name := n\<rparr>), c)),
      kube_update = (\<lambda>obj c. (Inr obj, c(kj_name obj \<mapsto> obj))),
      kube_delete = (\<lambda>n c. (case c n of None \<Rightarrow> Inl (KubeNotFound ''not found'') | Some _ \<Rightarrow> Inr (), c(n := None))),
      kube_sync_job = (\<lambda>n f c. let obj = f (case c n of None \<Rightarrow> new_kube_job n | Some obj \<Rightarrow> obj) in (Inr obj, c(n \<mapsto> obj))),
      kube_create_secret = (\<lambda>sec c. (Inr (), c)), kube_sync_budget = (\<lambda>n f c. (Inr (), c)),
      kube_pods = (\<lambda>n c. (Inr sample_pods, c)), kube_unpause = (\<lambda>n c. (Inr (), c))\<rparr>"

lemma shelf_confined: "confined (\<lambda>c m. c m) n shelf_kube"
  unfolding confined_def by (auto elim!: kube_step.cases simp: shelf_kube_def Let_def split: option.splits)

definition shelf_site :: "(string \<rightharpoonup> kube_job) site" where
  "shelf_site =
     \<lparr>site_env = sample_env 0, site_reverse = site_reverse (sample_site 0), site_parsers = site_parsers (sample_site 0),
      site_region = ''eu'', site_kube = shelf_kube, site_lib = sample_lib\<rparr>"

theorem reconcile_isolated_witness:
  "\<exists>x db' c' igs'. reconcile (site_operator shelf_site) ''shop-a1''
      ((sample_db False PENDING READY, [''shop-b2'' \<mapsto> new_kube_job ''shop-b2'']), Map.empty) = (x, (db', c'), igs') \<and>
    c' ''shop-b2'' = Some (new_kube_job ''shop-b2'')"
proof -
  let ?c = "[''shop-b2'' \<mapsto> new_kube_job ''shop-b2'']"
  obtain x db' c' igs' where run: "reconcile (site_operator shelf_site) ''shop-a1''
      ((sample_db False PENDING READY, ?c), Map.empty) = (x, (db', c'), igs')" by (metis prod.exhaust)
  have laws: "fsm_lists (site_env shelf_site)" "fsm_moves (site_env shelf_site)"
    using sample_env_laws(2,3) by (simp_all add: shelf_site_def)
  have "confined (\<lambda>c m. c m) ''shop-a1'' (site_kube shelf_site)" using shelf_confined by (simp add: shelf_site_def)
  from reconcile_isolated [OF laws sample_db_wf this run, of "''shop-b2''"] run show ?thesis by simp
qed

lemma web_update_refused:
  assumes fsm: "fsm_lists (site_env s)" "fsm_moves (site_env s)" and served: "served s db l"
    and job: "job_shows db l job" and edge: "st \<noteq> status l" "\<not> status_edge (status l) st"
  shows "web_update (site_env s) (site_reverse s) (site_parsers s) (site_region s)
    (job\<lparr>g_status := status_value st, g_status_description := m\<rparr>) db = (Inl (StatusError 400), db)"
proof -
  let ?job = "job\<lparr>g_status := status_value st, g_status_description := m\<rparr>"
  let ?q = "web_request (site_region s) (test_run l)" and ?d = "job_body ?job st"
  have wf: "wf_db db" and fits: "fits_int32 (num_workers l)" "fits_int32 (online_workers l)"
    using served by (auto simp: served_def row_readable_def)
  have found: "jobs_get_object ?q db = (Inr l, db)" using served by (rule served_found)
  have "validate_data (site_env s) l ?d = Inl (ValidationError (invalid_status_message (status l) st))"
    using edge by (simp add: validate_data_def job_body_def validate_status_iff [OF fsm(1)])
  then have "put_job (site_env s) ?q ?d db = (Inl (ValidationError (invalid_status_message (status l) st)), db)"
    by (simp add: put_job_def bindp_def found of_result_def)
  moreover have "route_location (site_region s)" using served by (simp add: served_def)
  ultimately show ?thesis using job fits by (simp add: web_update_def job_shows_def sint_of_int32)
qed

text \<open>
  C19. What an operator reads it can write back with another status: the job of a row it serves is
  decoded, and the update with a new status and description is accepted exactly for the same status or
  one edge of the transition table. Then the whole detour over the job, its numbers as 32-bit
  integers included, changes the status and the description of the row and nothing else of it,
  and the answer is the job of the row as it now is; otherwise nothing is written.
\<close>

theorem operator_update_accepted:
  assumes "fsm_lists (site_env s)" and "fsm_moves (site_env s)" and "served s db l"
  shows "\<exists>job. web_get (site_reverse s) (site_parsers s) (site_region s) (test_run l) db = (Inr job, db) \<and>
    job_shows db l job \<and>
    (\<forall>st m. let res = web_update (site_env s) (site_reverse s) (site_parsers s) (site_region s)
          (job\<lparr>g_status := status_value st, g_status_description := m\<rparr>) db
      in if st = status l \<or> status_edge (status l) st
         then (\<exists>job'. res = (Inr job', after_save (now (site_env s)) (reported st m l) db) \<and>
           job_shows (snd res) (reported st m l) job')
         else res = (Inl (StatusError 400), db))"
proof (intro exI conjI allI)
  let ?job = "job_of s db l"
  show "web_get (site_reverse s) (site_parsers s) (site_region s) (test_run l) db = (Inr ?job, db)"
    using served_get [OF assms(3)] job_of_served(1) [OF assms(3)] by simp
  show shows_job: "job_shows db l ?job" by (rule job_of_served(2) [OF assms(3)])
  fix st m
  have "served s (reported_db s st m l db) (reported st m l)" by (rule served_reported [OF assms(3)])
  note job' = job_of_served [OF this]
  show "let res = web_update (site_env s) (site_reverse s) (site_parsers s) (site_region s)
          (?job\<lparr>g_status := status_value st, g_status_description := m\<rparr>) db
      in if st = status l \<or> status_edge (status l) st
         then (\<exists>job'. res = (Inr job', after_save (now (site_env s)) (reported st m l) db) \<and>
           job_shows (snd res) (reported st m l) job')
         else res = (Inl (StatusError 400), db)"
  proof (cases "st = status l \<or> status_edge (status l) st")
    case True
    from served_update [OF assms shows_job True, of m] True job' show ?thesis
      by (simp only: reported_db_def Let_def if_True snd_conv) blast
  next
    case False
    with web_update_refused [OF assms shows_job, of st m] show ?thesis by simp
  qed
qed

theorem operator_update_accepted_witness:
  "\<exists>job. web_get (site_reverse (sample_site 0)) (site_parsers (sample_site 0)) ''eu'' ''shop-a1''
      (sample_db False PENDING READY) = (Inr job, sample_db False PENDING READY) \<and> g_workers job = 2"
  using operator_update_accepted [OF sample_site_laws sample_served, of 0 PENDING READY]
  by (auto simp: job_shows_def sample_site_def sample_row_def new_test_run_location_def)

text \<open>
  C25. One run whose configuration a client cannot decode (a node selector that is no list of
  key=value pairs, a deadline or quantity Go does not read) hides every job of its location: the
  poll of the operator gives exactly the jobs of the runs that are no drafts and have not completed
  or failed, if every one of its location can be decoded, and none at all otherwise.
\<close>

theorem poll_all_or_nothing:
  assumes "wf_db db" and "route_location (site_region s)"
  shows "poll (site_operator s) (db, c) =
    (let rows = filter (\<lambda>l. location l = site_region s \<and> \<not> run_is_draft db l) (tbl_run_location db)
     in if list_all (row_readable s db) rows
        then map test_run (filter (\<lambda>l. status l \<noteq> COMPLETED \<and> status l \<noteq> FAILED) rows)
        else [], (db, c))"
proof -
  let ?rev = "site_reverse s" and ?p = "site_parsers s"
  let ?rows = "filter (\<lambda>l. location l = site_region s \<and> \<not> run_is_draft db l) (tbl_run_location db)"
  let ?names = "\<lambda>ls. map test_run (filter (\<lambda>l. status l \<noteq> COMPLETED \<and> status l \<noteq> FAILED) ls)"
  let ?res = "\<lambda>ls. case map_prog (job_repr ?rev) ls db of (Inl x, db') \<Rightarrow> (Inl (StatusError (http_status x)), db')
      | (Inr js, db') \<Rightarrow> (decode_jobs ?p js, db')"
  have query: "jobs_get_queryset \<lparr>q_all = False, q_location = Some (site_region s), q_name = None\<rparr> db = ?rows"
    by (auto simp: jobs_get_queryset_def Let_def intro: filter_cong)
  have rows: "if list_all (row_readable s db) ls
      then \<exists>gs. ?res ls = (Inr gs, db) \<and> map g_name (filter job_is_watched gs) = ?names ls
      else \<exists>x. ?res ls = (Inl x, db)" if "set ls \<subseteq> set (tbl_run_location db)" for ls
    using that
  proof (induction ls)
    case (Cons l ls)
    then have l: "l \<in> set (tbl_run_location db)" by simp
    obtain j where "job_repr ?rev l db = (j, db)" using job_repr_state [of ?rev l db] by (metis prod.collapse)
    moreover obtain js where "map_prog (job_repr ?rev) ls db = (js, db)"
      using map_prog_state [of "job_repr ?rev" ls db] job_repr_state [of ?rev] by (metis prod.collapse)
    moreover have "job_shows db l job \<Longrightarrow> g_name job = test_run l \<and>
        (job_is_watched job \<longleftrightarrow> status l \<noteq> COMPLETED \<and> status l \<noteq> FAILED)" for job
      by (simp add: job_shows_def job_is_watched_def)
    ultimately show ?case
      using Cons web_job_readable [OF assms(1) l, of s]
      by (cases "row_readable s db l")
        (auto simp: bindp_def ret_def web_job_def split: sum.splits if_splits)
  qed (simp add: ret_def)
  from rows [of ?rows] show ?thesis
    using assms(2)
    by (auto simp: poll_def site_defs web_list_def list_jobs_def query bindp_def reads_def Let_def
        split: if_splits sum.splits prod.splits)
qed

text \<open>Two runs at a location, one with a node selector that is no list of pairs.\<close>

definition sample_two_runs :: "string \<Rightarrow> database" where
  "sample_two_runs sel =
     (sample_db False PENDING PENDING)
       \<lparr>tbl_test_run := [(sample_run False)\<lparr>node_selector := sel\<rparr>,
          (sample_run False)\<lparr>pk := Some 8, name := ''shop-b2''\<rparr>],
        tbl_run_location := [sample_row 4 ''eu'' 2 PENDING, (new_test_run_location ''shop-b2'' ''eu'')\<lparr>pk := Some 6\<rparr>]\<rparr>"

theorem poll_all_or_nothing_witness:
  "poll (site_operator (sample_site 0)) (sample_two_runs ''disk=ssd'', None) =
     ([''shop-a1'', ''shop-b2''], (sample_two_runs ''disk=ssd'', None)) \<and>
   poll (site_operator (sample_site 0)) (sample_two_runs ''ssd'', None) = ([], (sample_two_runs ''ssd'', None))"
proof -
  have wf: "wf_db (sample_two_runs sel)" for sel
    using sample_db_wf [of False PENDING PENDING]
    by (simp add: wf_db_def sample_two_runs_def sample_defs keyed_rows_def named_rows_def placed_def)
  have route: "route_location (site_region (sample_site 0))"
    by (simp add: sample_site_def route_location_def route_char_def)
  have rows: "filter (\<lambda>l. location l = site_region (sample_site 0) \<and> \<not> run_is_draft (sample_two_runs sel) l)
      (tbl_run_location (sample_two_runs sel)) =
      [sample_row 4 ''eu'' 2 PENDING, (new_test_run_location ''shop-b2'' ''eu'')\<lparr>pk := Some 6\<rparr>]" for sel
    by (simp add: sample_two_runs_def run_is_draft_def sample_defs sample_site_def)
  have find: "find_run ''shop-a1'' (sample_two_runs sel) = Some ((sample_run False)\<lparr>node_selector := sel\<rparr>)"
    "find_run ''shop-b2'' (sample_two_runs sel) = Some ((sample_run False)\<lparr>pk := Some 8, name := ''shop-b2''\<rparr>)" for sel
    by (simp_all add: find_run_def by_key_def sample_two_runs_def sample_run_def)
  have readable: "run_readable (site_parsers (sample_site 0)) ((sample_run False)\<lparr>node_selector := sel\<rparr>) \<longleftrightarrow>
      list_all selector_word (go_split (CHR '' '') sel)"
    "run_readable (site_parsers (sample_site 0)) ((sample_run False)\<lparr>pk := Some 8, name := ''shop-b2''\<rparr>)" for sel
    by (simp_all add: run_readable_def sample_site_def sample_run_def new_test_run_def selector_word_def)
  have row: "row_readable (sample_site 0) (sample_two_runs sel) (sample_row 4 ''eu'' 2 PENDING) \<longleftrightarrow>
      list_all selector_word (go_split (CHR '' '') sel)"
    "row_readable (sample_site 0) (sample_two_runs sel) ((new_test_run_location ''shop-b2'' ''eu'')\<lparr>pk := Some 6\<rparr>)" for sel
    using find readable
    by (simp_all add: row_readable_def sample_row_def new_test_run_location_def fits_int32_def) (simp_all add: sample_site_def)
  show ?thesis
    unfolding poll_all_or_nothing [OF wf route] rows
    by (simp add: row selector_word_def) (simp add: sample_row_def new_test_run_location_def)
qed

section \<open>Single situations\<close>

text \<open>The way of \<open>Reconcile\<close> to its last stages for a row it serves.\<close>

definition job_found :: "'c site \<Rightarrow> string \<Rightarrow> 'c \<Rightarrow> kube_job \<Rightarrow> bool" where
  "job_found s n c obj \<longleftrightarrow> kube_get (site_kube s) n c = (Inr obj, c) \<and> \<not> kj_deleting obj"

definition job_missing :: "'c site \<Rightarrow> string \<Rightarrow> 'c \<Rightarrow> bool" where
  "job_missing s n c \<longleftrightarrow> (\<exists>m. kube_get (site_kube s) n c = (Inl (KubeNotFound m), c))"

lemma reconcile_found:
  assumes "served s db l" and "job_found s (test_run l) c obj" and "status l \<notin> {COMPLETED, FAILED, CANCELED}"
  shows "reconcile (site_operator s) (test_run l) ((db, c), igs) =
    reconcile_object (site_operator s) (job_of s db l) obj ((db, c), igs)"
  using assms by (simp add: reconcile_served reconcile_job_def job_of_fields site_calls job_found_def)

lemma reconcile_not_found:
  assumes "served s db l" and "job_missing s (test_run l) c" and "status l \<notin> {COMPLETED, FAILED, CANCELED}"
  shows "reconcile (site_operator s) (test_run l) ((db, c), igs) =
    (if status l = PENDING then reconcile_create (site_operator s) (job_of s db l) ((db, c), igs)
     else reconcile_missing (site_operator s) (job_of s db l) ((db, c), igs))"
  using assms by (auto simp: reconcile_served reconcile_job_def job_of_fields site_calls job_missing_def)

lemma object_ready:
  assumes "served s db l" and "get_job_condition obj ''Failed'' = None" and "status l \<in> {READY, RUNNING}"
  shows "reconcile_object (site_operator s) (job_of s db l) obj ((db, c), igs) =
    reconcile_ready (site_operator s) (job_of s db l) obj ((db, c), igs)"
  using assms by (auto simp: reconcile_object_def reconcile_pending_def reconcile_queued_def job_of_fields)

lemma no_igniter_yet:
  assumes "served s db l" and "\<not> all_in READY (test_run l) db" and "igs (test_run l) = None"
  shows "create_igniter (site_operator s) (job_of s db l) ((db, c), igs) =
    (Inl (GoError ''Job is not ready to be ignited''), (db, c), igs)"
proof -
  obtain r where r: "find_run (test_run l) db = Some r" "g_ready (g_test_run (job_of s db l)) = run_ready db r"
    using job_of_served(2) [OF assms(1)] by (auto simp: job_shows_def)
  moreover have "name r = test_run l" using find_run_row [OF r(1)] by simp
  ultimately show ?thesis
    using assms(2,3) by (simp add: create_igniter_def job_of_fields [OF assms(1)] run_ready_def count_all_in split: option.split)
qed



text \<open>
  C29. When the test could not be retried: a failed location that is set back to pending fails again
  at the next reconciliation, with the message of the failure before, as long as the cluster keeps
  the failed Job, which the operator does not remove.
\<close>

theorem retry_fails_again:
  assumes "fsm_lists (site_env s)" and "fsm_moves (site_env s)" and "served s db l" and "status l = FAILED"
    and "job_found s (test_run l) c obj" and "get_job_condition obj ''Failed'' = Some m"
  shows "let db1 = reported_db s PENDING m0 l db; l1 = reported PENDING m0 l
    in reconcile (site_operator s) (test_run l) ((db1, c), igs) =
      (None, (reported_db s FAILED (worker_pods_failed m) l1 db1, c), igs)"
  using reconcile_found [OF served_reported [OF assms(3)], of PENDING m0 c obj igs] assms
    put_status_served [OF assms(1,2) served_reported [OF assms(3)]]
  by (simp add: reconcile_object_def)

theorem retry_fails_again_witness:
  "fst (reconcile (site_operator (sample_site 0)) ''shop-a1''
    ((reported_db (sample_site 0) PENDING ''again'' (sample_row 4 ''eu'' 2 FAILED) (sample_db False FAILED CANCELED),
      Some ((new_kube_job ''shop-a1'')\<lparr>kj_conditions := [(''Failed'', ''BackoffLimitExceeded'')]\<rparr>)), Map.empty)) = None"
proof -
  let ?l = "sample_row 4 ''eu'' 2 FAILED"
  let ?obj = "(new_kube_job ''shop-a1'')\<lparr>kj_conditions := [(''Failed'', ''BackoffLimitExceeded'')]\<rparr>"
  have "job_found (sample_site 0) (test_run ?l) (Some ?obj) ?obj"
    by (simp add: job_found_def sample_site_def sample_kube_def new_kube_job_def)
  moreover have "get_job_condition ?obj ''Failed'' = Some ''BackoffLimitExceeded''"
    by (simp add: get_job_condition_def)
  moreover have "status ?l = FAILED" "test_run ?l = ''shop-a1''"
    by (simp_all add: sample_row_def new_test_run_location_def)
  ultimately show ?thesis
    using retry_fails_again [OF sample_site_laws sample_served, of FAILED] by (simp add: Let_def)
qed

text \<open>
  C30. A job past pending whose Job is gone from the cluster is failed, and its description does
  not tell the status it was in: whatever it was, the text says that the test was \<open>failed\<close>.
\<close>

theorem missing_job_message:
  assumes "fsm_lists (site_env s)" and "fsm_moves (site_env s)" and "served s db l"
    and "status l \<in> {QUEUED, READY, RUNNING}" and "job_missing s (test_run l) c"
  shows "reconcile (site_operator s) (test_run l) ((db, c), igs) =
    (None, (reported_db s FAILED ''Test was `failed` but no Kubernetes Job found'' l db, c), igs)"
proof -
  have "status l \<notin> {COMPLETED, FAILED, CANCELED}" "status l \<noteq> PENDING" using assms(4) by auto
  then show ?thesis
    using missing_served [OF assms(1-3)] reconcile_not_found [OF assms(3,5)] by simp
qed

theorem missing_job_message_witness:
  "reconcile (site_operator (sample_site 0)) ''shop-a1'' ((sample_db False RUNNING RUNNING, None), Map.empty) =
    (None, (reported_db (sample_site 0) FAILED ''Test was `failed` but no Kubernetes Job found'' (sample_row 4 ''eu'' 2 RUNNING)
      (sample_db False RUNNING RUNNING), None), Map.empty)"
proof -
  have "job_missing (sample_site 0) (test_run (sample_row 4 ''eu'' 2 RUNNING)) None"
    by (simp add: job_missing_def sample_site_def sample_kube_def)
  moreover have "status (sample_row 4 ''eu'' 2 RUNNING) \<in> {QUEUED, READY, RUNNING}"
    "test_run (sample_row 4 ''eu'' 2 RUNNING) = ''shop-a1''"
    by (simp_all add: sample_row_def new_test_run_location_def)
  ultimately show ?thesis
    using missing_job_message [OF sample_site_laws sample_served, of RUNNING] by simp
qed

section \<open>Orders that matter\<close>

lemma unpause_all_site:
  "unpause_all (op_kube (site_operator s)) ns (db, c) =
    (case unpause_all (site_kube s) ns c of (x, c') \<Rightarrow> (x, (db, c')))"
  by (induction ns arbitrary: c)
    (auto simp: site_operator_def cluster_client_def in_cluster_def split: prod.split sum.split)

lemma igniter_wait_site:
  assumes "igs n = Some ig" and "ig_started ig" and "unpause_all (site_kube s) (ig_pod_names ig) c = (x, c')"
  shows "igniter_wait (site_operator s) n ((db, c), igs) = ((db, c'), igs(n \<mapsto> ig\<lparr>ig_error := x\<rparr>))"
  using assms by (simp add: igniter_wait_def unpause_all_site)

lemma reconcile_ignited:
  assumes fsm: "fsm_lists (site_env s)" "fsm_moves (site_env s)" and served: "served s db l"
    and st: "status l = READY" and obj: "job_found s (test_run l) c obj" "get_job_condition obj ''Failed'' = None"
    and ig: "igs (test_run l) = Some ig" "ig_started ig" and active: "kj_active obj \<noteq> 0"
  shows "reconcile (site_operator s) (test_run l) ((db, c), igs) =
    (None, (case ig_error ig of
       None \<Rightarrow> reported_db s RUNNING ''Worker pods are currently running k6 tests'' l db
     | Some x \<Rightarrow> reported_db s FAILED (worker_pods_failed (error_text x)) l db, c), igs)"
proof -
  have "create_igniter (site_operator s) (job_of s db l) ((db, c), igs) = (Inr ig, (db, c), igs)"
    using ig(1) by (simp add: create_igniter_def job_of_fields [OF served])
  from ready_served [OF fsm served this, of obj] st obj ig(2) active
  show ?thesis
    using running_served [OF fsm served_reported [OF served]]
    by (simp add: reconcile_found [OF served] object_ready [OF served] split: option.split)
qed

text \<open>
  C27. A failed ignition can go unnoticed. The igniter is marked as started before its requests to
  the pods are answered. When the answers (one of them an error) come before the next
  reconciliation, the location fails; when they come after it, the location has been reported as
  running, and the error is never looked at again, while the k6 processes stay paused and their pods
  active.
\<close>

theorem ignition_error_order:
  assumes "fsm_lists (site_env s)" and "fsm_moves (site_env s)" and "served s db l" and "status l = READY"
    and "job_found s (test_run l) c obj" and "get_job_condition obj ''Failed'' = None" and "kj_active obj \<noteq> 0"
    and "igs (test_run l) = Some ig" and "ig_started ig" and "ig_error ig = None"
    and "unpause_all (site_kube s) (ig_pod_names ig) c = (Some x, c)"
  shows "let op = site_operator s; n = test_run l; st = ((db, c), igs);
      early = snd (reconcile op n (igniter_wait op n st));
      late = igniter_wait op n (snd (reconcile op n st))
    in fst (fst early) = reported_db s FAILED (worker_pods_failed (error_text x)) l db \<and>
      fst (fst late) = reported_db s RUNNING ''Worker pods are currently running k6 tests'' l db \<and>
      (\<exists>ig'. snd late n = Some ig' \<and> ig_error ig' = Some x) \<and> reconcile op n late = (None, late)"
proof -
  let ?op = "site_operator s" and ?n = "test_run l" and ?igs = "igs(test_run l \<mapsto> ig\<lparr>ig_error := Some x\<rparr>)"
  let ?m = "''Worker pods are currently running k6 tests''"
  let ?l = "reported RUNNING ?m l" and ?db = "reported_db s RUNNING ?m l db"
  note wait = igniter_wait_site [where igs = igs, OF assms(8,9,11)]
  have early: "reconcile ?op ?n ((db, c), ?igs) =
      (None, (reported_db s FAILED (worker_pods_failed (error_text x)) l db, c), ?igs)"
    using reconcile_ignited [where igs = ?igs, OF assms(1-6) _ _ assms(7)] assms(9) by simp
  have first: "reconcile ?op ?n ((db, c), igs) = (None, (?db, c), igs)"
    using reconcile_ignited [where igs = igs, OF assms(1-6,8,9,7)] assms(10) by simp
  have served: "served s ?db ?l" using assms(3) by (rule served_reported)
  have "reconcile ?op ?n ((?db, c), ?igs) = (None, (?db, c), ?igs)"
    using reconcile_found [OF served, of c obj ?igs] object_ready [OF served assms(6)] assms(5,7)
      running_served [OF assms(1,2) served]
    by (simp add: reconcile_ready_def job_of_fields [OF served])
  then show ?thesis by (simp add: Let_def early first wait)
qed

definition refusing_site :: "kube_job option site" where
  "refusing_site = (sample_site 0)\<lparr>site_kube := sample_kube\<lparr>kube_unpause := \<lambda>n c. (Inl (GoError ''refused''), c)\<rparr>\<rparr>"

theorem ignition_error_order_witness:
  "\<exists>late ig. fst (fst late) = reported_db refusing_site RUNNING ''Worker pods are currently running k6 tests''
      (sample_row 4 ''eu'' 2 READY) (sample_db False READY READY) \<and>
    snd late ''shop-a1'' = Some ig \<and> ig_error ig = Some (GoError ''refused'') \<and>
    reconcile (site_operator refusing_site) ''shop-a1'' late = (None, late)"
proof -
  let ?s = refusing_site
  let ?l = "sample_row 4 ''eu'' 2 READY" and ?db = "sample_db False READY READY"
  let ?obj = "(new_kube_job ''shop-a1'')\<lparr>kj_active := 2\<rparr>"
  let ?ig = "\<lparr>ig_start_test_at = 0, ig_pod_names = [''shop-a1-0''], ig_started = True, ig_error = None\<rparr>"
  have laws: "fsm_lists (site_env ?s)" "fsm_moves (site_env ?s)" using sample_site_laws by (simp_all add: refusing_site_def)
  have served: "served ?s ?db ?l"
    using sample_served [of 0 READY READY] 
    by (simp add: served_def row_readable_def refusing_site_def) (simp add: sample_site_def)
  have facts: "status ?l = READY" "job_found ?s (test_run ?l) (Some ?obj) ?obj"
    "get_job_condition ?obj ''Failed'' = None" "kj_active ?obj \<noteq> 0"
    by (simp_all add: sample_row_def new_test_run_location_def job_found_def sample_kube_def new_kube_job_def
        get_job_condition_def refusing_site_def)
  have ig: "(Map.empty(''shop-a1'' \<mapsto> ?ig)) (test_run ?l) = Some ?ig" "ig_started ?ig" "ig_error ?ig = None"
    "unpause_all (site_kube ?s) (ig_pod_names ?ig) (Some ?obj) = (Some (GoError ''refused''), Some ?obj)"
    by (simp_all add: sample_row_def new_test_run_location_def refusing_site_def)
  have n: "test_run ?l = ''shop-a1''" by (simp add: sample_row_def new_test_run_location_def)
  from ignition_error_order [where igs = "Map.empty(''shop-a1'' \<mapsto> ?ig)", OF laws served facts ig]
  show ?thesis unfolding n Let_def by blast
qed

end
