(* ===== verification/Fleet.thy ===== *)
theory Fleet
  imports Operation
begin

text \<open>
  The operators of all locations of a run together: their pods execute the whole test, each
  piece once, and their check-ins keep the locations online.
\<close>

section \<open>The environment of a pod\<close>

text \<open>
  What the pods see of an environment: the first value of a name. \<open>UpsertEnvVars\<close> is
  documented to replace a variable of the same name and to append the others.
\<close>

definition env_lookup :: "env_var list \<Rightarrow> string \<Rightarrow> string option" where
  "env_lookup env = map_of (map (\<lambda>v. (ev_name v, ev_value v)) env)"

definition upserts :: "libraries \<Rightarrow> bool" where
  "upserts lib \<longleftrightarrow> (\<forall>env new. env_lookup (upsert_env_vars lib env new) = env_lookup env ++ env_lookup (rev new))"

definition segment_var :: "nat \<Rightarrow> string" where
  "segment_var i = ''SEGMENT_'' @ str_nat i"

definition segment_id_var :: "nat \<Rightarrow> string" where
  "segment_id_var i = ''SEGMENT_ID_'' @ str_nat i"

lemma segment_vars [simp]:
  "segment_var i = segment_var j \<longleftrightarrow> i = j" "segment_id_var i = segment_id_var j \<longleftrightarrow> i = j"
  "segment_var i \<noteq> segment_id_var j" "segment_id_var j \<noteq> segment_var i"
proof -
  have "str_nat i \<noteq> ''ID_'' @ str_nat j"
  proof
    assume "str_nat i = ''ID_'' @ str_nat j"
    then have "CHR ''I'' \<in> set (str_nat i)" by simp
    then obtain d where "d < 10" "CHR ''I'' = digit_char d" by (blast dest: str_nat_digits)
    then have "of_char (CHR ''I'') = 48 + d" using of_digit_char [of d] by simp
    with \<open>d < 10\<close> show False by simp
  qed
  then show "segment_var i \<noteq> segment_id_var j" "segment_id_var j \<noteq> segment_var i"
    by (auto simp: segment_var_def segment_id_var_def)
qed (simp_all add: segment_var_def segment_id_var_def)

lemma segments_env_eq:
  "segments_env segs = concat (map (\<lambda>i.
     [\<lparr>ev_name = segment_var i, ev_value = seg_segment (segs ! i)\<rparr>,
      \<lparr>ev_name = segment_id_var i, ev_value = seg_segment_id (segs ! i)\<rparr>]) [0..<length segs])"
proof -
  have "List.enumerate 0 segs = map (\<lambda>i. (i, segs ! i)) [0..<length segs]"
    by (rule nth_equalityI) (simp_all add: nth_enumerate_eq)
  then show ?thesis by (simp add: segments_env_def segment_var_def segment_id_var_def comp_def)
qed

lemma segments_env_lookup:
  assumes "i < length segs"
  shows "env_lookup (rev (segments_env segs)) (segment_var i) = Some (seg_segment (segs ! i))"
    and "env_lookup (rev (segments_env segs)) (segment_id_var i) = Some (seg_segment_id (segs ! i))"
proof -
  let ?kv = "\<lambda>v. (ev_name v, ev_value v)"
  have "distinct (map ev_name (segments_env segs))"
  proof -
    have "map ev_name (segments_env segs) = concat (map (\<lambda>i. [segment_var i, segment_id_var i]) [0..<length segs])"
      by (simp add: segments_env_eq map_concat comp_def)
    moreover have "distinct (concat (map (\<lambda>i. [segment_var i, segment_id_var i]) is))" if "distinct is" for "is"
      using that by (induction "is") auto
    ultimately show ?thesis by simp
  qed
  then have "distinct (map fst (map ?kv (rev (segments_env segs))))" by (simp add: comp_def rev_map [symmetric])
  moreover have "\<lparr>ev_name = segment_var i, ev_value = seg_segment (segs ! i)\<rparr> \<in> set (segments_env segs)"
    "\<lparr>ev_name = segment_id_var i, ev_value = seg_segment_id (segs ! i)\<rparr> \<in> set (segments_env segs)"
    using assms by (auto simp: segments_env_eq)
  ultimately show "env_lookup (rev (segments_env segs)) (segment_var i) = Some (seg_segment (segs ! i))"
    and "env_lookup (rev (segments_env segs)) (segment_id_var i) = Some (seg_segment_id (segs ! i))"
    unfolding env_lookup_def by (force intro: map_of_is_SomeI)+
qed

lemma k6_env_segments:
  assumes "upserts lib" and "i < length (g_assigned_segments job)"
  shows "env_lookup (k6_env lib job) (segment_var i) = Some (seg_segment (g_assigned_segments job ! i))"
    and "env_lookup (k6_env lib job) (segment_id_var i) = Some (seg_segment_id (g_assigned_segments job ! i))"
  using assms segments_env_lookup [OF assms(2)] by (simp_all add: k6_env_def upserts_def)

lemma length_pieces: "served s db l \<Longrightarrow> length (pieces db l) = num_workers l"
  using wf_location_refs(3) [of db l] pieces_block [of l db] by (auto simp: served_def block_def)

lemma served_env_lookup:
  assumes "upserts (site_lib s)" and "served s db l"
  shows "map (\<lambda>i. env_lookup (k6_env (site_lib s) (job_of s db l)) (segment_var i)) [0..<num_workers l] =
    map (\<lambda>p. Some (seg_segment p)) (pieces db l)"
  using k6_env_segments(1) [OF assms(1)] length_pieces [OF assms(2)] job_of_fields(3) [OF assms(2)]
  by (intro nth_equalityI) simp_all

lemma k6_command_sequence:
  "\<exists>xs ys. k6_command lib job =
     xs @ [''--execution-segment-sequence'', py_join '','' (g_segments (g_test_run job))] @ ys"
  by (rule exI [of _ "[''k6'', ''run'', ''--paused'', ''--address'', ''0.0.0.0:6565''] @
      (if g_env_vars (g_test_run job) ''K6_VERBOSE'' = Some ''true'' then [''--verbose''] else [])"])
    (simp add: k6_command_def)

text \<open>
  C22. The pods of all operators run the whole test. When the location of every row of a run has
  an operator that serves it, each operator asks its cluster for as many indexed pods as the location
  has workers; every k6 process gets the segment sequence of the run; and the segments that the pods find
  in their environment, taken over the locations in key order and the pods in the order of their index,
  are the consecutive pieces of the run, each exactly once, whatever variables with such names the run
  itself defines.
\<close>

theorem pods_run_whole_test:
  assumes "wf_db db" and "\<forall>l \<in> set (locations_of n db). served (S l) db l \<and> upserts (site_lib (S l))"
  shows "concat (map (\<lambda>l. map (\<lambda>i. env_lookup (k6_env (site_lib (S l)) (job_of (S l) db l)) (segment_var i))
        [0..<num_workers l]) (by_pk n db)) =
      map (\<lambda>k. Some (get_segment_part (k - 1) (total_workers n db) @ '':'' @ get_segment_part k (total_workers n db)))
        [1..<total_workers n db + 1] \<and>
    (\<forall>l \<in> set (locations_of n db). \<forall>obj. let job = job_of (S l) db l; spec = kj_spec (mutate_job (site_lib (S l)) job obj) in
      js_completion_mode spec = ''Indexed'' \<and> js_completions spec = Some (of_nat (num_workers l)) \<and>
      js_parallelism spec = Some (of_nat (num_workers l)) \<and>
      (\<exists>r xs ys. find_run n db = Some r \<and> k6_command (site_lib (S l)) job =
        xs @ [''--execution-segment-sequence'', py_join '','' (segments db r)] @ ys))"
proof (intro conjI ballI allI)
  let ?seen = "\<lambda>l. map (\<lambda>i. env_lookup (k6_env (site_lib (S l)) (job_of (S l) db l)) (segment_var i)) [0..<num_workers l]"
  have "map ?seen (by_pk n db) = map (\<lambda>l. map (\<lambda>p. Some (seg_segment p)) (pieces db l)) (by_pk n db)"
    using assms(2) served_env_lookup by (intro map_cong refl) auto
  then have "concat (map ?seen (by_pk n db)) = map (\<lambda>p. Some (seg_segment p)) (concat (map (pieces db) (by_pk n db)))"
    by (simp only: map_concat map_map comp_def)
  then show "concat (map ?seen (by_pk n db)) =
      map (\<lambda>k. Some (get_segment_part (k - 1) (total_workers n db) @ '':'' @ get_segment_part k (total_workers n db)))
        [1..<total_workers n db + 1]"
    unfolding all_pieces [OF wf_rows(4) [OF assms(1)]] by (simp only: map_map comp_def piece_def segment.simps)
next
  fix l obj
  assume l: "l \<in> set (locations_of n db)"
  then have served: "served (S l) db l" and "test_run l = n" using assms(2) by (auto simp: locations_of_def)
  moreover obtain r where "find_run (test_run l) db = Some r"
    "g_segments (g_test_run (job_of (S l) db l)) = segments db r"
    using job_of_served(2) [OF served] by (auto simp: job_shows_def)
  ultimately have "\<exists>r xs ys. find_run n db = Some r \<and> k6_command (site_lib (S l)) (job_of (S l) db l) =
      xs @ [''--execution-segment-sequence'', py_join '','' (segments db r)] @ ys"
    using k6_command_sequence [of "site_lib (S l)" "job_of (S l) db l"] by auto
  then show "let job = job_of (S l) db l; spec = kj_spec (mutate_job (site_lib (S l)) job obj) in
      js_completion_mode spec = ''Indexed'' \<and> js_completions spec = Some (of_nat (num_workers l)) \<and>
      js_parallelism spec = Some (of_nat (num_workers l)) \<and>
      (\<exists>r xs ys. find_run n db = Some r \<and> k6_command (site_lib (S l)) job =
        xs @ [''--execution-segment-sequence'', py_join '','' (segments db r)] @ ys)"
    using length_pieces [OF served] job_of_fields(3) [OF served] by (simp add: mutate_job_def Let_def)
qed

lemma env_lookup_upsert:
  "env_lookup (upsert ev_name v env) = (env_lookup env)(ev_name v \<mapsto> ev_value v)"
proof (cases "list_ex (\<lambda>x. ev_name x = ev_name v) env")
  case True
  have "env_lookup (map (\<lambda>x. if ev_name x = ev_name v then v else x) env) m =
      (if m = ev_name v then if list_ex (\<lambda>x. ev_name x = ev_name v) env then Some (ev_value v) else None
       else env_lookup env m)" for m
    by (induction env) (auto simp: env_lookup_def)
  with True show ?thesis by (auto simp: upsert_def)
next
  case False
  then have "env_lookup (env @ [v]) m = ((env_lookup env)(ev_name v \<mapsto> ev_value v)) m" for m
    by (induction env) (auto simp: env_lookup_def)
  with False show ?thesis by (auto simp: upsert_def)
qed

lemma sample_upserts: "upserts sample_lib"
proof -
  have "env_lookup (fold (upsert ev_name) new env) = env_lookup env ++ env_lookup (rev new)" for env new
  proof (induction new arbitrary: env)
    case (Cons v new)
    then show ?case
      by (simp add: env_lookup_upsert) (auto simp: env_lookup_def map_add_def fun_eq_iff split: option.split)
  qed (simp add: env_lookup_def)
  then show ?thesis by (simp add: upserts_def sample_lib_def)
qed

definition sample_fleet :: "test_run_location \<Rightarrow> kube_job option site" where
  "sample_fleet l = (sample_site 0)\<lparr>site_region := location l\<rparr>"

lemma sample_fleet_served:
  assumes "l \<in> set (locations_of ''shop-a1'' (sample_db False s1 s2))"
  shows "served (sample_fleet l) (sample_db False s1 s2) l"
proof -
  have find: "find_run ''shop-a1'' (sample_db False s1 s2) = Some (sample_run False)"
    by (simp add: find_run_def by_key_def sample_db_def sample_run_def)
  have run: "run_readable (site_parsers (sample_site 0)) (sample_run False)"
    by (simp add: run_readable_def sample_site_def sample_run_def new_test_run_def selector_word_def)
  have route: "route_location ''eu''" "route_location ''us''" by (simp_all add: route_location_def route_char_def)
  have l: "l = sample_row 4 ''eu'' 2 s1 \<or> l = sample_row 5 ''us'' 3 s2"
    using assms by (auto simp: locations_of_def sample_db_def split: if_splits)
  then have "test_run l = ''shop-a1''" "location l \<in> {''eu'', ''us''}" "num_workers l \<le> 3" "online_workers l = 0"
    "l \<in> set (tbl_run_location (sample_db False s1 s2))"
    by (auto simp: sample_row_def new_test_run_location_def sample_db_def)
  moreover have "\<not> run_is_draft (sample_db False s1 s2) l"
    using l by (auto simp: run_is_draft_def sample_db_def sample_run_def new_test_run_def)
  ultimately show ?thesis
    using find run route sample_db_wf [of False s1 s2]
    by (auto simp: served_def row_readable_def sample_fleet_def fits_int32_def) (simp_all add: sample_site_def)
qed

theorem pods_run_whole_test_witness:
  "concat (map (\<lambda>l. map (\<lambda>i. env_lookup (k6_env sample_lib (job_of (sample_fleet l) (sample_db False PENDING PENDING) l)) (segment_var i))
      [0..<num_workers l]) (by_pk ''shop-a1'' (sample_db False PENDING PENDING))) =
    [Some ''0:1/5'', Some ''1/5:2/5'', Some ''2/5:3/5'', Some ''3/5:4/5'', Some ''4/5:1'']"
proof -
  let ?db = "sample_db False PENDING PENDING"
  have lib: "site_lib (sample_fleet l) = sample_lib" for l by (simp add: sample_fleet_def sample_site_def)
  have total: "total_workers ''shop-a1'' ?db = 5"
    by (simp add: total_workers_def locations_of_def sample_defs)
  have served: "\<forall>l \<in> set (locations_of ''shop-a1'' ?db). served (sample_fleet l) ?db l \<and> upserts (site_lib (sample_fleet l))"
    using sample_fleet_served sample_upserts lib by simp
  have texts: "map (\<lambda>k. Some (get_segment_part (k - 1) 5 @ '':'' @ get_segment_part k 5)) [1..<5 + 1] =
      [Some ''0:1/5'', Some ''1/5:2/5'', Some ''2/5:3/5'', Some ''3/5:4/5'', Some ''4/5:1'']"
    by code_simp
  from conjunct1 [OF pods_run_whole_test [OF sample_db_wf served]]
  show ?thesis unfolding total texts lib .
qed

section \<open>Check-ins\<close>

definition site_at :: "'c site \<Rightarrow> datetime \<Rightarrow> 'c site" where
  "site_at s t = s\<lparr>site_env := (site_env s)\<lparr>now := t\<rparr>\<rparr>"

lemma site_at_simps [simp]:
  "site_region (site_at s t) = site_region s" "site_kube (site_at s t) = site_kube s"
  "site_lib (site_at s t) = site_lib s" "site_parsers (site_at s t) = site_parsers s"
  "site_reverse (site_at s t) = site_reverse s" "now (site_env (site_at s t)) = t"
  "fsm_lists (site_env (site_at s t)) = fsm_lists (site_env s)"
  "fsm_moves (site_env (site_at s t)) = fsm_moves (site_env s)"
  by (simp_all add: site_at_def fsm_lists_def fsm_moves_def)

text \<open>\<open>Pinger.Start\<close>: a check-in at once and then every 30 seconds.\<close>

definition ping_period :: timedelta where
  "ping_period = seconds 30"

definition ping_ticks :: "datetime \<Rightarrow> nat \<Rightarrow> datetime list" where
  "ping_ticks t0 k = map (\<lambda>i. t0 + int i * ping_period) [0..<Suc k]"

definition ping_all :: "'c site \<Rightarrow> datetime list \<Rightarrow> database \<times> 'c \<Rightarrow> database \<times> 'c" where
  "ping_all s ts = fold (\<lambda>t. pinger_ping (site_operator (site_at s t))) ts"

definition known_location :: "string \<Rightarrow> database \<Rightarrow> bool" where
  "known_location n db \<longleftrightarrow> wf_db db \<and> n \<in> name ` set (tbl_location db)"

lemma pinger_ping_step:
  assumes "known_location (site_region s) db" and "route_location (site_region s)"
  obtains l where "l \<in> set (tbl_location db)" "name l = site_region s"
    "pinger_ping (site_operator (site_at s t)) (db, c) =
      (put_location (l\<lparr>last_ping := Some t, updated_at := t\<rparr>) db, c)"
    "known_location (site_region s) (put_location (l\<lparr>last_ping := Some t, updated_at := t\<rparr>) db)"
proof -
  let ?e = "site_env (site_at s t)"
  from assms(1) obtain l where l: "l \<in> set (tbl_location db)" "name l = site_region s" and wf: "wf_db db"
    by (auto simp: known_location_def)
  let ?l = "l\<lparr>last_ping := Some t, updated_at := t\<rparr>"
  have "ping_get_object (Some (site_region s)) db = Some l"
    using first_row_unique [OF wf_rows(1) [OF wf] l(1)] l(2) by (simp add: ping_get_object_def)
  then have res: "ping_create ?e (Some (site_region s)) db = (Inr (Response 204), put_location ?l db)"
    using ping_create_eq(1) [OF wf, of ?e "Some (site_region s)"] by simp
  then have "wf_db (put_location ?l db)" using ping_create_eq(2) [OF wf, of ?e "Some (site_region s)"] by simp
  moreover have "?l \<in> set (tbl_location (put_location ?l db))" by (simp add: put_location_def set_upsert)
  ultimately have "known_location (site_region s) (put_location ?l db)"
    using l(2) by (force simp: known_location_def)
  moreover have "pinger_ping (site_operator (site_at s t)) (db, c) = (put_location ?l db, c)"
    using assms(2) res by (simp add: pinger_ping_def site_defs web_ping_def)
  ultimately show ?thesis using l by (intro that)
qed

lemma ping_all_known:
  "known_location (site_region s) (fst w) \<Longrightarrow> route_location (site_region s) \<Longrightarrow>
     known_location (site_region s) (fst (ping_all s ts w)) \<and>
     tbl_run_location (fst (ping_all s ts w)) = tbl_run_location (fst w) \<and>
     tbl_test_run (fst (ping_all s ts w)) = tbl_test_run (fst w)"
proof (induction ts arbitrary: w)
  case (Cons t ts)
  obtain db c where w: "w = (db, c)" by fastforce
  from Cons.prems w have "known_location (site_region s) db" by simp
  then obtain l where "pinger_ping (site_operator (site_at s t)) (db, c) =
      (put_location (l\<lparr>last_ping := Some t, updated_at := t\<rparr>) db, c)"
    "known_location (site_region s) (put_location (l\<lparr>last_ping := Some t, updated_at := t\<rparr>) db)"
    using Cons.prems(2) by (rule pinger_ping_step)
  with Cons.IH [of "(put_location (l\<lparr>last_ping := Some t, updated_at := t\<rparr>) db, c)"] Cons.prems(2) w
  show ?case by (simp add: ping_all_def put_location_def)
qed (simp add: ping_all_def)

text \<open>
  C24. A running operator keeps its location online, even when check-ins are lost: after the
  check-ins at every period of 30 seconds up to the \<open>k\<close>-th, the location is shown as online at any time
  until the \<open>k + 10\<close>-th would be due, so nine in a row may fail; and its check-ins change no run and no job.
\<close>

theorem operator_stays_online:
  assumes "wf_db db" and "site_region s \<in> name ` set (tbl_location db)" and "route_location (site_region s)"
    and "now e < t0 + int (k + 10) * ping_period"
  shows "let db' = fst (ping_all s (ping_ticks t0 k) (db, c)) in
    (\<exists>l \<in> set (tbl_location db'). name l = site_region s) \<and>
    (\<forall>l \<in> set (tbl_location db'). name l = site_region s \<longrightarrow> staus e l = Some True) \<and>
    tbl_run_location db' = tbl_run_location db \<and> tbl_test_run db' = tbl_test_run db"
proof -
  let ?t = "t0 + int k * ping_period"
  let ?w = "ping_all s (map (\<lambda>i. t0 + int i * ping_period) [0..<k]) (db, c)"
  have start: "known_location (site_region s) db" using assms(1,2) by (simp add: known_location_def)
  obtain db1 c1 where w: "?w = (db1, c1)" by fastforce
  have "known_location (site_region s) db1"
    using ping_all_known [of s "(db, c)", OF _ assms(3)] start w by (metis fst_conv)
  then obtain l where l: "pinger_ping (site_operator (site_at s ?t)) (db1, c1) =
      (put_location (l\<lparr>last_ping := Some ?t, updated_at := ?t\<rparr>) db1, c1)" "name l = site_region s"
    "known_location (site_region s) (put_location (l\<lparr>last_ping := Some ?t, updated_at := ?t\<rparr>) db1)"
    using assms(3) by (rule pinger_ping_step)
  let ?l = "l\<lparr>last_ping := Some ?t, updated_at := ?t\<rparr>" and ?db = "put_location (l\<lparr>last_ping := Some ?t, updated_at := ?t\<rparr>) db1"
  have last: "ping_all s (ping_ticks t0 k) (db, c) = (?db, c1)"
    using l(1) w by (simp add: ping_all_def ping_ticks_def)
  have "?l \<in> set (tbl_location ?db)" by (simp add: put_location_def set_upsert)
  have same: "x = ?l" if "x \<in> set (tbl_location ?db)" "name x = site_region s" for x
    using named_rows_same [OF wf_rows(1) that(1) \<open>?l \<in> set (tbl_location ?db)\<close>] l(2,3) that(2)
    by (simp add: known_location_def)
  have "staus e ?l = Some True"
    using assms(4) by (simp add: staus_def ping_period_def clock_defs algebra_simps)
  moreover have "tbl_run_location ?db = tbl_run_location db" "tbl_test_run ?db = tbl_test_run db"
    using ping_all_known [of s "(db, c)" "ping_ticks t0 k", OF _ assms(3)] start last by simp_all
  moreover have "\<exists>l \<in> set (tbl_location ?db). name l = site_region s"
    using l(3) by (auto simp: known_location_def)
  ultimately show ?thesis unfolding Let_def last fst_conv using same by blast
qed

theorem operator_stays_online_witness:
  "\<exists>l \<in> set (tbl_location (fst (ping_all (sample_site 0) (ping_ticks 0 3) (sample_db False PENDING PENDING, None)))).
     name l = ''eu'' \<and> staus (sample_env (seconds 389)) l = Some True"
proof -
  have region: "site_region (sample_site 0) = ''eu''" by (simp add: sample_site_def)
  have "route_location (site_region (sample_site 0))" by (simp add: region route_location_def route_char_def)
  moreover have "site_region (sample_site 0) \<in> name ` set (tbl_location (sample_db False PENDING PENDING))"
    by (simp add: region sample_db_def sample_location_def)
  moreover have "now (sample_env (seconds 389)) < 0 + int (3 + 10) * ping_period"
    by (simp add: sample_env_def ping_period_def clock_defs)
  ultimately show ?thesis
    using operator_stays_online [OF sample_db_wf, of "sample_site 0" False PENDING PENDING "sample_env (seconds 389)" 0 3]
    unfolding Let_def region by blast
qed

end
