(* ===== verification/Drive.thy ===== *)
theory Drive
  imports Fleet
begin

text \<open>
  An operator drives a run through its whole life, reconciliation by reconciliation, while its
  cluster does what it should; and what happens when the first reconciliation stops half-way.
\<close>

section \<open>One reconciliation per stage\<close>

definition creates_job :: "'c site \<Rightarrow> go_job \<Rightarrow> 'c \<Rightarrow> 'c \<Rightarrow> bool" where
  "creates_job s job c c' \<longleftrightarrow> (\<exists>obj c1 c2.
     kube_sync_job (site_kube s) (g_name job) (mutate_job (site_lib s) job) c = (Inr obj, c1) \<and>
     get_job_condition obj ''Failed'' = None \<and> kj_ready obj = None \<and>
     kube_create_secret (site_kube s) (telegraf_secret job obj) c1 = (Inr (), c2) \<and>
     kube_sync_budget (site_kube s) (g_name job) (mutate_budget job obj) c2 = (Inr (), c'))"

definition pods_stable :: "'c site \<Rightarrow> string \<Rightarrow> 'c \<Rightarrow> nat \<Rightarrow> bool" where
  "pods_stable s n c w \<longleftrightarrow> (\<exists>pods. kube_pods (site_kube s) n c = (Inr pods, c) \<and> length pods = w \<and>
     list_all (is_pod_stable_ready (now (site_env s))) pods)"

lemma object_queues:
  assumes fsm: "fsm_lists (site_env s)" "fsm_moves (site_env s)" and served: "served s db l" and st: "status l = PENDING"
    and obj: "get_job_condition obj ''Failed'' = None" "kj_ready obj = None"
  shows "reconcile_object (site_operator s) (job_of s db l) obj ((db, c), igs) =
    (None, (reported_db s QUEUED ''Test run is queued for execution'' l db, c), igs)"
proof -
  let ?db = "reported_db s QUEUED ''Test run is queued for execution'' l db"
  and ?l = "reported QUEUED ''Test run is queued for execution'' l"
  have served': "served s ?db ?l" using served by (rule served_reported)
  show ?thesis
    using st obj put_status_served [OF fsm served]
    by (simp add: reconcile_object_def reconcile_pending_def job_of_fields [OF served]
        reconcile_queued_def reconcile_ready_def reconcile_running_def job_of_fields [OF served'])
qed

lemma create_queues:
  assumes fsm: "fsm_lists (site_env s)" "fsm_moves (site_env s)" and served: "served s db l" and st: "status l = PENDING"
    and missing: "job_missing s (test_run l) c" and create: "creates_job s (job_of s db l) c c'"
  shows "reconcile (site_operator s) (test_run l) ((db, c), igs) =
    (None, (reported_db s QUEUED ''Test run is queued for execution'' l db, c'), igs)"
proof -
  let ?op = "site_operator s" and ?job = "job_of s db l"
  obtain obj c1 c2 where obj: "kube_sync_job (site_kube s) (test_run l) (mutate_job (site_lib s) ?job) c = (Inr obj, c1)"
      "get_job_condition obj ''Failed'' = None" "kj_ready obj = None"
    and rest: "kube_create_secret (site_kube s) (telegraf_secret ?job obj) c1 = (Inr (), c2)"
      "kube_sync_budget (site_kube s) (test_run l) (mutate_budget ?job obj) c2 = (Inr (), c')"
    using create by (auto simp: creates_job_def job_of_fields [OF served])
  have "reconcile_create ?op ?job ((db, c), igs) = reconcile_object ?op ?job obj ((db, c'), igs)"
    using obj(1) rest
    by (simp add: reconcile_create_def sync_job_def sync_telegraf_config_def sync_pod_disruption_budget_def
        on_world_def site_defs job_of_fields [OF served])
  then show ?thesis
    using reconcile_not_found [OF served missing] st object_queues [OF fsm served st obj(2,3)] by simp
qed

text \<open>All pods stable: the location is ready, and an igniter made at once if it was the last one.\<close>

lemma queued_gets_ready:
  assumes fsm: "fsm_lists (site_env s)" "fsm_moves (site_env s)" and served: "served s db l" and st: "status l = QUEUED"
    and found: "job_found s (test_run l) c obj" "get_job_condition obj ''Failed'' = None"
      "kj_ready obj = Some (of_nat (num_workers l))"
    and pods: "pods_stable s (test_run l) c (num_workers l)"
  shows "reconcile (site_operator s) (test_run l) ((db, c), igs) =
    reconcile_ready (site_operator s)
      (job_of s (reported_db s READY ''Worker pods are ready and waiting to start testing'' l db)
        (reported READY ''Worker pods are ready and waiting to start testing'' l)) obj
      ((reported_db s READY ''Worker pods are ready and waiting to start testing'' l db, c), igs)"
  using st found(2,3) pods put_status_served [OF fsm served, of READY] reconcile_found [OF served found(1)]
    length_pieces [OF served]
  by (auto simp: reconcile_object_def reconcile_pending_def reconcile_queued_def job_of_fields [OF served]
      site_calls pods_stable_def)

lemma creates_igniter:
  assumes served: "served s db l" and run: "find_run (test_run l) db = Some r" "started_at r = Some t" "pk_true (pk r)"
      "all_in READY (test_run l) db"
    and pods: "kube_pods (site_kube s) (test_run l) c = (Inr pods, c)" "length pods = num_workers l"
    and ig: "igs (test_run l) = None"
  shows "create_igniter (site_operator s) (job_of s db l) ((db, c), igs) =
    (let ig = \<lparr>ig_start_test_at = t, ig_pod_names = map pod_name pods, ig_started = False, ig_error = None\<rparr>
     in (Inr ig, (db, c), igs(test_run l \<mapsto> ig)))"
proof -
  have "name r = test_run l" using find_run_row [OF run(1)] by simp
  then have "g_ready (g_test_run (job_of s db l))" "g_start_test_at (g_test_run (job_of s db l)) = Some t"
    using job_of_served(2) [OF served] run by (auto simp: job_shows_def run_ready_def count_all_in)
  then show ?thesis
    using pods ig length_pieces [OF served]
    by (simp add: create_igniter_def job_of_fields [OF served] Let_def site_defs)
qed

lemma pods_stable_listed: "pods_stable s n c w \<Longrightarrow> \<exists>pods. kube_pods (site_kube s) n c = (Inr pods, c) \<and> length pods = w"
  by (auto simp: pods_stable_def)

text \<open>A location that gets ready has its igniter at once if it is the last one, and an error otherwise.\<close>

lemma gets_ready:
  assumes fsm: "fsm_lists (site_env s)" "fsm_moves (site_env s)" and served: "served s db l" and st: "status l = QUEUED"
    and found: "job_found s (test_run l) c obj" "get_job_condition obj ''Failed'' = None"
      "kj_ready obj = Some (of_nat (num_workers l))"
    and pods: "pods_stable s (test_run l) c (num_workers l)" and ig: "igs (test_run l) = None"
  defines "db' \<equiv> reported_db s READY ''Worker pods are ready and waiting to start testing'' l db"
  shows "\<not> all_in READY (test_run l) db' \<Longrightarrow> reconcile (site_operator s) (test_run l) ((db, c), igs) =
      (Some (GoError ''Job is not ready to be ignited''), (db', c), igs)"
    and "all_in READY (test_run l) db' \<Longrightarrow> find_run (test_run l) db' = Some r \<Longrightarrow> started_at r = Some t \<Longrightarrow>
      pk_true (pk r) \<Longrightarrow> \<exists>ig. reconcile (site_operator s) (test_run l) ((db, c), igs) = (None, (db', c), igs(test_run l \<mapsto> ig)) \<and>
        ig_start_test_at ig = t \<and> \<not> ig_started ig \<and> ig_error ig = None"
proof -
  let ?l = "reported READY ''Worker pods are ready and waiting to start testing'' l"
  have served': "served s db' ?l" unfolding db'_def using served by (rule served_reported)
  note eq = queued_gets_ready [OF fsm served st found pods, folded db'_def]
  show "reconcile (site_operator s) (test_run l) ((db, c), igs) =
      (Some (GoError ''Job is not ready to be ignited''), (db', c), igs)" if "\<not> all_in READY (test_run l) db'"
    using no_igniter_yet [OF served', of igs c] that ig by (simp add: eq ready_served [OF fsm served'])
  assume ready: "all_in READY (test_run l) db'" "find_run (test_run l) db' = Some r" "started_at r = Some t" "pk_true (pk r)"
  obtain ps where ps: "kube_pods (site_kube s) (test_run ?l) c = (Inr ps, c)" "length ps = num_workers ?l"
    using pods_stable_listed [OF pods] by auto
  obtain ig where ig': "create_igniter (site_operator s) (job_of s db' ?l) ((db', c), igs) = (Inr ig, (db', c), igs(test_run ?l \<mapsto> ig))"
    "ig_start_test_at ig = t" "\<not> ig_started ig" "ig_error ig = None"
    using creates_igniter [OF served' _ ready(3,4) _ ps, of igs] ready(1,2) ig by (simp add: Let_def)
  have "reconcile (site_operator s) (test_run l) ((db, c), igs) = (None, (db', c), igs(test_run l \<mapsto> ig))"
    using ig'(3,4) by (simp add: eq ready_served [OF fsm served' ig'(1)])
  with ig' show "\<exists>ig. reconcile (site_operator s) (test_run l) ((db, c), igs) = (None, (db', c), igs(test_run l \<mapsto> ig)) \<and>
      ig_start_test_at ig = t \<and> \<not> ig_started ig \<and> ig_error ig = None" by blast
qed


section \<open>A run of one location\<close>

lemma alone_reported:
  assumes served: "served s db l" and alone: "locations_of (test_run l) db = [l]" and st: "st \<noteq> FAILED"
  shows "locations_of (test_run l) (reported_db s st m l db) = [reported st m l]"
proof -
  have wf: "wf_db db" and l: "l \<in> set (tbl_run_location db)" using served by (simp_all add: served_def)
  let ?f = "\<lambda>x. if pk x = pk l then reported st m l else x"
  have "tbl_run_location (reported_db s st m l db) = map ?f (tbl_run_location db)"
    using after_save_stored_rows [OF wf l, of "reported st m l"] st by (simp add: reported_db_def)
  moreover have "test_run (?f x) = test_run x" if "x \<in> set (tbl_run_location db)" for x
    using row_identity(1) [OF wf that l] by auto
  ultimately have "locations_of (test_run l) (reported_db s st m l db) = map ?f (locations_of (test_run l) db)"
    by (simp add: locations_of_def filter_map comp_def cong: filter_cong)
  then show ?thesis by (simp add: alone)
qed

lemma alone_all_in: "locations_of n db = [l] \<Longrightarrow> all_in st n db \<longleftrightarrow> status l = st"
  by (simp add: all_in_def)

lemma alone_run:
  assumes served: "served s db l" and alone: "locations_of (test_run l) db = [l]" and st: "st \<noteq> FAILED"
    and run: "find_run (test_run l) db = Some r"
  shows "find_run (test_run l) (reported_db s st m l db) =
    Some (if st = READY then start_run (now (site_env s)) r
          else if st = COMPLETED then complete_run (now (site_env s)) r else r)"
proof -
  have "name r = test_run l" using find_run_row [OF run] by simp
  then show ?thesis
    using alone_all_in [OF alone_reported [OF assms(1-3)]] run
    unfolding reported_db_def find_run_after_save by (simp add: run_after_def)
qed

lemma served_site_at [simp]: "served (site_at s t) db l = served s db l"
  by (simp add: served_def row_readable_def)

lemma job_found_site_at [simp]: "job_found (site_at s t) n c obj = job_found s n c obj"
  by (simp add: job_found_def)

lemma job_missing_site_at [simp]: "job_missing (site_at s t) n c = job_missing s n c"
  by (simp add: job_missing_def)

lemma creates_job_site_at [simp]: "creates_job (site_at s t) job c c' = creates_job s job c c'"
  by (simp add: creates_job_def)

lemma job_of_site_at [simp]: "job_of (site_at s t) db l = job_of s db l"
  by (simp add: job_of_def)

lemma last_gets_ready:
  assumes fsm: "fsm_lists (site_env s)" "fsm_moves (site_env s)" and served: "served s db l" and st: "status l = QUEUED"
    and alone: "locations_of (test_run l) db = [l]"
    and run: "find_run (test_run l) db = Some r" "started_at r = None" "pk_true (pk r)"
    and found: "job_found s (test_run l) c obj" "get_job_condition obj ''Failed'' = None"
      "kj_ready obj = Some (of_nat (num_workers l))"
    and pods: "pods_stable s (test_run l) c (num_workers l)" and ig: "igs (test_run l) = None"
  shows "\<exists>ig. reconcile (site_operator s) (test_run l) ((db, c), igs) =
      (None, (reported_db s READY ''Worker pods are ready and waiting to start testing'' l db, c), igs(test_run l \<mapsto> ig)) \<and>
    ig_start_test_at ig = floor_second (now (site_env s) + seconds start_delay_seconds) \<and>
    \<not> ig_started ig \<and> ig_error ig = None"
proof -
  let ?m = "''Worker pods are ready and waiting to start testing''"
  have "find_run (test_run l) (reported_db s READY ?m l db) = Some (start_run (now (site_env s)) r)"
    using alone_run [OF served alone _ run(1), of READY ?m] by simp
  moreover have "all_in READY (test_run l) (reported_db s READY ?m l db)"
    by (simp add: all_in_def alone_reported [OF served alone])
  moreover have "started_at (start_run (now (site_env s)) r) = Some (floor_second (now (site_env s) + seconds start_delay_seconds))"
    "pk_true (pk (start_run (now (site_env s)) r))"
    using run(2,3) by (simp_all add: start_run_def)
  ultimately show ?thesis using gets_ready(2) [where igs = igs, OF fsm served st found pods ig] by blast
qed

lemma runs_out:
  assumes fsm: "fsm_lists (site_env s)" "fsm_moves (site_env s)" and served: "served s db l" and st: "status l = RUNNING"
    and found: "job_found s (test_run l) c obj" "get_job_condition obj ''Failed'' = None"
    and over: "kj_active obj = 0" "sint (kj_succeeded obj) = int (num_workers l)"
  shows "reconcile (site_operator s) (test_run l) ((db, c), igs) =
    (None, (reported_db s COMPLETED ''Worker pods have successfully completed running k6 tests'' l db, c), igs)"
  using reconcile_found [OF served found(1)] object_ready [OF served found(2)] st over
    running_served [OF fsm served] length_pieces [OF served]
  by (simp add: reconcile_ready_def job_of_fields [OF served])

section \<open>A creation that stops half-way\<close>

definition at_cluster :: "'c site \<Rightarrow> 'c kube_client \<Rightarrow> 'c site" where
  "at_cluster s kube = s\<lparr>site_kube := kube\<rparr>"

lemma at_cluster_simps [simp]:
  "site_env (at_cluster s kube) = site_env s" "site_kube (at_cluster s kube) = kube"
  "site_region (at_cluster s kube) = site_region s" "site_lib (at_cluster s kube) = site_lib s" "served (at_cluster s kube) = served s"
  "job_of (at_cluster s kube) = job_of s" "reported_db (at_cluster s kube) = reported_db s"
  by (simp_all add: at_cluster_def fun_eq_iff served_def row_readable_def job_of_def reported_db_def)

text \<open>
  C28. The Telegraf secret and the disruption budget of a run are made only in the reconciliation that
  makes its Job. When the secret cannot be created, that reconciliation returns the error and the run
  stays pending. The next one finds the Job, which leaves nothing to be made: it reports the run
  queued, without an error and without a change of the cluster, whatever creating the secret and the
  budget would do by then.
\<close>

theorem telegraf_not_retried:
  assumes fsm: "fsm_lists (site_env s)" "fsm_moves (site_env s)" and served: "served s db l" and st: "status l = PENDING"
    and missing: "job_missing s (test_run l) c0"
    and make: "kube_sync_job (site_kube s) (test_run l) (mutate_job (site_lib s) (job_of s db l)) c0 = (Inr obj, c1)"
    and secret: "kube_create_secret (site_kube s) (telegraf_secret (job_of s db l) obj) c1 = (Inl x, c2)"
      "\<not> kube_already_exists x"
    and found: "job_found s (test_run l) c3 obj'" "get_job_condition obj' ''Failed'' = None" "kj_ready obj' = None"
  shows "reconcile (site_operator s) (test_run l) ((db, c0), igs) = (Some x, (db, c2), igs) \<and>
    reconcile (site_operator (at_cluster s ((site_kube s)\<lparr>kube_create_secret := g, kube_sync_budget := h\<rparr>)))
        (test_run l) ((db, c3), igs) =
      (None, (reported_db s QUEUED ''Test run is queued for execution'' l db, c3), igs)"
proof -
  let ?op = "site_operator s" and ?job = "job_of s db l"
  let ?s = "at_cluster s ((site_kube s)\<lparr>kube_create_secret := g, kube_sync_budget := h\<rparr>)"
  have "reconcile_create ?op ?job ((db, c0), igs) = (Some x, (db, c2), igs)"
    using make secret
    by (simp add: reconcile_create_def sync_job_def sync_telegraf_config_def on_world_def site_defs
        job_of_fields [OF served])
  then have "reconcile ?op (test_run l) ((db, c0), igs) = (Some x, (db, c2), igs)"
    using reconcile_not_found [OF served missing] st by simp
  moreover
  have sv: "served ?s db l" using served by simp
  have "job_found ?s (test_run l) c3 obj'" using found(1) by (simp add: job_found_def)
  from reconcile_found [OF sv this] st object_queues [OF _ _ sv st found(2,3)] fsm
  have "reconcile (site_operator ?s) (test_run l) ((db, c3), igs) =
      (None, (reported_db s QUEUED ''Test run is queued for execution'' l db, c3), igs)"
    by simp
  ultimately show ?thesis by simp
qed

definition no_secrets :: "kube_job option kube_client" where
  "no_secrets = sample_kube\<lparr>kube_create_secret := \<lambda>sec c. (Inl (GoError ''quota''), c)\<rparr>"

lemma sample_creates_job:
  "creates_job (sample_site t) job None (Some (mutate_job sample_lib job (new_kube_job (g_name job))))"
  by (simp add: creates_job_def sample_site_def sample_kube_def mutate_job_def Let_def get_job_condition_def
      new_kube_job_def split: option.split)

lemma no_secrets_calls:
  "kube_get no_secrets n None = (Inl (KubeNotFound ''not found''), None)"
  "kube_get no_secrets n (Some obj) = (Inr obj, Some obj)"
  "kube_sync_job no_secrets n f None = (Inr (f (new_kube_job n)), Some (f (new_kube_job n)))"
  "kube_create_secret no_secrets sec c = (Inl (GoError ''quota''), c)"
  by (simp_all add: no_secrets_def sample_kube_def Let_def)

theorem telegraf_not_retried_witness:
  "\<exists>job. reconcile (site_operator (at_cluster (sample_site 0) no_secrets)) ''shop-a1''
      ((sample_db False PENDING READY, None), Map.empty) = (Some (GoError ''quota''), (sample_db False PENDING READY, Some job), Map.empty) \<and>
    fst (reconcile (site_operator (sample_site 0)) ''shop-a1'' ((sample_db False PENDING READY, Some job), Map.empty)) = None"
proof -
  let ?s = "at_cluster (sample_site 0) no_secrets" and ?l = "sample_row 4 ''eu'' 2 PENDING"
  let ?db = "sample_db False PENDING READY"
  let ?job = "job_of ?s ?db ?l"
  let ?obj = "mutate_job (site_lib ?s) ?job (new_kube_job ''shop-a1'')"
  have n: "test_run ?l = ''shop-a1''" "status ?l = PENDING" by (simp_all add: sample_row_def new_test_run_location_def)
  have sv: "served ?s ?db ?l" using sample_served by simp
  have laws: "fsm_lists (site_env ?s)" "fsm_moves (site_env ?s)" using sample_site_laws by simp_all
  have cluster: "job_missing ?s (test_run ?l) None"
    "kube_sync_job (site_kube ?s) (test_run ?l) (mutate_job (site_lib ?s) ?job) None = (Inr ?obj, Some ?obj)"
    "kube_create_secret (site_kube ?s) (telegraf_secret ?job ?obj) (Some ?obj) = (Inl (GoError ''quota''), Some ?obj)"
    "\<not> kube_already_exists (GoError ''quota'')"
    by (simp_all add: job_missing_def no_secrets_calls n)
  have obj: "get_job_condition ?obj ''Failed'' = None" "kj_ready ?obj = None" "\<not> kj_deleting ?obj"
    by (simp_all add: mutate_job_def Let_def get_job_condition_def new_kube_job_def)
  have found: "job_found ?s (test_run ?l) (Some ?obj) ?obj" using obj(3) by (simp add: job_found_def no_secrets_calls)
  have restored: "at_cluster ?s ((site_kube ?s)\<lparr>kube_create_secret := kube_create_secret sample_kube,
      kube_sync_budget := kube_sync_budget sample_kube\<rparr>) = sample_site 0"
    by (simp add: at_cluster_def no_secrets_def sample_site_def sample_kube_def)
  show ?thesis
    using telegraf_not_retried [OF laws sv n(2) cluster found obj(1,2), where igs = Map.empty and
        g = "kube_create_secret sample_kube" and h = "kube_sync_budget sample_kube"]
    unfolding restored n(1) by (intro exI [of _ ?obj]) simp
qed

section \<open>The whole life\<close>

text \<open>The messages of the four reports.\<close>

definition drive_reports :: "(status \<times> string) list" where
  "drive_reports =
     [(QUEUED, ''Test run is queued for execution''),
      (READY, ''Worker pods are ready and waiting to start testing''),
      (RUNNING, ''Worker pods are currently running k6 tests''),
      (COMPLETED, ''Worker pods have successfully completed running k6 tests'')]"

text \<open>
  An operator alone takes a run of its location from pending to its end. Reconciled at four times
  while its cluster makes the Job, then has all pods stable, then runs them, then has all of them
  succeeded, it reports queued, ready, running and completed, without an error; the run starts
  29 to 30 seconds after the report that it is ready and ends when its completion is reported, and
  the igniter that fires in between has waited for just the start the run shows.
\<close>

theorem operator_drives_run:
  assumes fsm: "fsm_lists (site_env s)" "fsm_moves (site_env s)"
    and served: "served s db l" and pending: "status l = PENDING" and alone: "locations_of (test_run l) db = [l]"
    and run: "find_run (test_run l) db = Some r" "started_at r = None" "completed_at r = None" "pk_true (pk r)"
    and no_igniter: "igs (test_run l) = None"
    and make: "job_missing s (test_run l) c0" "creates_job s (job_of s db l) c0 c1"
    and stable: "job_found s (test_run l) c2 obj2" "get_job_condition obj2 ''Failed'' = None"
      "kj_ready obj2 = Some (of_nat (num_workers l))" "pods_stable (site_at s t2) (test_run l) c2 (num_workers l)"
    and fires: "floor_second (t2 + seconds start_delay_seconds) \<le> t3"
    and runs: "job_found s (test_run l) c4 obj4" "get_job_condition obj4 ''Failed'' = None" "kj_active obj4 \<noteq> 0"
    and ends: "job_found s (test_run l) c5 obj5" "get_job_condition obj5 ''Failed'' = None"
      "kj_active obj5 = 0" "sint (kj_succeeded obj5) = int (num_workers l)"
    and step1: "reconcile (site_operator (site_at s t1)) (test_run l) ((db, c0), igs) = (x1, (db1, c1'), igs1)"
    and step2: "reconcile (site_operator (site_at s t2)) (test_run l) ((db1, c2), igs1) = (x2, (db2, c2'), igs2)"
    and step3: "igniter_start (site_operator (site_at s t3)) (test_run l) ((db2, c3), igs2) = (w3, igs3)"
    and step4: "reconcile (site_operator (site_at s t4)) (test_run l) ((db2, c4), igs3) = (x4, (db4, c4'), igs4)"
    and step5: "reconcile (site_operator (site_at s t5)) (test_run l) ((db4, c5), igs4) = (x5, (db5, c5'), igs5)"
  shows "[x1, x2, x4, x5] = [None, None, None, None] \<and>
    map (\<lambda>d. map (\<lambda>l. (status l, status_description l)) (locations_of (test_run l) d)) [db1, db2, db4, db5] =
      map (\<lambda>sm. [sm]) drive_reports \<and>
    (\<exists>r' ig. find_run (test_run l) db5 = Some r' \<and> igs2 (test_run l) = Some ig \<and>
      started_at r' = Some (ig_start_test_at ig) \<and>
      t2 + seconds 29 < ig_start_test_at ig \<and> ig_start_test_at ig \<le> t2 + seconds 30 \<and>
      completed_at r' = Some (floor_second t5))"
proof -
  let ?n = "test_run l" and ?start = "floor_second (t2 + seconds start_delay_seconds)"
  let ?l1 = "reported QUEUED ''Test run is queued for execution'' l"
  let ?l2 = "reported READY ''Worker pods are ready and waiting to start testing'' ?l1"
  let ?l4 = "reported RUNNING ''Worker pods are currently running k6 tests'' ?l2"
  let ?l5 = "reported COMPLETED ''Worker pods have successfully completed running k6 tests'' ?l4"
  have f: "fsm_lists (site_env (site_at s t))" "fsm_moves (site_env (site_at s t))" for t using fsm by simp_all
  have sv: "served (site_at s t) d x" if "served s d x" for t d x using that by simp
  have "x1 = None" and db1: "db1 = reported_db (site_at s t1) QUEUED ''Test run is queued for execution'' l db"
    and igs1: "igs1 = igs"
    using create_queues [where igs = igs and c = c0, OF f sv [OF served] pending] make step1 by simp_all
  have s1: "served s db1 ?l1" using served_reported [OF sv [OF served]] by (simp add: db1)
  have a1: "locations_of ?n db1 = [?l1]" using alone_reported [OF sv [OF served] alone] by (simp add: db1)
  have r1: "find_run ?n db1 = Some r" using alone_run [OF sv [OF served] alone _ run(1)] by (simp add: db1)
  obtain ig where ig: "reconcile (site_operator (site_at s t2)) ?n ((db1, c2), igs1) =
      (None, (reported_db (site_at s t2) READY ''Worker pods are ready and waiting to start testing'' ?l1 db1, c2), igs(?n \<mapsto> ig))"
    "ig_start_test_at ig = ?start" "\<not> ig_started ig" "ig_error ig = None"
    using last_gets_ready [where r = r and c = c2 and obj = obj2 and igs = igs, OF f sv [OF s1]] a1 r1 run(2,4) stable no_igniter igs1 by auto
  from ig(1) step2 have "x2 = None" and igs2: "igs2 = igs(?n \<mapsto> ig)"
    and db2: "db2 = reported_db (site_at s t2) READY ''Worker pods are ready and waiting to start testing'' ?l1 db1"
    by simp_all
  have s2: "served s db2 ?l2" using served_reported [OF sv [OF s1]] by (simp add: db2)
  have a2: "locations_of ?n db2 = [?l2]" using alone_reported [where st = READY, OF sv [OF s1]] a1 by (simp add: db2)
  have r2: "find_run ?n db2 = Some (start_run t2 r)" using alone_run [where st = READY, OF sv [OF s1]] a1 r1 by (simp add: db2)
  have igs3: "igs3 ?n = Some (ig\<lparr>ig_started := True\<rparr>)"
    using step3 fires ig(2) by (auto simp: igniter_start_def igs2 site_operator_def)
  have "x4 = None" and igs4: "igs4 = igs3"
    and db4: "db4 = reported_db (site_at s t4) RUNNING ''Worker pods are currently running k6 tests'' ?l2 db2"
    using reconcile_ignited [where c = c4 and obj = obj4 and igs = igs3, OF f sv [OF s2]] runs igs3 ig(4) step4 by simp_all
  have s4: "served s db4 ?l4" using served_reported [OF sv [OF s2]] by (simp add: db4)
  have a4: "locations_of ?n db4 = [?l4]" using alone_reported [where st = RUNNING, OF sv [OF s2]] a2 by (simp add: db4)
  have r4: "find_run ?n db4 = Some (start_run t2 r)"
    using alone_run [where st = RUNNING, OF sv [OF s2]] a2 r2 by (simp add: db4)
  have "x5 = None" and
    db5: "db5 = reported_db (site_at s t5) COMPLETED ''Worker pods have successfully completed running k6 tests'' ?l4 db4"
    using runs_out [where c = c5 and obj = obj5 and igs = igs4, OF f sv [OF s4]] ends step5 by simp_all
  have a5: "locations_of ?n db5 = [?l5]" using alone_reported [where st = COMPLETED, OF sv [OF s4]] a4 by (simp add: db5)
  have r5: "find_run ?n db5 = Some (complete_run t5 (start_run t2 r))"
    using alone_run [where st = COMPLETED, OF sv [OF s4]] a4 r4 by (simp add: db5)
  have "started_at (complete_run t5 (start_run t2 r)) = Some ?start"
    "completed_at (complete_run t5 (start_run t2 r)) = Some (floor_second t5)"
    using run(2,3) by (simp_all add: start_run_def complete_run_def)
  moreover have "t2 + seconds 29 < ?start" "?start \<le> t2 + seconds 30"
    using floor_second_bounds [of "t2 + seconds start_delay_seconds"]
    by (simp_all add: start_delay_seconds_def clock_defs)
  ultimately show ?thesis
    using \<open>x1 = None\<close> \<open>x2 = None\<close> \<open>x4 = None\<close> \<open>x5 = None\<close> r5 ig(2) igs2
    by (simp add: a1 a2 a4 a5 drive_reports_def)
qed

definition sample_solo :: database where
  "sample_solo = (sample_db False PENDING PENDING)\<lparr>tbl_run_location := [sample_row 4 ''eu'' 2 PENDING]\<rparr>"

lemma sample_solo_served: "served (sample_site 0) sample_solo (sample_row 4 ''eu'' 2 PENDING)"
proof -
  have "find_run n sample_solo = find_run n (sample_db False PENDING PENDING)" for n
    by (simp add: find_run_def sample_solo_def)
  moreover have "wf_db sample_solo"
    using sample_db_wf [of False PENDING PENDING]
    by (simp add: wf_db_def sample_solo_def sample_db_def keyed_rows_def placed_def)
  moreover have "run_is_draft sample_solo l = run_is_draft (sample_db False PENDING PENDING) l" for l
    by (simp add: run_is_draft_def sample_solo_def)
  ultimately show ?thesis
    using sample_served [of 0 PENDING PENDING]
    by (simp add: served_def row_readable_def) (simp add: sample_solo_def sample_site_def)
qed

theorem operator_drives_run_witness:
  "\<exists>db5 r'. map (\<lambda>l. (status l, status_description l)) (locations_of ''shop-a1'' db5) =
      [(COMPLETED, ''Worker pods have successfully completed running k6 tests'')] \<and>
    find_run ''shop-a1'' db5 = Some r' \<and> completed_at r' = Some (seconds 400)"
proof -
  let ?s = "sample_site 0" and ?l = "sample_row 4 ''eu'' 2 PENDING" and ?obj = "new_kube_job ''shop-a1''"
  let ?stable = "?obj\<lparr>kj_ready := Some 2\<rparr>" and ?active = "?obj\<lparr>kj_active := 2\<rparr>" and ?over = "?obj\<lparr>kj_succeeded := 2\<rparr>"
  let ?op = "\<lambda>t. site_operator (site_at ?s t)" and ?job = "job_of ?s sample_solo ?l"
  have n: "test_run ?l = ''shop-a1''" "status ?l = PENDING" "num_workers ?l = 2"
    by (simp_all add: sample_row_def new_test_run_location_def)
  have alone: "locations_of (test_run ?l) sample_solo = [?l]" by (simp add: locations_of_def sample_solo_def n)
  have run: "find_run (test_run ?l) sample_solo = Some (sample_run False)" "started_at (sample_run False) = None"
    "completed_at (sample_run False) = None" "pk_true (pk (sample_run False))"
    by (simp_all add: n find_run_def by_key_def sample_solo_def sample_db_def sample_run_def new_test_run_def pk_true_def)
  have make: "job_missing ?s (test_run ?l) None"
    "creates_job ?s ?job None (Some (mutate_job sample_lib ?job (new_kube_job (g_name ?job))))"
    by (simp_all add: job_missing_def sample_creates_job) (simp add: sample_site_def sample_kube_def)
  have found: "job_found ?s (test_run ?l) (Some ?stable) ?stable" "job_found ?s (test_run ?l) (Some ?active) ?active"
    "job_found ?s (test_run ?l) (Some ?over) ?over" "kj_ready ?stable = Some (of_nat (num_workers ?l))"
    "get_job_condition ?stable ''Failed'' = None" "get_job_condition ?active ''Failed'' = None"
    "get_job_condition ?over ''Failed'' = None" "kj_active ?active \<noteq> 0" "kj_active ?over = 0"
    "sint (kj_succeeded ?over) = int (num_workers ?l)"
    by (simp_all add: job_found_def sample_site_def sample_kube_def new_kube_job_def get_job_condition_def n)
  have stable: "pods_stable (site_at ?s (seconds 10)) (test_run ?l) (Some ?stable) (num_workers ?l)"
    by (simp add: pods_stable_def n) (simp add: sample_site_def sample_kube_def sample_pods_def
        is_pod_stable_ready_def clock_defs)
  have fires: "floor_second (seconds 10 + seconds start_delay_seconds) \<le> seconds 41"
    by (simp add: start_delay_seconds_def clock_defs)
  obtain x1 db1 c1' igs1 where 1: "reconcile (?op 0) (test_run ?l) ((sample_solo, None), Map.empty) = (x1, (db1, c1'), igs1)"
    by (metis surj_pair)
  obtain x2 db2 c2' igs2 where 2: "reconcile (?op (seconds 10)) (test_run ?l) ((db1, Some ?stable), igs1) = (x2, (db2, c2'), igs2)"
    by (metis surj_pair)
  obtain w3 igs3 where 3: "igniter_start (?op (seconds 41)) (test_run ?l) ((db2, Some ?stable), igs2) = (w3, igs3)"
    by (metis surj_pair)
  obtain x4 db4 c4' igs4 where 4: "reconcile (?op (seconds 45)) (test_run ?l) ((db2, Some ?active), igs3) = (x4, (db4, c4'), igs4)"
    by (metis surj_pair)
  obtain x5 db5 c5' igs5 where 5: "reconcile (?op (seconds 400)) (test_run ?l) ((db4, Some ?over), igs4) = (x5, (db5, c5'), igs5)"
    by (metis surj_pair)
  have "Map.empty (test_run ?l) = (None :: igniter option)" by simp
  from operator_drives_run [OF sample_site_laws sample_solo_served n(2) alone run this make
      found(1,5,4) stable fires found(2,6,8) found(3,7,9,10) 1 2 3 4 5]
  have "map (\<lambda>l. (status l, status_description l)) (locations_of ''shop-a1'' db5) =
      [(COMPLETED, ''Worker pods have successfully completed running k6 tests'')]"
    and "\<exists>r'. find_run ''shop-a1'' db5 = Some r' \<and> completed_at r' = Some (seconds 400)"
    by (auto simp: n drive_reports_def clock_defs)
  then show ?thesis by (intro exI [of _ db5]) simp
qed

end
