(* ===== verification/Duplicate.thy ===== *)
theory Duplicate
  imports Runs
begin

text \<open>
  The effect of \<open>duplicate_test_run\<close>: one new draft run under a generated name, with a
  pending copy of each location and copies of the variables and labels; nothing stored
  before changes. A generated name that is already in use undoes the whole duplication.
\<close>

section \<open>Generated names\<close>

lemma generated_name_nonempty:
  assumes "slugs e"
  shows "generated_name e tgt \<noteq> ''''"
proof -
  from assms obtain c where c: "c \<in> set (random_string e)" "lower_alnum c"
    by (auto simp: slugs_def list_all_iff) (metis list.set_intros(1) neq_Nil_conv)
  then have "c \<in> set (slugify e (h @ ''-'' @ random_string e))" for h
    using assms unfolding slugs_def by simp
  then have "c \<in> set (generated_name e tgt)" by (simp add: generated_name_def Let_def)
  then show ?thesis by auto
qed

lemma generated_name_slug: "slugs e \<Longrightarrow> list_all slug_char (generated_name e tgt)"
  by (simp add: slugs_def generated_name_def Let_def)

section \<open>Adding rows\<close>

definition add_run :: "test_run \<Rightarrow> database \<Rightarrow> database" where
  "add_run r db = db\<lparr>tbl_test_run := tbl_test_run db @ [r]\<rparr>"

definition add_run_locations :: "test_run_location list \<Rightarrow> database \<Rightarrow> database" where
  "add_run_locations ls db = db\<lparr>tbl_run_location := tbl_run_location db @ ls\<rparr>"

definition add_env_vars :: "test_run_env_var list \<Rightarrow> database \<Rightarrow> database" where
  "add_env_vars vs db = db\<lparr>tbl_env_var := tbl_env_var db @ vs\<rparr>"

definition add_labels :: "test_run_label list \<Rightarrow> database \<Rightarrow> database" where
  "add_labels bs db = db\<lparr>tbl_label := tbl_label db @ bs\<rparr>"

lemmas add_defs = add_run_def add_run_locations_def add_env_vars_def add_labels_def

lemma upsert_new: "key r \<notin> key ` set rows \<Longrightarrow> upsert key r rows = rows @ [r]"
  by (simp add: upsert_def list_ex_key)

text \<open>A row without its key: what a copy has in common with its original.\<close>

definition unkeyed :: "'a base_bare_model_scheme \<Rightarrow> 'a base_bare_model_scheme" where
  "unkeyed r = r\<lparr>pk := None\<rparr>"

lemma unkeyed_pk [simp]: "unkeyed (r\<lparr>pk := k\<rparr>) = unkeyed r"
  by (simp add: unkeyed_def)

lemma unkeyed_new: "pk r = None \<Longrightarrow> unkeyed r = r"
  by (simp add: unkeyed_def)

lemma assign_pk_new:
  "pk r = None \<Longrightarrow> unkeyed (assign_pk e rows r) = r"
  by (simp add: assign_pk_def unkeyed_new)

lemma keyed_new:
  "fresh_pk e \<Longrightarrow> keyed_rows rows \<Longrightarrow> pk r = None \<Longrightarrow> pk (assign_pk e rows r) \<notin> pk ` set rows"
  by (rule new_pk_fresh) (simp_all add: keyed_rows_def)

lemma save_new_row:
  assumes fresh: "fresh_pk e" and wf: "wf_db s" and new: "pk l = None"
    and free: "placed l \<notin> placed ` set (tbl_run_location s)"
    and refs: "has_name (test_run l) (tbl_test_run s)" "has_name (location l) (tbl_location s)"
  obtains l' where "unkeyed l' = l" "save_run_location_row e l s = (Inr l', add_run_locations [l'] s)"
    "wf_db (add_run_locations [l'] s)"
proof -
  let ?l = "assign_pk e (tbl_run_location s) l"
  have key: "pk ?l \<notin> pk ` set (tbl_run_location s)"
    using fresh wf new by (intro keyed_new) (simp_all add: wf_db_def)
  have same: "test_run ?l = test_run l" "location ?l = location l" "placed ?l = placed l"
    using new by (simp_all add: assign_pk_def placed_def)
  have put: "put_run_location ?l s = add_run_locations [?l] s"
    using key by (simp add: put_run_location_def add_run_locations_def upsert_new)
  have "\<not> pair_taken (tbl_run_location s) ?l"
    using free same(3) by (auto simp: pair_taken_iff) (metis imageI)
  then have row: "save_run_location_row e l s = (Inr ?l, add_run_locations [?l] s)"
    using refs same put by (simp add: save_run_location_row_def Let_def)
  show ?thesis
    using that [of ?l] row wf_save_run_location_row [OF wf row] assign_pk_new [OF new] by blast
qed

section \<open>The copies\<close>

lemma reset_location_simps [simp]:
  "pk (reset_location n l) = None" "test_run (reset_location n l) = n"
  "location (reset_location n l) = location l" "status (reset_location n l) = PENDING"
  "num_workers (reset_location n l) = num_workers l"
  by (simp_all add: reset_location_def)

lemma unkeyed_fields:
  "unkeyed l' = l \<Longrightarrow> test_run l' = test_run l \<and> location l' = location l \<and> status l' = status l"
  by (auto simp: unkeyed_def)

lemma add_run_locations_simps [simp]:
  "tbl_test_run (add_run_locations ls db) = tbl_test_run db"
  "tbl_location (add_run_locations ls db) = tbl_location db"
  "add_run_locations ks (add_run_locations ls db) = add_run_locations (ls @ ks) db"
  "add_run_locations [] db = db"
  by (simp_all add: add_run_locations_def)

lemma copy_locations:
  assumes fresh: "fresh_pk e"
  shows "wf_db s \<Longrightarrow> has_name n (tbl_test_run s) \<Longrightarrow> distinct (map location ls) \<Longrightarrow>
    \<forall>l \<in> set ls. has_name (location l) (tbl_location s) \<and> (n, location l) \<notin> placed ` set (tbl_run_location s) \<Longrightarrow>
    \<exists>ls'. for_each ls (\<lambda>l. bindp (save_run_location e (reset_location n l)) (\<lambda>_. ret ())) s =
        (Inr (), add_run_locations ls' s) \<and>
      map unkeyed ls' = map (reset_location n) ls \<and> wf_db (add_run_locations ls' s)"
proof (induction ls arbitrary: s)
  case Nil
  then show ?case by (intro exI [of _ "[]"]) (simp add: ret_def)
next
  case (Cons l ls)
  have free: "placed (reset_location n l) \<notin> placed ` set (tbl_run_location s)"
    using Cons.prems(4) by (simp add: placed_def)
  obtain l' where l': "unkeyed l' = reset_location n l"
    "save_run_location_row e (reset_location n l) s = (Inr l', add_run_locations [l'] s)"
    "wf_db (add_run_locations [l'] s)"
    using Cons.prems free
    by (elim save_new_row [OF fresh, rotated -1]) simp_all
  let ?s = "add_run_locations [l'] s"
  have at: "test_run l' = n" "location l' = location l" "status l' = PENDING"
    using unkeyed_fields [OF l'(1)] by simp_all
  have save: "save_run_location e (reset_location n l) s = (Inr l', ?s)"
    using at(3) save_row_result(1) [OF Cons.prems(1) l'(2)]
    by (simp add: save_run_location_eq [OF Cons.prems(1)] l'(2) after_save_plain)
  have "\<forall>x \<in> set ls. has_name (location x) (tbl_location ?s) \<and> (n, location x) \<notin> placed ` set (tbl_run_location ?s)"
  proof
    fix x
    assume x: "x \<in> set ls"
    with Cons.prems(3) have "location x \<noteq> location l" by (metis distinct.simps(2) image_eqI list.set_map list.simps(9))
    with x Cons.prems(4) at show "has_name (location x) (tbl_location ?s) \<and> (n, location x) \<notin> placed ` set (tbl_run_location ?s)"
      by (simp add: add_run_locations_def placed_def)
  qed
  with Cons.IH [of ?s] Cons.prems l'(3) obtain ls' where
    ls': "for_each ls (\<lambda>l. bindp (save_run_location e (reset_location n l)) (\<lambda>_. ret ())) ?s =
        (Inr (), add_run_locations ls' ?s)"
      "map unkeyed ls' = map (reset_location n) ls" "wf_db (add_run_locations ls' ?s)"
    by auto
  then show ?case
    using save l'(1) by (intro exI [of _ "l' # ls'"]) (simp add: bindp_def ret_def)
qed

text \<open>Variables and labels: a loop that adds one row per element.\<close>

lemma for_each_adds:
  assumes step: "\<And>x s. I s \<Longrightarrow> \<exists>y. f x s = (Inr (), add [y] s) \<and> h y = g x \<and> I (add [y] s)"
    and add: "\<And>s. add [] s = s" "\<And>xs ys s. add ys (add xs s) = add (xs @ ys) s"
  shows "I s \<Longrightarrow> \<exists>ys. for_each xs f s = (Inr (), add ys s) \<and> map h ys = map g xs \<and> I (add ys s)"
proof (induction xs arbitrary: s)
  case Nil
  then show ?case by (intro exI [of _ "[]"]) (simp add: ret_def add)
next
  case (Cons x xs)
  obtain y where y: "f x s = (Inr (), add [y] s)" "h y = g x" "I (add [y] s)"
    using step [OF Cons.prems] by blast
  from Cons.IH [OF y(3)] obtain ys where "for_each xs f (add [y] s) = (Inr (), add ys (add [y] s))"
    "map h ys = map g xs" "I (add ys (add [y] s))"
    by blast
  with y(1,2) show ?case by (intro exI [of _ "y # ys"]) (simp add: bindp_def add)
qed

lemma copy_env_vars:
  assumes fresh: "fresh_pk e" and "wf_db s" and "has_name n (tbl_test_run s)"
  shows "\<exists>vs'. for_each vs (\<lambda>v. bindp (save_env_var e (v\<lparr>pk := None, env_var_test_run := n\<rparr>)) (\<lambda>_. ret ())) s =
        (Inr (), add_env_vars vs' s) \<and>
      map unkeyed vs' = map (\<lambda>v. v\<lparr>pk := None, env_var_test_run := n\<rparr>) vs \<and>
      wf_db (add_env_vars vs' s) \<and> has_name n (tbl_test_run (add_env_vars vs' s))"
proof (rule for_each_adds [where I = "\<lambda>s. wf_db s \<and> has_name n (tbl_test_run s)"])
  fix v :: test_run_env_var and s
  assume I: "wf_db s \<and> has_name n (tbl_test_run s)"
  let ?v = "v\<lparr>pk := None, env_var_test_run := n\<rparr>"
  let ?v' = "assign_pk e (tbl_env_var s) ?v"
  have key: "pk ?v' \<notin> pk ` set (tbl_env_var s)"
    using fresh I by (intro keyed_new) (simp_all add: wf_db_def)
  have "env_var_test_run ?v' = n" by (simp add: assign_pk_def)
  then have save: "save_env_var e ?v s = (Inr ?v', add_env_vars [?v'] s)"
    using I key by (simp add: save_env_var_def put_env_var_def add_env_vars_def upsert_new Let_def)
  moreover have "wf_db (add_env_vars [?v'] s)" using I wf_save_env_var [OF _ save] by simp
  moreover have "unkeyed ?v' = ?v" by (rule assign_pk_new) simp
  ultimately show "\<exists>y. bindp (save_env_var e ?v) (\<lambda>_. ret ()) s = (Inr (), add_env_vars [y] s) \<and>
      unkeyed y = ?v \<and> wf_db (add_env_vars [y] s) \<and> has_name n (tbl_test_run (add_env_vars [y] s))"
    using I by (intro exI [of _ ?v']) (simp add: bindp_def ret_def add_env_vars_def)
qed (use assms in \<open>simp_all add: add_env_vars_def\<close>)

lemma copy_labels:
  assumes fresh: "fresh_pk e" and "wf_db s" and "has_name n (tbl_test_run s)"
  shows "\<exists>bs'. for_each bs (\<lambda>b. bindp (save_label e (b\<lparr>pk := None, label_test_run := n\<rparr>)) (\<lambda>_. ret ())) s =
        (Inr (), add_labels bs' s) \<and>
      map unkeyed bs' = map (\<lambda>b. b\<lparr>pk := None, label_test_run := n\<rparr>) bs \<and>
      wf_db (add_labels bs' s) \<and> has_name n (tbl_test_run (add_labels bs' s))"
proof (rule for_each_adds [where I = "\<lambda>s. wf_db s \<and> has_name n (tbl_test_run s)"])
  fix b :: test_run_label and s
  assume I: "wf_db s \<and> has_name n (tbl_test_run s)"
  let ?b = "b\<lparr>pk := None, label_test_run := n\<rparr>"
  let ?b' = "assign_pk e (tbl_label s) ?b"
  have key: "pk ?b' \<notin> pk ` set (tbl_label s)"
    using fresh I by (intro keyed_new) (simp_all add: wf_db_def)
  have "label_test_run ?b' = n" by (simp add: assign_pk_def)
  then have save: "save_label e ?b s = (Inr ?b', add_labels [?b'] s)"
    using I key by (simp add: save_label_def put_label_def add_labels_def upsert_new Let_def)
  moreover have "wf_db (add_labels [?b'] s)" using I wf_save_label [OF _ save] by simp
  moreover have "unkeyed ?b' = ?b" by (rule assign_pk_new) simp
  ultimately show "\<exists>y. bindp (save_label e ?b) (\<lambda>_. ret ()) s = (Inr (), add_labels [y] s) \<and>
      unkeyed y = ?b \<and> wf_db (add_labels [y] s) \<and> has_name n (tbl_test_run (add_labels [y] s))"
    using I by (intro exI [of _ ?b']) (simp add: bindp_def ret_def add_labels_def)
qed (use assms in \<open>simp_all add: add_labels_def\<close>)

section \<open>The duplicate\<close>

text \<open>The row of the new run, with the key and the times the save gives it.\<close>

definition copied_run :: "env \<Rightarrow> database \<Rightarrow> test_run \<Rightarrow> test_run" where
  "copied_run e db r =
     r\<lparr>pk := Some (new_pk e (List.map_filter pk (tbl_test_run db))), created_at := now e,
       updated_at := now e, name := generated_name e (target r), draft := True, started_at := None\<rparr>"

definition add_copies ::
  "test_run \<Rightarrow> test_run_location list \<Rightarrow> test_run_env_var list \<Rightarrow> test_run_label list \<Rightarrow> database \<Rightarrow> database" where
  "add_copies r ls vs bs db = add_labels bs (add_env_vars vs (add_run_locations ls (add_run r db)))"

lemma save_copied_run:
  assumes fresh: "fresh_pk e" and slugs: "slugs e" and wf: "wf_db db" and r: "has_name (test_output r) (tbl_output db)"
  shows "save_test_run e (reset_run r) db =
    (if has_name (generated_name e (target r)) (tbl_test_run db) then (Inl (IntegrityError ''name''), db)
     else (Inr (copied_run e db r), add_run (copied_run e db r) db))"
    and "\<not> has_name (generated_name e (target r)) (tbl_test_run db) \<Longrightarrow> wf_db (add_run (copied_run e db r) db)"
proof -
  let ?n = "generated_name e (target r)" and ?c = "copied_run e db r"
  let ?x = "(reset_run r)\<lparr>name := ?n\<rparr>"
  have new: "pk ?c \<notin> pk ` set (tbl_test_run db)"
    using keyed_new [OF fresh, of "tbl_test_run db" ?x] wf
    by (simp add: wf_db_def named_rows_def assign_pk_def copied_run_def reset_run_def)
  then have put: "put_run ?c db = add_run ?c db"
    by (simp add: put_run_def add_run_def upsert_new)
  have "\<not> has_row (tbl_test_run db) (?x\<lparr>pk := pk ?c\<rparr>)" using new by (simp add: has_row_iff)
  then have st: "stamp e (tbl_test_run db) (assign_pk e (tbl_test_run db) ?x) = ?c"
    by (simp add: stamp_def assign_pk_def copied_run_def reset_run_def)
  have "name_taken (tbl_test_run db) ?c \<longleftrightarrow> has_name ?n (tbl_test_run db)"
    using new by (simp add: name_taken_iff has_name_iff copied_run_def image_iff) metis
  moreover have "name (reset_run r) = ''''" "target (reset_run r) = target r" by (simp_all add: reset_run_def)
  moreover have out: "has_name (test_output ?c) (tbl_output db)"
    using r by (simp add: copied_run_def)
  ultimately show "save_test_run e (reset_run r) db =
    (if has_name ?n (tbl_test_run db) then (Inl (IntegrityError ''name''), db) else (Inr ?c, add_run ?c db))"
    by (simp add: save_test_run_def save_run_row_def Let_def st put)
  show "wf_db (add_run ?c db)" if "\<not> has_name ?n (tbl_test_run db)"
  proof -
    have "\<not> name_taken (tbl_test_run db) ?c"
      using that by (simp add: name_taken_iff has_name_iff copied_run_def image_iff) metis
    moreover have "keeps_name (tbl_test_run db) ?c" using new by (rule keeps_name_new)
    moreover have "name ?c \<noteq> ''''" using generated_name_nonempty [OF slugs] by (simp add: copied_run_def)
    ultimately have "wf_db (put_run ?c db)"
      using wf out by (intro wf_put_run) (simp_all add: copied_run_def)
    then show ?thesis by (simp add: put)
  qed
qed

lemma duplicate_test_run_eq:
  assumes fresh: "fresh_pk e" and slugs: "slugs e" and wf: "wf_db db" and r: "has_name (test_output r) (tbl_output db)"
    and free: "\<not> has_name (generated_name e (target r)) (tbl_test_run db)"
  obtains ls vs bs where
    "duplicate_test_run e r db = (Inr (copied_run e db r), add_copies (copied_run e db r) ls vs bs db)"
    "map unkeyed ls = map (reset_location (generated_name e (target r))) (locations_of (name r) db)"
    "map unkeyed vs = map (\<lambda>v. v\<lparr>pk := None, env_var_test_run := generated_name e (target r)\<rparr>) (env_vars_of (name r) db)"
    "map unkeyed bs = map (\<lambda>b. b\<lparr>pk := None, label_test_run := generated_name e (target r)\<rparr>) (labels_of (name r) db)"
    "wf_db (add_copies (copied_run e db r) ls vs bs db)"
proof -
  let ?n = "generated_name e (target r)" and ?c = "copied_run e db r"
  let ?s = "add_run ?c db"
  have save: "save_test_run e (reset_run r) db = (Inr ?c, ?s)" and w: "wf_db ?s"
    using save_copied_run [OF fresh slugs wf r] free by simp_all
  have nm: "name ?c = ?n" by (simp add: copied_run_def)
  have n: "has_name ?n (tbl_test_run ?s)" using nm by (auto simp: add_run_def has_name_iff)
  have "\<forall>l \<in> set (locations_of (name r) db). has_name (location l) (tbl_location ?s) \<and>
      (?n, location l) \<notin> placed ` set (tbl_run_location ?s)"
  proof
    fix l
    assume "l \<in> set (locations_of (name r) db)"
    then have "has_name (location l) (tbl_location db)"
      using wf_location_refs(2) [OF wf] by (simp add: locations_of_def)
    moreover have "(?n, location l) \<notin> placed ` set (tbl_run_location db)"
      using free wf_location_refs(1) [OF wf] by (auto simp: placed_def)
    ultimately show "has_name (location l) (tbl_location ?s) \<and>
      (?n, location l) \<notin> placed ` set (tbl_run_location ?s)" by (simp add: add_run_def)
  qed
  from copy_locations [OF fresh w n locations_distinct [OF wf] this] obtain ls where
    ls: "for_each (locations_of (name r) db) (\<lambda>l. bindp (save_run_location e (reset_location ?n l)) (\<lambda>_. ret ())) ?s =
        (Inr (), add_run_locations ls ?s)"
      "map unkeyed ls = map (reset_location ?n) (locations_of (name r) db)"
      "wf_db (add_run_locations ls ?s)"
    by blast
  let ?s2 = "add_run_locations ls ?s"
  from copy_env_vars [OF fresh ls(3), of ?n] n obtain vs where
    vs: "for_each (env_vars_of (name r) db) (\<lambda>v. bindp (save_env_var e (v\<lparr>pk := None, env_var_test_run := ?n\<rparr>)) (\<lambda>_. ret ())) ?s2 =
        (Inr (), add_env_vars vs ?s2)"
      "map unkeyed vs = map (\<lambda>v. v\<lparr>pk := None, env_var_test_run := ?n\<rparr>) (env_vars_of (name r) db)"
      "wf_db (add_env_vars vs ?s2)" "has_name ?n (tbl_test_run (add_env_vars vs ?s2))"
    by auto
  from copy_labels [OF fresh vs(3,4)] obtain bs where
    bs: "for_each (labels_of (name r) db) (\<lambda>b. bindp (save_label e (b\<lparr>pk := None, label_test_run := ?n\<rparr>)) (\<lambda>_. ret ()))
        (add_env_vars vs ?s2) = (Inr (), add_labels bs (add_env_vars vs ?s2))"
      "map unkeyed bs = map (\<lambda>b. b\<lparr>pk := None, label_test_run := ?n\<rparr>) (labels_of (name r) db)"
      "wf_db (add_labels bs (add_env_vars vs ?s2))"
    by blast
  show ?thesis
    using save nm ls vs bs
    by (intro that [of ls vs bs])
      (simp_all add: add_copies_def duplicate_test_run_def atomic_def bindp_def reads_def ret_def)
qed

text \<open>A name in use: the exception of the save undoes everything.\<close>

lemma duplicate_test_run_taken:
  assumes "fresh_pk e" and "slugs e" and "wf_db db" and "has_name (test_output r) (tbl_output db)"
    and "has_name (generated_name e (target r)) (tbl_test_run db)"
  shows "duplicate_test_run e r db = (Inl (IntegrityError ''name''), db)"
  using save_copied_run(1) [OF assms(1-4)] assms(5)
  by (simp add: duplicate_test_run_def atomic_def bindp_def reads_def)

lemma wf_duplicate_test_run:
  assumes "fresh_pk e" and "slugs e" and "wf_db db" and "has_name (test_output r) (tbl_output db)"
    and res: "duplicate_test_run e r db = (res, db')"
  shows "wf_db db'"
proof (cases "has_name (generated_name e (target r)) (tbl_test_run db)")
  case True
  with duplicate_test_run_taken [OF assms(1-4)] res assms(3) show ?thesis by simp
next
  case False
  from duplicate_test_run_eq [OF assms(1-4) False] res show ?thesis by (metis snd_conv)
qed

section \<open>Properties of the duplicate\<close>

lemma copies_of:
  assumes r: "name r = n" "\<not> has_name n (tbl_test_run db)" and wf: "wf_db db"
    and ls: "map unkeyed ls = map (reset_location n) ls0"
    and vs: "map unkeyed vs = map (\<lambda>v. v\<lparr>pk := None, env_var_test_run := n\<rparr>) vs0"
    and bs: "map unkeyed bs = map (\<lambda>b. b\<lparr>pk := None, label_test_run := n\<rparr>) bs0"
  shows "locations_of m (add_copies r ls vs bs db) = (if m = n then ls else locations_of m db)"
    and "env_vars_of m (add_copies r ls vs bs db) = (if m = n then vs else env_vars_of m db)"
    and "labels_of m (add_copies r ls vs bs db) = (if m = n then bs else labels_of m db)"
    and "find_run m (add_copies r ls vs bs db) = (if m = n then Some r else find_run m db)"
proof -
  have "test_run l = n" if "l \<in> set ls" for l
    using map_eq_elem [OF ls that] unkeyed_fields [of l] by auto
  moreover have "env_var_test_run (unkeyed v) = n" if "v \<in> set vs" for v
    using map_eq_elem [OF vs that] by auto
  then have "env_var_test_run v = n" if "v \<in> set vs" for v
    using that by (simp add: unkeyed_def)
  moreover have "label_test_run (unkeyed b) = n" if "b \<in> set bs" for b
    using map_eq_elem [OF bs that] by auto
  then have "label_test_run b = n" if "b \<in> set bs" for b
    using that by (simp add: unkeyed_def)
  moreover have "locations_of n db = []" "env_vars_of n db = []" "labels_of n db = []"
    using wf_dangling [OF wf r(2)] .
  ultimately show "locations_of m (add_copies r ls vs bs db) = (if m = n then ls else locations_of m db)"
    "env_vars_of m (add_copies r ls vs bs db) = (if m = n then vs else env_vars_of m db)"
    "labels_of m (add_copies r ls vs bs db) = (if m = n then bs else labels_of m db)"
    by (auto simp: add_copies_def add_defs locations_of_def env_vars_of_def labels_of_def filter_id_conv
        filter_empty_conv)
  have "find_run n db = None" using r(2) by (simp add: find_run_def by_key_None has_name_iff)
  then show "find_run m (add_copies r ls vs bs db) = (if m = n then Some r else find_run m db)"
    using r(1) by (auto simp: add_copies_def add_defs find_run_def by_key_def find_append split: option.split)
qed

text \<open>
  C35. Duplicating a run whose generated name is free: the copy is stored under that name as a
  draft that has not started, with the fields of the original; it has a pending location
  without a description for each location of the original, with the same workers, and the
  same variables and labels. Every other run, with its locations, variables and labels,
  the original included, is as before.
\<close>

theorem duplicate_copies_run:
  assumes "fresh_pk e" and "slugs e" and "wf_db db" and "r \<in> set (tbl_test_run db)"
    and "\<not> has_name (generated_name e (target r)) (tbl_test_run db)"
  shows "\<exists>dup db'. duplicate_test_run e r db = (Inr dup, db') \<and> wf_db db' \<and>
    name dup = generated_name e (target r) \<and> find_run (name dup) db' = Some dup \<and>
    draft dup \<and> started_at dup = None \<and>
    dup\<lparr>pk := pk r, name := name r, created_at := created_at r, updated_at := updated_at r, draft := draft r,
        started_at := started_at r\<rparr> = r \<and>
    map (\<lambda>l. l\<lparr>pk := None\<rparr>) (locations_of (name dup) db') =
      map (\<lambda>l. l\<lparr>pk := None, test_run := name dup, status := PENDING, status_description := ''''\<rparr>)
        (locations_of (name r) db) \<and>
    map (\<lambda>v. v\<lparr>pk := None\<rparr>) (env_vars_of (name dup) db') =
      map (\<lambda>v. v\<lparr>pk := None, env_var_test_run := name dup\<rparr>) (env_vars_of (name r) db) \<and>
    map (\<lambda>b. b\<lparr>pk := None\<rparr>) (labels_of (name dup) db') =
      map (\<lambda>b. b\<lparr>pk := None, label_test_run := name dup\<rparr>) (labels_of (name r) db) \<and>
    (\<forall>n. n \<noteq> name dup \<longrightarrow> find_run n db' = find_run n db \<and> locations_of n db' = locations_of n db \<and>
       env_vars_of n db' = env_vars_of n db \<and> labels_of n db' = labels_of n db)"
proof (rule duplicate_test_run_eq [OF assms(1-3) wf_run_output [OF assms(3,4)] assms(5)])
  fix ls vs bs
  let ?n = "generated_name e (target r)" and ?c = "copied_run e db r"
  let ?db' = "add_copies (copied_run e db r) ls vs bs db"
  assume dup: "duplicate_test_run e r db = (Inr ?c, ?db')" and wf': "wf_db ?db'"
    and rows: "map unkeyed ls = map (reset_location ?n) (locations_of (name r) db)"
      "map unkeyed vs = map (\<lambda>v. v\<lparr>pk := None, env_var_test_run := ?n\<rparr>) (env_vars_of (name r) db)"
      "map unkeyed bs = map (\<lambda>b. b\<lparr>pk := None, label_test_run := ?n\<rparr>) (labels_of (name r) db)"
  have n: "name ?c = ?n" by (simp add: copied_run_def)
  have fields: "draft ?c" "started_at ?c = None"
    "?c\<lparr>pk := pk r, name := name r, created_at := created_at r, updated_at := updated_at r, draft := draft r,
        started_at := started_at r\<rparr> = r"
    by (simp_all add: copied_run_def)
  from dup wf' n fields rows show ?thesis
    by (intro exI [of _ ?c] exI [of _ ?db'])
      (simp add: copies_of [OF n assms(5,3) rows] unkeyed_def [abs_def] reset_location_def [abs_def])
qed

theorem duplicate_copies_run_witness:
  "\<exists>dup db'. duplicate_test_run (sample_env 0) (sample_run False) (sample_db False FAILED CANCELED) = (Inr dup, db') \<and>
    name dup = ''shop-example-k3x9a'' \<and> draft dup \<and> locations_of ''shop-a1'' db' = locations_of ''shop-a1'' (sample_db False FAILED CANCELED)"
proof -
  have r: "sample_run False \<in> set (tbl_test_run (sample_db False FAILED CANCELED))" by (simp add: sample_db_def)
  have n: "generated_name (sample_env 0) (target (sample_run False)) = ''shop-example-k3x9a''" by code_simp
  have free: "\<not> has_name (generated_name (sample_env 0) (target (sample_run False)))
      (tbl_test_run (sample_db False FAILED CANCELED))"
    unfolding n by code_simp
  obtain dup db' where dup: "duplicate_test_run (sample_env 0) (sample_run False) (sample_db False FAILED CANCELED) = (Inr dup, db')"
    "name dup = ''shop-example-k3x9a''" "draft dup"
    "\<forall>n. n \<noteq> name dup \<longrightarrow> locations_of n db' = locations_of n (sample_db False FAILED CANCELED)"
    using duplicate_copies_run [OF sample_env_laws(1,4) sample_db_wf r free] unfolding n by blast
  moreover have "''shop-a1'' \<noteq> name dup" using dup(2) by simp
  ultimately show ?thesis by blast
qed

text \<open>
  The copy of a completed run is born completed: the duplication resets the start but not
  the end, so the copy, a draft with pending locations, keeps the end of the original, and no
  later completion of its own locations replaces it.
\<close>

theorem duplicate_keeps_end:
  assumes "fresh_pk e" and "slugs e" and "wf_db db" and "r \<in> set (tbl_test_run db)"
    and "\<not> has_name (generated_name e (target r)) (tbl_test_run db)" and "completed_at r = Some t"
  shows "\<exists>dup db'. duplicate_test_run e r db = (Inr dup, db') \<and> draft dup \<and> started_at dup = None \<and>
    completed_at dup = Some t \<and>
    (\<forall>l. test_run l = name dup \<longrightarrow> wf_db db' \<longrightarrow> set_test_completed_at e' l db' = (Inr (), db'))"
proof (rule duplicate_test_run_eq [OF assms(1-3) wf_run_output [OF assms(3,4)] assms(5)])
  fix ls vs bs
  let ?n = "generated_name e (target r)" and ?c = "copied_run e db r"
  let ?db' = "add_copies (copied_run e db r) ls vs bs db"
  assume dup: "duplicate_test_run e r db = (Inr ?c, ?db')"
    and rows: "map unkeyed ls = map (reset_location ?n) (locations_of (name r) db)"
      "map unkeyed vs = map (\<lambda>v. v\<lparr>pk := None, env_var_test_run := ?n\<rparr>) (env_vars_of (name r) db)"
      "map unkeyed bs = map (\<lambda>b. b\<lparr>pk := None, label_test_run := ?n\<rparr>) (labels_of (name r) db)"
  have n: "name ?c = ?n" and c: "completed_at ?c = Some t" using assms(6) by (simp_all add: copied_run_def)
  have "set_test_completed_at e' l ?db' = (Inr (), ?db')" if "test_run l = name ?c" for l
    using that n c by (simp add: set_test_completed_at_def get_run_def copies_of(4) [OF n assms(5,3) rows]
        bindp_def reads_def ret_def)
  with dup c show ?thesis
    by (intro exI [of _ ?c] exI [of _ ?db']) (simp add: copied_run_def)
qed

theorem duplicate_keeps_end_witness:
  "\<exists>dup db'. duplicate_test_run (sample_env 0) ((sample_run False)\<lparr>completed_at := Some 5000000\<rparr>)
      (update_run ''shop-a1'' (\<lambda>r. r\<lparr>completed_at := Some 5000000\<rparr>) (sample_db False COMPLETED COMPLETED)) = (Inr dup, db') \<and>
    draft dup \<and> completed_at dup = Some 5000000"
proof -
  let ?r = "(sample_run False)\<lparr>completed_at := Some 5000000\<rparr>"
  let ?db = "update_run ''shop-a1'' (\<lambda>r. r\<lparr>completed_at := Some 5000000\<rparr>) (sample_db False COMPLETED COMPLETED)"
  have wf: "wf_db ?db" by (rule wf_update_run [OF sample_db_wf]) simp_all
  have r: "?r \<in> set (tbl_test_run ?db)" by (simp add: sample_db_def update_run_def sample_run_def new_test_run_def)
  have free: "\<not> has_name (generated_name (sample_env 0) (target ?r)) (tbl_test_run ?db)" by code_simp
  have c: "completed_at ?r = Some 5000000" by simp
  show ?thesis using duplicate_keeps_end [OF sample_env_laws(1,4) wf r free c] by blast
qed

text \<open>
  When the generated name is taken, duplicating fails as a whole: the integrity error of the
  first save is raised and nothing is written.
\<close>

theorem duplicate_rolls_back:
  assumes "fresh_pk e" and "slugs e" and "wf_db db" and "r \<in> set (tbl_test_run db)"
    and "has_name (generated_name e (target r)) (tbl_test_run db)"
  shows "duplicate_test_run e r db = (Inl (IntegrityError ''name''), db)"
  using duplicate_test_run_taken [OF assms(1-3) wf_run_output [OF assms(3,4)] assms(5)] .

theorem duplicate_rolls_back_witness:
  "duplicate_test_run (sample_env 9) (sample_run False)
      (snd (duplicate_test_run (sample_env 0) (sample_run False) (sample_db False READY READY))) =
    (Inl (IntegrityError ''name''),
     snd (duplicate_test_run (sample_env 0) (sample_run False) (sample_db False READY READY)))"
proof -
  let ?db = "snd (duplicate_test_run (sample_env 0) (sample_run False) (sample_db False READY READY))"
  have r: "sample_run False \<in> set (tbl_test_run (sample_db False READY READY))" by (simp add: sample_db_def)
  have "wf_db ?db" by (rule wf_duplicate_test_run [OF sample_env_laws(1,4) sample_db_wf wf_run_output [OF sample_db_wf r] prod.collapse [symmetric]])
  moreover have "sample_run False \<in> set (tbl_test_run ?db)" by code_simp
  moreover have "has_name (generated_name (sample_env 9) (target (sample_run False))) (tbl_test_run ?db)" by code_simp
  ultimately show ?thesis by (rule duplicate_rolls_back [OF sample_env_laws(1,4)])
qed

text \<open>
  The name of a run: a save that returns has given the run a name that is not empty; a run
  that had one keeps it, and a run without one gets a slug (lower-case letters, digits, hyphens
  and underscores), so a name that has no slash and no dot and can stand in a URL.
\<close>

theorem save_test_run_named:
  assumes "slugs e" and "save_test_run e x db = (Inr r, db')"
  shows "name r \<noteq> '''' \<and>
    (if name x = '''' then list_all slug_char (name r) \<and> CHR ''/'' \<notin> set (name r) \<and> CHR ''.'' \<notin> set (name r)
     else name r = name x)"
proof -
  have nm: "name r = (if name x = '''' then generated_name e (target x) else name x)"
    using assms(2)
    by (auto simp: save_test_run_def save_run_row_def Let_def assign_pk_def split: if_splits option.splits)
  have "\<not> slug_char (CHR ''/'')" "\<not> slug_char (CHR ''.'')" by (simp_all add: slug_char_def lower_alnum_def)
  then show ?thesis
    using nm generated_name_nonempty [OF assms(1)] generated_name_slug [OF assms(1), of "target x"]
    by (auto simp: list_all_iff)
qed

theorem save_test_run_named_witness:
  "\<exists>r. fst (save_test_run (sample_env 0) (new_test_run ''https://shop.example/a'' ''default'') (sample_db True READY READY)) = Inr r \<and>
    list_all slug_char (name r)"
proof -
  let ?x = "new_test_run ''https://shop.example/a'' ''default''" and ?db = "sample_db True READY READY"
  let ?r = "?x\<lparr>pk := Some 8, name := ''shop-example-a-k3x9a''\<rparr>"
  have res: "save_test_run (sample_env 0) ?x ?db = (Inr ?r, snd (save_test_run (sample_env 0) ?x ?db))" by code_simp
  have "name ?x = ''''" by (simp add: new_test_run_def)
  with save_test_run_named [OF sample_env_laws(4) res] have "list_all slug_char (name ?r)" by simp
  with res show ?thesis by (metis fst_conv)
qed

end
