(* ===== verification/Grafana.thy ===== *)
theory Grafana
  imports Runs
begin

text \<open>
  The link to the dashboard of a run (\<open>TestRun.grafana_url\<close>) and the validator of the
  deadline (webapp/loadtest/validators.py). \<open>datetime.timestamp\<close> is a float, so the
  milliseconds in the link are computed with the rounding of binary floating point; on whole
  seconds, all the link uses for the start and the end, that is shown to be exact.
\<close>

section \<open>Milliseconds by floating point\<close>

text \<open>
  The float nearest to a quotient, ties to even, as a 53-bit integer over a power of two.
  The exponent is found from the quotient scaled by \<open>2 ^ 128\<close>; for the quotients of a
  timestamp (a datetime lies below the year 10000, so below \<open>2 ^ 38\<close> seconds, and above a
  microsecond) neither the scaled quotient nor the exponent leaves the range of the
  subtractions.
\<close>

definition round_half_even :: "nat \<Rightarrow> nat \<Rightarrow> nat" where
  "round_half_even a b =
     (let q = a div b; r = a mod b
      in if 2 * r < b \<or> (2 * r = b \<and> even q) then q else q + 1)"

fun bit_length :: "nat \<Rightarrow> nat" where
  "bit_length n = (if n = 0 then 0 else 1 + bit_length (n div 2))"

declare bit_length.simps [simp del]

definition float_quot :: "nat \<Rightarrow> nat \<Rightarrow> nat \<times> nat" where
  "float_quot a b =
     (let s = 181 - bit_length (a * 2 ^ 128 div b) in (round_half_even (a * 2 ^ s) b, s))"

text \<open>\<open>int(t.timestamp() * 1000)\<close>: two roundings and a truncation towards zero.\<close>

definition float_millis_nat :: "nat \<Rightarrow> nat" where
  "float_millis_nat us =
     (if us = 0 then 0
      else let (m, s) = float_quot us 1000000; (n, t) = float_quot (m * 1000) (2 ^ s)
           in n div 2 ^ t)"

definition float_millis :: "datetime \<Rightarrow> int" where
  "float_millis t =
     (if t < 0 then - int (float_millis_nat (nat (- t))) else int (float_millis_nat (nat t)))"

lemma round_half_even_exact: "0 < b \<Longrightarrow> round_half_even (n * b) b = n"
  by (simp add: round_half_even_def)

text \<open>A quotient that is a natural number is represented exactly (the rounding drops nothing).\<close>

lemma float_quot_exact:
  assumes "0 < b"
  shows "\<exists>s. float_quot (n * b) b = (n * 2 ^ s, s)"
proof -
  have "round_half_even (n * b * 2 ^ s) b = n * 2 ^ s" for s
    using round_half_even_exact [OF assms, of "n * 2 ^ s"] by (simp add: ac_simps)
  then show ?thesis by (simp add: float_quot_def Let_def)
qed

lemma float_millis_nat_seconds:
  "float_millis_nat (n * 1000000) = n * 1000"
proof (cases "n = 0")
  case True
  then show ?thesis by (simp add: float_millis_nat_def)
next
  case False
  obtain s where s: "float_quot (n * 1000000) 1000000 = (n * 2 ^ s, s)"
    using float_quot_exact [of 1000000 n] by auto
  obtain t where "float_quot (n * 1000 * 2 ^ s) (2 ^ s) = (n * 1000 * 2 ^ t, t)"
    using float_quot_exact [of "2 ^ s" "n * 1000"] by auto
  then have t: "float_quot (n * 2 ^ s * 1000) (2 ^ s) = (n * 1000 * 2 ^ t, t)"
    by (simp add: ac_simps)
  show ?thesis using False by (simp add: float_millis_nat_def s t)
qed

lemma float_millis_seconds: "float_millis (seconds n) = n * 1000"
proof -
  have "float_millis_nat (nat m * 1000000) = nat m * 1000" for m by (rule float_millis_nat_seconds)
  moreover have "nat (m * 1000000) = nat m * 1000000" for m :: int by (simp add: nat_mult_distrib)
  ultimately show ?thesis
    by (cases "n < 0") (simp_all add: float_millis_def seconds_def flip: mult_minus_left)
qed

section \<open>The link\<close>

text \<open>
  \<open>dashboard\<close> is \<open>settings.GRAFANA_DASHBOARD_URL\<close>, read from the environment of the process.
\<close>

definition grafana_url :: "env \<Rightarrow> string \<Rightarrow> test_run \<Rightarrow> string" where
  "grafana_url e dashboard r =
     (let date_from = ''now-1h''; date_to = ''now'';
          (date_from, date_to) =
            (case started_at r of
               None \<Rightarrow> (date_from, date_to)
             | Some s \<Rightarrow>
                 let from = floor_minute (s + minutes (- 5));
                     date_from = str_int (float_millis from);
                     date_to =
                       (if completed_at r = None
                        then let duration = hours 1;
                                 duration =
                                   (if job_deadline r \<noteq> ''''
                                    then (case duration_from_str e (job_deadline r) of
                                            Some deadline \<Rightarrow> deadline + minutes 5
                                          | None \<Rightarrow> duration)
                                    else duration)
                             in str_int (float_millis (from + duration))
                        else date_to)
                 in (date_from, date_to));
          (date_from, date_to) =
            (case completed_at r of
               None \<Rightarrow> (date_from, date_to)
             | Some c \<Rightarrow>
                 let to = floor_minute (c + minutes 5);
                     date_to = str_int (float_millis to);
                     date_from =
                       (if started_at r = None then str_int (float_millis (to + hours (- 1)))
                        else date_from)
                 in (date_from, date_to));
          url = dashboard @ ''&var-testid='' @ name r @ ''&from='' @ date_from @ ''&to='' @ date_to
      in if completed_at r = None then url @ ''&refresh=10s'' else url)"

text \<open>The validator of \<open>job_deadline\<close>.\<close>

definition validate_duration :: "env \<Rightarrow> string \<Rightarrow> exn + unit" where
  "validate_duration e v =
     (case duration_from_str e v of
        None \<Rightarrow> Inl (ValidationError (''Invalid duration '' @ v @
          ''. Use Golang duration format (https://pkg.go.dev/time#Duration).''))
      | Some _ \<Rightarrow> Inr ())"

section \<open>Properties of the link\<close>

lemma floor_minute_seconds: "floor_minute t = seconds (floor_minute t div 1000000)"
proof -
  have "floor_minute t = 1000000 * (60 * (t div 60000000))"
    by (simp add: floor_minute_def minus_mod_eq_mult_div)
  then show ?thesis by (simp add: seconds_def)
qed

lemma float_millis_minute: "float_millis (floor_minute t + seconds n) = (floor_minute t + seconds n) div 1000"
proof -
  have eq: "floor_minute t + seconds n = seconds (floor_minute t div 1000000 + n)"
    using floor_minute_seconds [of t] by (simp add: seconds_def algebra_simps)
  show ?thesis unfolding eq float_millis_seconds by (simp add: seconds_def)
qed

lemma seconds_0 [simp]: "seconds 0 = 0"
  by (simp add: seconds_def)

lemma hours_seconds: "hours n = seconds (3600 * n)" "minutes n = seconds (60 * n)"
  by (simp_all add: hours_def minutes_def seconds_def)

text \<open>
  C38. The link of a run that has ended shows exactly one window, in milliseconds without any rounding
  error: it starts on the whole minute at or before five minutes before the start (or one
  hour before its end, when the run never started), ends on the whole minute at or before five
  minutes after the end, and is not refreshed. With the end after the start the whole
  execution lies inside, with more than four minutes to spare on both sides.
\<close>

theorem grafana_completed_window:
  assumes "completed_at r = Some c"
  shows "\<exists>from to. grafana_url e dashboard r =
      dashboard @ ''&var-testid='' @ name r @ ''&from='' @ str_int (from div 1000) @ ''&to='' @ str_int (to div 1000) \<and>
    minutes 1 dvd to \<and> to \<le> c + minutes 5 \<and> c + minutes 4 < to \<and> minutes 1 dvd from \<and>
    (case started_at r of
       None \<Rightarrow> from = to - hours 1
     | Some s \<Rightarrow> from \<le> s - minutes 5 \<and> s - minutes 6 < from)"
proof -
  let ?to = "floor_minute (c + minutes 5)"
  let ?from = "case started_at r of None \<Rightarrow> ?to - hours 1 | Some s \<Rightarrow> floor_minute (s - minutes 5)"
  have ms: "float_millis (floor_minute t) = floor_minute t div 1000" for t
    using float_millis_minute [of t 0] by simp
  have ms_h: "float_millis (floor_minute t - hours 1) = (floor_minute t - hours 1) div 1000" for t
    using float_millis_minute [of t "- 3600"] by (simp add: hours_def seconds_def)
  have url: "grafana_url e dashboard r =
      dashboard @ ''&var-testid='' @ name r @ ''&from='' @ str_int (?from div 1000) @ ''&to='' @ str_int (?to div 1000)"
    using assms ms ms_h
    by (cases "started_at r") (simp_all add: grafana_url_def hours_def minutes_def Let_def)
  have to: "minutes 1 dvd ?to" "?to \<le> c + minutes 5" "c + minutes 4 < ?to"
    using floor_minute_bounds [of "c + minutes 5"] floor_minute_dvd by (simp_all add: minutes_def)
  have h: "minutes 1 dvd hours 1" by (simp add: minutes_def hours_def)
  have start: "minutes 1 dvd ?from" "case started_at r of None \<Rightarrow> ?from = ?to - hours 1
      | Some s \<Rightarrow> ?from \<le> s - minutes 5 \<and> s - minutes 6 < ?from"
    using floor_minute_bounds [of "the (started_at r) - minutes 5"] floor_minute_dvd to(1) h
    by (auto simp: minutes_def split: option.split)
  show ?thesis
    using url to start by (intro exI [of _ ?from] exI [of _ ?to]) simp
qed

theorem grafana_completed_window_witness:
  "\<exists>from to. grafana_url (sample_env 0) ''/d/k6?orgId=1''
      ((sample_run False)\<lparr>started_at := Some 1733155200000000, completed_at := Some 1733155300500000\<rparr>) =
    ''/d/k6?orgId=1&var-testid=shop-a1&from='' @ str_int (from div 1000) @ ''&to='' @ str_int (to div 1000) \<and>
    from \<le> 1733154900000000 \<and> 1733155540500000 < to"
proof -
  let ?r = "(sample_run False)\<lparr>started_at := Some 1733155200000000, completed_at := Some 1733155300500000\<rparr>"
  have c: "completed_at ?r = Some 1733155300500000" and n: "name ?r = ''shop-a1''"
    and s: "started_at ?r = Some 1733155200000000"
    by (simp_all add: sample_run_def)
  show ?thesis
    using grafana_completed_window [OF c, of "sample_env 0" "''/d/k6?orgId=1''"] unfolding n s
    by (simp add: minutes_def) blast
qed

text \<open>
  The link of a run in progress ends when its deadline does: with a deadline that passes the
  validator and is a whole number of seconds, the window ends the deadline and five minutes
  after its start, exactly; with one that does not parse, one hour after it; either way the
  dashboard is refreshed.
\<close>

theorem grafana_running_window:
  assumes "started_at r = Some s" and "completed_at r = None" and "job_deadline r \<noteq> ''''"
    and "\<forall>d. duration_from_str e (job_deadline r) = Some d \<longrightarrow> seconds 1 dvd d"
  shows "\<exists>from. minutes 1 dvd from \<and> from \<le> s - minutes 5 \<and> s - minutes 6 < from \<and>
    grafana_url e dashboard r = dashboard @ ''&var-testid='' @ name r @ ''&from='' @ str_int (from div 1000) @
      ''&to='' @ str_int ((from +
        (if validate_duration e (job_deadline r) = Inr ()
         then the (duration_from_str e (job_deadline r)) + minutes 5 else hours 1)) div 1000) @ ''&refresh=10s''"
proof -
  let ?from = "floor_minute (s - minutes 5)"
  have ms: "float_millis ?from = ?from div 1000"
    using float_millis_minute [of "s - minutes 5" 0] by simp
  have "float_millis (?from + hours 1) = (?from + hours 1) div 1000"
    unfolding hours_seconds by (rule float_millis_minute)
  moreover have "float_millis (?from + (d + minutes 5)) = (?from + (d + minutes 5)) div 1000"
    if "duration_from_str e (job_deadline r) = Some d" for d
  proof -
    from that assms(4) obtain n where "d = seconds n" by (auto simp: seconds_def dvd_def)
    then have "d + minutes 5 = seconds (n + 300)" by (simp add: seconds_def minutes_def)
    then show ?thesis using float_millis_minute [of "s - minutes 5" "n + 300"] by simp
  qed
  ultimately have "grafana_url e dashboard r =
      dashboard @ ''&var-testid='' @ name r @ ''&from='' @ str_int (?from div 1000) @
      ''&to='' @ str_int ((?from +
        (if validate_duration e (job_deadline r) = Inr ()
         then the (duration_from_str e (job_deadline r)) + minutes 5 else hours 1)) div 1000) @ ''&refresh=10s''"
    using assms(1-3) ms
    by (cases "duration_from_str e (job_deadline r)")
      (simp_all add: grafana_url_def validate_duration_def minutes_def Let_def)
  moreover have "minutes 1 dvd ?from \<and> ?from \<le> s - minutes 5 \<and> s - minutes 6 < ?from"
    using floor_minute_bounds [of "s - minutes 5"] floor_minute_dvd by (simp add: minutes_def)
  ultimately show ?thesis by blast
qed

theorem grafana_running_window_witness:
  "\<exists>from. grafana_url (sample_env 0) ''/d/k6?orgId=1'' ((sample_run False)\<lparr>started_at := Some 1733155200000000\<rparr>) =
    ''/d/k6?orgId=1&var-testid=shop-a1&from='' @ str_int (from div 1000) @ ''&to='' @
    str_int ((from + (3600000000 + minutes 5)) div 1000) @ ''&refresh=10s''"
proof -
  let ?r = "(sample_run False)\<lparr>started_at := Some 1733155200000000\<rparr>"
  have r: "started_at ?r = Some 1733155200000000" "completed_at ?r = None" "job_deadline ?r \<noteq> ''''"
    and n: "name ?r = ''shop-a1''" and d: "duration_from_str (sample_env 0) (job_deadline ?r) = Some 3600000000"
    by (simp_all add: sample_run_def new_test_run_def sample_env_def)
  have div: "\<forall>d. duration_from_str (sample_env 0) (job_deadline ?r) = Some d \<longrightarrow> seconds 1 dvd d"
    unfolding d by (simp add: seconds_def)
  have v: "validate_duration (sample_env 0) (job_deadline ?r) = Inr ()"
    unfolding validate_duration_def d by simp
  show ?thesis
    using grafana_running_window [OF r div, of "''/d/k6?orgId=1''"] unfolding n v d by auto
qed

end
