(* ===== verification/Admin.thy ===== *)
theory Admin
  imports Views Duplicate Grafana
begin

text \<open>
  webapp/loadtest/admin.py: what the admin site lets an operator change of a run before and
  after its start, the columns of the run list (status, completion, script), the actions
  that start and cancel runs, and the buttons of the edit page.
\<close>

section \<open>Inline forms\<close>

text \<open>The inlines of variables and labels; \<open>max_num\<close> is the attribute of the inline class.\<close>

definition inline_has_delete_permission :: "test_run option \<Rightarrow> bool" where
  "inline_has_delete_permission obj = (case obj of None \<Rightarrow> False | Some r \<Rightarrow> draft r)"

definition inline_has_change_permission :: "test_run option \<Rightarrow> bool" where
  "inline_has_change_permission obj = (case obj of None \<Rightarrow> True | Some r \<Rightarrow> draft r)"

definition inline_get_max_num :: "nat option \<Rightarrow> test_run option \<Rightarrow> nat option" where
  "inline_get_max_num max_num obj =
     (case obj of None \<Rightarrow> max_num | Some r \<Rightarrow> if \<not> draft r then Some 0 else max_num)"

text \<open>The inline of locations: as many rows as there are locations, extra ones for a new run only.\<close>

definition location_get_extra :: "database \<Rightarrow> test_run option \<Rightarrow> nat" where
  "location_get_extra db obj = (case obj of None \<Rightarrow> length (tbl_location db) | Some _ \<Rightarrow> 0)"

definition location_get_max_num :: "database \<Rightarrow> nat" where
  "location_get_max_num db = length (tbl_location db)"

text \<open>
  The form set proposes a location for each empty form: \<open>pop\<close> takes any element of a set,
  so the element is a parameter.
\<close>

record location_form =
  f_has_data :: bool
  f_has_pk :: bool
  f_initial :: "string option"

fun propose_locations ::
  "(string list \<Rightarrow> string) \<Rightarrow> string list \<Rightarrow> location_form list \<Rightarrow> location_form list" where
  "propose_locations pop avail [] = []"
| "propose_locations pop avail (f # fs) =
     (if \<not> f_has_data f \<and> \<not> f_has_pk f
      then (if avail = [] then f\<lparr>f_initial := None\<rparr> # propose_locations pop avail fs
            else f\<lparr>f_initial := Some (pop avail)\<rparr> #
              propose_locations pop (removeAll (pop avail) avail) fs)
      else f # propose_locations pop avail fs)"

definition formset_init ::
  "(string list \<Rightarrow> string) \<Rightarrow> database \<Rightarrow> test_run option \<Rightarrow> location_form list \<Rightarrow> location_form list" where
  "formset_init pop db obj forms =
     (let names = remdups (map name (tbl_location db));
          selected = (case obj of None \<Rightarrow> []
            | Some r \<Rightarrow> if pk_true (pk r) then map location (locations_of (name r) db) else []);
          avail = filter (\<lambda>n. n \<notin> set selected) names
      in propose_locations pop avail forms)"

section \<open>The edit form\<close>

definition get_repo_choices :: "database \<Rightarrow> string list" where
  "get_repo_choices db =
     (let repos = remdups (map source_repo (tbl_test_run db))
      in if default_repo \<notin> set repos then [default_repo] @ repos else repos)"

definition source_repo_choices :: "database \<Rightarrow> (string \<times> string) list" where
  "source_repo_choices db = map (\<lambda>repo. (repo, repo)) (get_repo_choices db)"

definition class_readonly_fields :: "string list" where
  "class_readonly_fields = [''draft'', ''name'']"

definition get_readonly_fields :: "test_run option \<Rightarrow> string list" where
  "get_readonly_fields obj =
     (case obj of
        None \<Rightarrow> class_readonly_fields
      | Some r \<Rightarrow>
          if \<not> draft r
          then [''name'', ''source_script'', ''source_ref'', ''target'', ''test_output'',
                ''resources_cpu'', ''resources_memory'', ''dedicated_nodes'', ''node_selector'',
                ''job_deadline''] @ class_readonly_fields
          else class_readonly_fields)"

text \<open>
  The fields of the form, \<open>fields = "__all__"\<close>: those of \<open>TestRun\<close> that are editable (the
  times and the key are not), in the order they are declared, the base class first.
\<close>

definition form_fields :: "string list" where
  "form_fields = [''name'', ''target'', ''test_output'', ''source_repo'', ''source_ref'',
     ''source_script'', ''resources_cpu'', ''resources_memory'', ''dedicated_nodes'',
     ''node_selector'', ''job_deadline'', ''draft'']"

section \<open>List columns\<close>

definition script :: "test_run \<Rightarrow> string" where
  "script r =
     (let s = source_repo r @ ''/'' @ source_script r;
          s = (if source_ref r \<noteq> ''main'' then s @ ''#'' @ source_ref r else s)
      in if py_startswith (source_repo r) ''github.com''
         then ''<a href=\"https://'' @ source_repo r @ ''/tree/'' @ source_ref r @ ''/'' @
              source_script r @ ''\" target=\"_blank\">'' @ s @ ''</a>''
         else s)"

definition results_link :: "env \<Rightarrow> string \<Rightarrow> test_run \<Rightarrow> string" where
  "results_link e dashboard r =
     (let url = grafana_url e dashboard r
      in ''[ <a href=\"'' @ url @ ''\" target=\"_blank\">Summary</a> ]'')"

definition status_count :: "database \<Rightarrow> test_run \<Rightarrow> status \<Rightarrow> nat" where
  "status_count db r s = py_get (statuses db r) (status_value s) 0"

definition status_total :: "database \<Rightarrow> test_run \<Rightarrow> nat" where
  "status_total db r = py_get (statuses db r) ''total'' 0"

definition completed_column :: "database \<Rightarrow> test_run \<Rightarrow> bool option" where
  "completed_column db r =
     (if draft r then None
      else if status_count db r FAILED > 0 then Some False
      else if status_count db r CANCELED > 0 then Some False
      else if status_count db r COMPLETED = status_total db r then Some True
      else None)"

definition status_column :: "database \<Rightarrow> test_run \<Rightarrow> string" where
  "status_column db r =
     (if draft r then ''Draft''
      else if status_count db r FAILED > 0 then status_label FAILED
      else if status_count db r CANCELED > 0 then status_label CANCELED
      else if status_count db r COMPLETED = status_total db r then status_label COMPLETED
      else if status_count db r PENDING > 0 then status_label PENDING
      else if status_count db r QUEUED > 0 then status_label QUEUED
      else if status_count db r READY > 0 then status_label READY
      else if status_count db r RUNNING > 0 then status_label RUNNING
      else ''Unknown'')"

definition location_status_column :: "env \<Rightarrow> test_location \<Rightarrow> bool option" where
  "location_status_column e l = staus e l"

section \<open>Actions\<close>

text \<open>
  The actions get the selected rows as a query; the loops count what they did. The message
  is what the operator sees.
\<close>

definition selected :: "nat option set \<Rightarrow> bool \<Rightarrow> database \<Rightarrow> test_run list" where
  "selected sel is_draft db = filter (\<lambda>r. pk r \<in> sel \<and> draft r = is_draft) (tbl_test_run db)"

fun start_loop :: "env \<Rightarrow> test_run list \<Rightarrow> nat \<Rightarrow> nat web" where
  "start_loop e [] n = ret n"
| "start_loop e (r # rs) n = bindp (start_test_run e True r) (\<lambda>_. start_loop e rs (n + 1))"

definition start_test_runs :: "env \<Rightarrow> nat option set \<Rightarrow> string web" where
  "start_test_runs e sel =
     bindp (reads (selected sel True)) (\<lambda>rs.
     bindp (start_loop e rs 0) (\<lambda>n.
     ret (''Started '' @ str_nat n @ '' Test Runs'')))"

fun cancel_loop :: "env \<Rightarrow> test_run list \<Rightarrow> nat \<Rightarrow> nat web" where
  "cancel_loop e [] n = ret n"
| "cancel_loop e (r # rs) n =
     bindp (reads (\<lambda>db. status_count db r FAILED = 0 \<and> status_count db r COMPLETED \<noteq> status_total db r))
       (\<lambda>c. if c
         then bindp (cancel_run e (Some ''Test manually canceled'') r) (\<lambda>_. cancel_loop e rs (n + 1))
         else cancel_loop e rs n)"

definition cancel_test_runs :: "env \<Rightarrow> nat option set \<Rightarrow> string web" where
  "cancel_test_runs e sel =
     bindp (reads (selected sel False)) (\<lambda>rs.
     bindp (cancel_loop e rs 0) (\<lambda>n.
     ret (''Canceled '' @ str_nat n @ '' Test Runs'')))"

section \<open>The edit page\<close>

definition changeform_actions :: "test_run option \<Rightarrow> string list" where
  "changeform_actions obj =
     (case obj of None \<Rightarrow> []
      | Some r \<Rightarrow> [''duplicate''] @ (if draft r then [''saveandrun''] else []))"

definition show_save_and_add_another :: "test_run option \<Rightarrow> bool option" where
  "show_save_and_add_another obj = (case obj of None \<Rightarrow> None | Some _ \<Rightarrow> Some False)"

text \<open>What the page answers: back to the list, to the copy, or Django's own response.\<close>

datatype change_response = ToList | ToCopy "nat option" | DefaultResponse

definition response_change :: "env \<Rightarrow> string set \<Rightarrow> test_run \<Rightarrow> change_response web" where
  "response_change e post r =
     (if ''_saveandrun'' \<in> post
      then bindp (save_test_run e (r\<lparr>draft := False\<rparr>)) (\<lambda>_. ret ToList)
      else if ''_duplicate'' \<in> post
      then bindp (duplicate_test_run e r) (\<lambda>dup. ret (ToCopy (pk dup)))
      else ret DefaultResponse)"

section \<open>The columns\<close>

lemma status_count_eq: "status_count db r s = length (filter (\<lambda>l. status l = s) (locations_of (name r) db))"
  by (simp add: status_count_def statuses_get)

lemma status_total_eq: "status_total db r = length (locations_of (name r) db)"
  by (simp add: status_total_def statuses_total)

lemma status_count_pos:
  "status_count db r s > 0 \<longleftrightarrow> s \<in> status ` set (locations_of (name r) db)"
  by (auto simp: status_count_eq filter_empty_conv)

lemma status_count_all:
  "status_count db r s = status_total db r \<longleftrightarrow> status ` set (locations_of (name r) db) \<subseteq> {s}"
  by (auto simp: status_count_eq status_total_eq length_filter_all)

lemma Min_status:
  assumes "finite S" and "m \<in> S" and "\<And>s. s \<in> S \<Longrightarrow> severity m \<le> severity s"
  shows "Min S = m"
  using assms by (intro Min_eqI) (auto simp: less_eq_status_def)

lemma all_completed_min:
  fixes db :: database
  assumes ne: "locations_of n db \<noteq> []"
  shows "status ` set (locations_of n db) \<subseteq> {COMPLETED} \<longleftrightarrow>
    Min (status ` set (locations_of n db)) = COMPLETED"
proof -
  let ?S = "status ` set (locations_of n db)"
  have fin: "finite ?S" and "?S \<noteq> {}" using ne by auto
  then have m: "Min ?S \<in> ?S" by (rule Min_in)
  have top: "s = COMPLETED" if "Min ?S = COMPLETED" "s \<in> ?S" for s
    using Min_le [OF fin that(2)] that(1) by (cases s) (simp_all add: less_eq_status_def)
  show ?thesis using m top by blast
qed

text \<open>
  The status column is the first status of the run's locations in the order of severity.
\<close>

lemma status_column_min:
  assumes "\<not> draft r" and ne: "locations_of (name r) db \<noteq> []"
  shows "status_column db r = status_label (Min (status ` set (locations_of (name r) db)))"
proof -
  let ?S = "status ` set (locations_of (name r) db)"
  have fin: "finite ?S" and "?S \<noteq> {}" using ne by auto
  then have m: "Min ?S \<in> ?S" by (rule Min_in)
  have least: "severity (Min ?S) \<le> severity s" if "s \<in> ?S" for s
    using Min_le [OF fin that] by (simp add: less_eq_status_def)
  have out: "s \<notin> ?S" if "severity s < severity (Min ?S)" for s
    using least [of s] that by auto
  have all: "?S \<subseteq> {COMPLETED} \<longleftrightarrow> Min ?S = COMPLETED" by (rule all_completed_min) fact
  have counts: "status_count db r s > 0 \<longleftrightarrow> s \<in> ?S" for s by (rule status_count_pos)
  show ?thesis
    using assms(1) m out
    by (cases "Min ?S") (simp_all add: status_column_def counts status_count_all all)
qed

lemma completed_column_status:
  assumes "\<not> draft r" and "locations_of (name r) db \<noteq> []"
  shows "completed_column db r =
    (case Min (status ` set (locations_of (name r) db)) of
       FAILED \<Rightarrow> Some False | CANCELED \<Rightarrow> Some False | COMPLETED \<Rightarrow> Some True | _ \<Rightarrow> None)"
proof -
  let ?S = "status ` set (locations_of (name r) db)"
  have fin: "finite ?S" and "?S \<noteq> {}" using assms(2) by auto
  then have m: "Min ?S \<in> ?S" by (rule Min_in)
  have least: "severity (Min ?S) \<le> severity s" if "s \<in> ?S" for s
    using Min_le [OF fin that] by (simp add: less_eq_status_def)
  have out: "s \<notin> ?S" if "severity s < severity (Min ?S)" for s
    using least [of s] that by auto
  have all: "?S \<subseteq> {COMPLETED} \<longleftrightarrow> Min ?S = COMPLETED" by (rule all_completed_min) fact
  have counts: "status_count db r s > 0 \<longleftrightarrow> s \<in> ?S" for s by (rule status_count_pos)
  show ?thesis
    using assms(1) m out
    by (cases "Min ?S") (simp_all add: completed_column_def counts status_count_all all)
qed

section \<open>The actions\<close>

lemma start_loop_count:
  assumes "\<And>r s. r \<in> set rs \<Longrightarrow> I s \<Longrightarrow>
    start_test_run e True r s = (Inr (h r), g r s) \<and> I (g r s)" and "I s"
  shows "start_loop e rs n s = (Inr (n + length rs), fold g rs s) \<and> I (fold g rs s)"
  using assms by (induction rs arbitrary: s n) (simp_all add: ret_def bindp_def)

definition started :: "datetime \<Rightarrow> test_run \<Rightarrow> test_run" where
  "started t r = r\<lparr>draft := False, updated_at := t\<rparr>"

lemma fold_put_runs:
  assumes "keyed_rows (tbl_test_run db)" and "set rs \<subseteq> set (tbl_test_run db)"
    and h: "\<And>r. pk (h r) = pk r"
  shows "fold (\<lambda>r. put_run (h r)) rs db = update_runs (\<lambda>x. if x \<in> set rs then h x else x) db"
proof -
  have "fold (\<lambda>r. put_run (h r)) rs db =
      db\<lparr>tbl_test_run := fold (\<lambda>r. upsert pk (h r)) rs (tbl_test_run db)\<rparr>" for db :: database
    by (induction rs arbitrary: db) (simp_all add: put_run_def)
  with assms show ?thesis
    by (simp add: fold_upsert_rows keyed_rows_def update_runs_def)
qed

text \<open>
  Starting the selected runs clears the draft flag of exactly the selected drafts, and the
  message counts them.
\<close>

lemma start_test_runs_eq:
  assumes wf: "wf_db db"
  shows "start_test_runs e sel db =
    (Inr (''Started '' @ str_nat (length (selected sel True db)) @ '' Test Runs''),
     update_runs (\<lambda>r. if pk r \<in> sel \<and> draft r then started (now e) r else r) db)"
proof -
  let ?rs = "selected sel True db"
  let ?I = "\<lambda>s. wf_db s \<and> (\<forall>r \<in> set ?rs. run_stored_at s r)"
  have sub: "set ?rs \<subseteq> set (tbl_test_run db)" by (auto simp: selected_def)
  have step: "start_test_run e True r s = (Inr (started (now e) r), put_run (started (now e) r) s) \<and>
      ?I (put_run (started (now e) r) s)" if r: "r \<in> set ?rs" and I: "?I s" for r s
  proof -
    have st: "run_stored_at s (r\<lparr>draft := False\<rparr>)" using I r by (simp add: run_stored_at_def)
    have eq: "(r\<lparr>draft := False\<rparr>)\<lparr>updated_at := now e\<rparr> = started (now e) r" by (simp add: started_def)
    have 1: "start_test_run e True r s = (Inr (started (now e) r), put_run (started (now e) r) s)"
      using save_run_stored_at(1) [OF _ st, of e] I by (simp add: start_test_run_def eq)
    have 2: "wf_db (put_run (started (now e) r) s)"
      using save_run_stored_at(2) [OF _ st, of e] I by (simp add: eq)
    have "run_stored_at (put_run (started (now e) r) s) x" if x: "x \<in> set ?rs" for x
    proof (cases "pk x = pk r")
      case True
      with r x sub have "x = r"
        using keyed_rows_same [of "tbl_test_run db" x r] wf_rows(3) [OF wf]
        by (auto simp: named_rows_def)
      moreover have "has_name (test_output r) (tbl_output s)" using I r by (simp add: run_stored_at_def)
      ultimately show ?thesis
        by (simp add: run_stored_at_def put_run_def set_upsert started_def)
    next
      case False
      from I x obtain y where "y \<in> set (tbl_test_run s)" "pk y = pk x" "name y = name x"
        and "has_name (test_output x) (tbl_output s)"
        by (auto simp: run_stored_at_def)
      with False show ?thesis
        by (auto simp: run_stored_at_def put_run_def set_upsert started_def)
    qed
    with 1 2 show ?thesis by blast
  qed
  have "?I db"
    using wf sub wf_run_output [OF wf] by (auto simp: run_stored_at_def)
  with step have "start_loop e ?rs 0 db =
      (Inr (length ?rs), fold (\<lambda>r. put_run (started (now e) r)) ?rs db)"
    using start_loop_count [of ?rs ?I e "started (now e)" "\<lambda>r. put_run (started (now e) r)" db 0]
    by auto
  also have "fold (\<lambda>r. put_run (started (now e) r)) ?rs db =
      update_runs (\<lambda>x. if x \<in> set ?rs then started (now e) x else x) db"
    using wf sub by (intro fold_put_runs) (simp_all add: wf_db_def named_rows_def started_def)
  also have "\<dots> = update_runs (\<lambda>r. if pk r \<in> sel \<and> draft r then started (now e) r else r) db"
    by (auto simp: update_runs_def selected_def)
  finally show ?thesis by (simp add: start_test_runs_def bindp_def reads_def ret_def)
qed

text \<open>
  Canceling the selected runs: those that are started, have no failed location and are not
  complete; each run is decided by its own locations only, so the order does not matter.
\<close>

definition cancelable :: "database \<Rightarrow> test_run \<Rightarrow> bool" where
  "cancelable db r \<longleftrightarrow> status_count db r FAILED = 0 \<and> status_count db r COMPLETED \<noteq> status_total db r"

definition manual_cancel :: "database \<Rightarrow> test_run list \<Rightarrow> test_run_location \<Rightarrow> test_run_location" where
  "manual_cancel db rs l =
     (if list_ex (\<lambda>r. name r = test_run l \<and> cancelable db r) rs
      then cancel_row (test_run l) (Some ''Test manually canceled'') l else l)"

lemma locations_of_other:
  assumes "\<And>l. test_run (f l) = test_run l" and "\<And>l. test_run l = n \<Longrightarrow> f l = l"
  shows "locations_of n (update_run_locations f db) = locations_of n db"
proof -
  have "filter (\<lambda>l. test_run l = n) (map f rows) = filter (\<lambda>l. test_run l = n) rows" for rows
    using assms by (induction rows) auto
  then show ?thesis by (simp add: locations_of_def update_run_locations_def)
qed

lemma cancelable_other:
  "name x \<noteq> name r \<Longrightarrow> cancelable (update_run_locations (cancel_row (name r) m) db) x = cancelable db x"
  using locations_of_other [of "cancel_row (name r) m" "name x" db]
  by (simp add: cancelable_def status_count_eq status_total_eq cancel_row_def)

lemma update_run_locations_twice:
  "update_run_locations f (update_run_locations g db) = update_run_locations (\<lambda>l. f (g l)) db"
  by (simp add: update_run_locations_def comp_def)

lemma cancel_loop_eq:
  assumes fsm: "fsm_moves e"
  shows "wf_db db \<Longrightarrow> distinct (map name rs) \<Longrightarrow> cancel_loop e rs n db =
    (Inr (n + length (filter (cancelable db) rs)), update_run_locations (manual_cancel db rs) db)"
proof (induction rs arbitrary: n db)
  case Nil
  have "manual_cancel db [] = (\<lambda>l. l)" by (simp add: manual_cancel_def fun_eq_iff)
  then show ?case by (simp add: ret_def update_run_locations_def)
next
  case (Cons r rs)
  let ?c = "cancel_row (name r) (Some ''Test manually canceled'')"
  show ?case
  proof (cases "cancelable db r")
    case False
    then have "manual_cancel db (r # rs) = manual_cancel db rs" by (simp add: manual_cancel_def fun_eq_iff)
    moreover have "cancel_loop e (r # rs) n db = cancel_loop e rs n db"
      using False by (auto simp: bindp_def reads_def cancelable_def)
    ultimately show ?thesis using Cons False by simp
  next
    case True
    let ?db = "update_run_locations ?c db"
    have wf: "wf_db ?db" using Cons.prems(1) by (rule wf_update_run_locations) simp_all
    have other: "cancelable ?db x = cancelable db x" if "x \<in> set rs" for x
      using that Cons.prems(2) by (intro cancelable_other) (auto simp: rev_image_eqI)
    have "manual_cancel ?db rs (?c l) = manual_cancel db (r # rs) l" for l
    proof -
      have "\<not> list_ex (\<lambda>x. name x = name r \<and> cancelable ?db x) rs"
        using Cons.prems(2) by (auto simp: list_ex_iff rev_image_eqI)
      moreover have "list_ex (\<lambda>x. name x = m \<and> cancelable ?db x) rs = list_ex (\<lambda>x. name x = m \<and> cancelable db x) rs" for m
        using other by (auto simp: list_ex_iff)
      ultimately show ?thesis
        using True by (cases "test_run l = name r") (simp_all add: manual_cancel_def cancel_row_def)
    qed
    then have "update_run_locations (manual_cancel ?db rs) ?db = update_run_locations (manual_cancel db (r # rs)) db"
      by (simp add: update_run_locations_twice)
    moreover have "filter (cancelable ?db) rs = filter (cancelable db) rs" using other by (simp cong: filter_cong)
    moreover have "cancel_loop e (r # rs) n db = cancel_loop e rs (n + 1) ?db"
      using True by (simp add: bindp_def reads_def cancelable_def cancel_run_eq [OF fsm Cons.prems(1)])
    ultimately show ?thesis using Cons.IH [OF wf, of "n + 1"] Cons.prems(2) True by simp
  qed
qed

lemma cancel_test_runs_eq:
  assumes fsm: "fsm_moves e" and wf: "wf_db db"
  shows "cancel_test_runs e sel db =
    (Inr (''Canceled '' @ str_nat (length (filter (cancelable db) (selected sel False db))) @ '' Test Runs''),
     update_run_locations (manual_cancel db (selected sel False db)) db)"
proof -
  have "distinct (map name (selected sel False db))"
    using wf_rows(3) [OF wf] by (simp add: selected_def named_rows_def distinct_map_filter)
  then show ?thesis
    by (simp add: cancel_test_runs_def bindp_def reads_def ret_def cancel_loop_eq [OF fsm wf])
qed

section \<open>Properties of the admin site\<close>

text \<open>
  The status column of a started run with locations is the label of the least of its
  locations' statuses in the order failed, canceled, pending, queued, ready, running,
  completed: one failure decides, and only when all are completed is the run shown as
  completed. The label Unknown is never shown for such a run.
\<close>

theorem status_column_least:
  assumes "\<not> draft r" and "locations_of (name r) db \<noteq> []"
  shows "status_column db r = status_label (Min (status ` set (locations_of (name r) db))) \<and>
    status_column db r \<noteq> ''Unknown''"
proof -
  have "status_label s \<noteq> ''Unknown''" for s by (cases s) simp_all
  then show ?thesis using status_column_min [OF assms] by simp
qed

theorem status_column_least_witness:
  "status_column (sample_db False RUNNING QUEUED) (sample_run False) = ''Queued''"
proof -
  have d: "\<not> draft (sample_run False)" and ne: "locations_of (name (sample_run False)) (sample_db False RUNNING QUEUED) \<noteq> []"
    by code_simp+
  have "status ` set (locations_of (name (sample_run False)) (sample_db False RUNNING QUEUED)) = {RUNNING, QUEUED}"
    by (simp add: sample_defs locations_of_def)
  moreover have "Min {RUNNING, QUEUED} = QUEUED" by (rule Min_status) auto
  ultimately show ?thesis using status_column_least [OF d ne] by simp
qed

text \<open>
  The completion column agrees with the status column: it is a cross exactly for a run
  shown as failed or canceled, a tick exactly for one shown as completed, and empty otherwise.
\<close>

theorem completed_column_agrees:
  assumes "\<not> draft r" and "locations_of (name r) db \<noteq> []"
  shows "completed_column db r =
    (if status_column db r \<in> {status_label FAILED, status_label CANCELED} then Some False
     else if status_column db r = status_label COMPLETED then Some True else None)"
  unfolding completed_column_status [OF assms] status_column_min [OF assms]
  by (simp split: status.split)

theorem completed_column_agrees_witness:
  "completed_column (sample_db False COMPLETED CANCELED) (sample_run False) = Some False"
proof -
  have d: "\<not> draft (sample_run False)" and ne: "locations_of (name (sample_run False)) (sample_db False COMPLETED CANCELED) \<noteq> []"
    and s: "status_column (sample_db False COMPLETED CANCELED) (sample_run False) = ''Canceled''"
    by code_simp+
  show ?thesis unfolding completed_column_agrees [OF d ne] s by simp
qed

text \<open>
  A started run without locations is shown as completed, by both columns, though nothing
  of it has run.
\<close>

theorem empty_run_shown_completed:
  assumes "\<not> draft r" and "locations_of (name r) db = []"
  shows "status_column db r = status_label COMPLETED \<and> completed_column db r = Some True"
  using assms by (simp add: status_column_def completed_column_def status_count_eq status_total_eq)

theorem empty_run_shown_completed_witness:
  "status_column ((sample_db False READY READY)\<lparr>tbl_run_location := []\<rparr>) (sample_run False) = ''Completed''"
proof -
  have d: "\<not> draft (sample_run False)"
    and e: "locations_of (name (sample_run False)) ((sample_db False READY READY)\<lparr>tbl_run_location := []\<rparr>) = []"
    by (simp_all add: sample_run_def locations_of_def)
  show ?thesis using empty_run_shown_completed [OF d e] by simp
qed

text \<open>
  The action that starts runs cannot fail: exactly the selected drafts lose their draft flag
  and get a new update time, nothing else changes in any table, and the message counts them.
\<close>

theorem start_test_runs_effect:
  assumes "wf_db db"
  shows "start_test_runs e sel db =
    (Inr (''Started '' @ str_nat (length (filter (\<lambda>r. pk r \<in> sel \<and> draft r) (tbl_test_run db))) @ '' Test Runs''),
     db\<lparr>tbl_test_run :=
       map (\<lambda>r. if pk r \<in> sel \<and> draft r then r\<lparr>draft := False, updated_at := now e\<rparr> else r) (tbl_test_run db)\<rparr>)"
  using start_test_runs_eq [OF assms, of e sel]
  by (simp add: selected_def started_def update_runs_def)

theorem start_test_runs_effect_witness:
  "fst (start_test_runs (sample_env 5) {Some 7} (sample_db True PENDING PENDING)) = Inr ''Started 1 Test Runs''"
  unfolding start_test_runs_effect [OF sample_db_wf]
  by (simp add: sample_db_def sample_run_def new_test_run_def str_nat_1)

text \<open>
  C37. The action that cancels runs cannot fail: of the selected started runs it cancels those
  without a failed location that are not complete, each by ending its locations that have not
  ended yet; every other location and every other table stays as it is, and the message
  counts the runs, those whose locations had all been canceled before included.
\<close>

theorem cancel_test_runs_effect:
  assumes "fsm_moves e" and "wf_db db"
  shows "cancel_test_runs e sel db =
    (Inr (''Canceled '' @ str_nat (length (filter
        (\<lambda>r. pk r \<in> sel \<and> \<not> draft r \<and> (\<forall>l \<in> set (locations_of (name r) db). status l \<noteq> FAILED) \<and>
             (\<exists>l \<in> set (locations_of (name r) db). status l \<noteq> COMPLETED)) (tbl_test_run db))) @ '' Test Runs''),
     db\<lparr>tbl_run_location := map (\<lambda>l.
       if \<not> ended (status l) \<and>
          (\<exists>r \<in> set (tbl_test_run db). pk r \<in> sel \<and> \<not> draft r \<and> name r = test_run l \<and>
             (\<forall>x \<in> set (locations_of (name r) db). status x \<noteq> FAILED))
       then l\<lparr>status := CANCELED, status_description := ''Test manually canceled''\<rparr> else l)
       (tbl_run_location db)\<rparr>)"
proof -
  have c: "cancelable db r \<longleftrightarrow> (\<forall>l \<in> set (locations_of (name r) db). status l \<noteq> FAILED) \<and>
      (\<exists>l \<in> set (locations_of (name r) db). status l \<noteq> COMPLETED)" for r
    by (simp add: cancelable_def status_count_eq status_total_eq length_filter_all filter_empty_conv)
  have "manual_cancel db (selected sel False db) l =
      (if \<not> ended (status l) \<and>
          (\<exists>r \<in> set (tbl_test_run db). pk r \<in> sel \<and> \<not> draft r \<and> name r = test_run l \<and>
             (\<forall>x \<in> set (locations_of (name r) db). status x \<noteq> FAILED))
       then l\<lparr>status := CANCELED, status_description := ''Test manually canceled''\<rparr> else l)"
    if l: "l \<in> set (tbl_run_location db)" for l
  proof (cases "ended (status l)")
    case True
    then show ?thesis by (simp add: manual_cancel_def cancel_row_def)
  next
    case False
    then have "status l \<noteq> COMPLETED" by (auto simp: ended_def)
    then have "\<exists>x \<in> set (locations_of (test_run l) db). status x \<noteq> COMPLETED"
      using l by (auto simp: locations_of_def)
    then have "cancelable db r \<longleftrightarrow> (\<forall>x \<in> set (locations_of (name r) db). status x \<noteq> FAILED)"
      if "name r = test_run l" for r
      using that c by auto
    then have eq: "list_ex (\<lambda>r. name r = test_run l \<and> cancelable db r) (selected sel False db) \<longleftrightarrow>
        (\<exists>r \<in> set (tbl_test_run db). pk r \<in> sel \<and> \<not> draft r \<and> name r = test_run l \<and>
          (\<forall>x \<in> set (locations_of (name r) db). status x \<noteq> FAILED))"
      by (auto simp: list_ex_iff selected_def)
    have "(if B then cancel_row (test_run l) (Some ''Test manually canceled'') l else l) =
        (if \<not> ended (status l) \<and> B
         then l\<lparr>status := CANCELED, status_description := ''Test manually canceled''\<rparr> else l)" for B
      using False by (simp add: cancel_row_def canceled_def record_message_def)
    then show ?thesis unfolding manual_cancel_def eq .
  qed
  then have "map (manual_cancel db (selected sel False db)) (tbl_run_location db) = map (\<lambda>l.
      if \<not> ended (status l) \<and>
          (\<exists>r \<in> set (tbl_test_run db). pk r \<in> sel \<and> \<not> draft r \<and> name r = test_run l \<and>
             (\<forall>x \<in> set (locations_of (name r) db). status x \<noteq> FAILED))
       then l\<lparr>status := CANCELED, status_description := ''Test manually canceled''\<rparr> else l) (tbl_run_location db)"
    by (rule map_cong [OF refl])
  then show ?thesis
    unfolding cancel_test_runs_eq [OF assms]
    by (simp add: update_run_locations_def selected_def c conj_assoc)
qed

theorem cancel_test_runs_effect_witness:
  "fst (cancel_test_runs (sample_env 5) {Some 7} (sample_db False CANCELED CANCELED)) = Inr ''Canceled 1 Test Runs''"
  unfolding cancel_test_runs_effect [OF sample_env_laws(3) sample_db_wf]
  by (simp add: sample_defs locations_of_def str_nat_1)

text \<open>
  The repositories proposed by the edit form are those of all runs, each once, and the
  default one.
\<close>

theorem repo_choices_complete:
  "distinct (get_repo_choices db) \<and>
   set (get_repo_choices db) = insert default_repo (source_repo ` set (tbl_test_run db)) \<and>
   map fst (source_repo_choices db) = get_repo_choices db"
  by (auto simp: get_repo_choices_def source_repo_choices_def Let_def comp_def)

text \<open>What the form set proposes: the initial locations of the empty forms.\<close>

definition blank_form :: "location_form \<Rightarrow> bool" where
  "blank_form f \<longleftrightarrow> \<not> f_has_data f \<and> \<not> f_has_pk f"

definition proposed :: "location_form list \<Rightarrow> string list" where
  "proposed fs = List.map_filter f_initial (filter blank_form fs)"

lemma proposed_Cons:
  "proposed (f # fs) =
     (if blank_form f then (case f_initial f of None \<Rightarrow> proposed fs | Some n \<Rightarrow> n # proposed fs) else proposed fs)"
  by (simp add: proposed_def List.map_filter_def split: option.split)

lemma propose_locations_fresh:
  assumes pop: "\<And>xs. xs \<noteq> [] \<Longrightarrow> pop xs \<in> set xs"
  shows "distinct (proposed (propose_locations pop avail fs)) \<and>
    set (proposed (propose_locations pop avail fs)) \<subseteq> set avail"
proof (induction fs arbitrary: avail)
  case Nil
  then show ?case by (simp add: proposed_def List.map_filter_def)
next
  case (Cons f fs)
  consider "\<not> blank_form f" | "blank_form f" "avail = []" | "blank_form f" "avail \<noteq> []" by blast
  then show ?case
  proof cases
    case 1
    then have "propose_locations pop avail (f # fs) = f # propose_locations pop avail fs"
      by (auto simp: blank_form_def)
    with 1 Cons show ?thesis by (simp add: proposed_Cons)
  next
    case 2
    then have "propose_locations pop avail (f # fs) = f\<lparr>f_initial := None\<rparr> # propose_locations pop avail fs"
      by (simp add: blank_form_def)
    with 2 Cons [of "[]"] show ?thesis by (simp add: proposed_Cons blank_form_def)
  next
    case 3
    let ?rest = "propose_locations pop (removeAll (pop avail) avail) fs"
    have "propose_locations pop avail (f # fs) = f\<lparr>f_initial := Some (pop avail)\<rparr> # ?rest"
      using 3 by (simp add: blank_form_def)
    moreover have "blank_form (f\<lparr>f_initial := Some (pop avail)\<rparr>)" using 3(1) by (simp add: blank_form_def)
    ultimately have "proposed (propose_locations pop avail (f # fs)) = pop avail # proposed ?rest"
      by (simp add: proposed_Cons)
    with 3 Cons [of "removeAll (pop avail) avail"] pop [of avail] show ?thesis by auto
  qed
qed

text \<open>
  The locations proposed in the empty forms of a run are locations that exist, that the
  stored run does not have yet, and all different, whatever element \<open>pop\<close> takes.
\<close>

theorem proposed_locations_new:
  assumes "\<And>xs. xs \<noteq> [] \<Longrightarrow> pop xs \<in> set xs"
  shows "distinct (proposed (formset_init pop db obj forms)) \<and>
    set (proposed (formset_init pop db obj forms)) \<subseteq> name ` set (tbl_location db) \<and>
    (\<forall>r. obj = Some r \<and> pk_true (pk r) \<longrightarrow>
       set (proposed (formset_init pop db obj forms)) \<inter> location ` set (locations_of (name r) db) = {})"
proof -
  obtain avail where eq: "formset_init pop db obj forms = propose_locations pop avail forms"
    and old: "set avail \<subseteq> name ` set (tbl_location db)"
    and new: "\<forall>r. obj = Some r \<and> pk_true (pk r) \<longrightarrow> set avail \<inter> location ` set (locations_of (name r) db) = {}"
  proof
    let ?sel = "case obj of None \<Rightarrow> []
      | Some r \<Rightarrow> if pk_true (pk r) then map location (locations_of (name r) db) else []"
    let ?avail = "filter (\<lambda>n. n \<notin> set ?sel) (remdups (map name (tbl_location db)))"
    show "formset_init pop db obj forms = propose_locations pop ?avail forms"
      by (simp add: formset_init_def Let_def)
    show "set ?avail \<subseteq> name ` set (tbl_location db)" by auto
    show "\<forall>r. obj = Some r \<and> pk_true (pk r) \<longrightarrow> set ?avail \<inter> location ` set (locations_of (name r) db) = {}"
      by auto
  qed
  have "distinct (proposed (propose_locations pop avail forms)) \<and>
      set (proposed (propose_locations pop avail forms)) \<subseteq> set avail"
    using assms by (rule propose_locations_fresh)
  with old new show ?thesis unfolding eq by blast
qed

theorem proposed_locations_new_witness:
  "proposed (formset_init hd (sample_db True PENDING PENDING) None
      [\<lparr>f_has_data = False, f_has_pk = False, f_initial = None\<rparr>, \<lparr>f_has_data = False, f_has_pk = False, f_initial = None\<rparr>]) =
     [''eu'', ''us''] \<and>
   distinct (proposed (formset_init hd (sample_db True PENDING PENDING) None
      [\<lparr>f_has_data = False, f_has_pk = False, f_initial = None\<rparr>, \<lparr>f_has_data = False, f_has_pk = False, f_initial = None\<rparr>]))"
proof
  show "proposed (formset_init hd (sample_db True PENDING PENDING) None
      [\<lparr>f_has_data = False, f_has_pk = False, f_initial = None\<rparr>, \<lparr>f_has_data = False, f_has_pk = False, f_initial = None\<rparr>]) =
     [''eu'', ''us'']"
    by code_simp
  show "distinct (proposed (formset_init hd (sample_db True PENDING PENDING) None
      [\<lparr>f_has_data = False, f_has_pk = False, f_initial = None\<rparr>, \<lparr>f_has_data = False, f_has_pk = False, f_initial = None\<rparr>]))"
    using proposed_locations_new [where pop = hd] hd_in_set by blast
qed



end
