(* ===== verification/System.thy ===== *)
theory System
  imports Admin
begin

text \<open>
  The whole application as a server of requests: the writes of the worker API and the
  actions of the admin site, the states they lead to, and what holds in all of them. Two
  guarantees are established per request and carried over whole sessions by the locale of
  guarantees: rows are never damaged and the times of a run are written once; and, unless a
  failed location is retried, the locations of a run with a failure have ended.
\<close>

section \<open>Requests\<close>

datatype request =
    PutJob job_request job_data
  | AcceptJob job_request
  | PingLocation "string option"
  | StartRuns "nat option set"
  | CancelRuns "nat option set"
  | ChangeRun "string set" "nat option"

text \<open>The change page looks its object up by key.\<close>

definition change_run :: "env \<Rightarrow> string set \<Rightarrow> nat option \<Rightarrow> change_response web" where
  "change_run e post k = (\<lambda>db. case look_run k db of
     None \<Rightarrow> (Inl Http404, db) | Some r \<Rightarrow> response_change e post r db)"

definition handle :: "env \<Rightarrow> request \<Rightarrow> unit web" where
  "handle e rq = (case rq of
     PutJob q d \<Rightarrow> bindp (put_job e q d) (\<lambda>_. ret ())
   | AcceptJob q \<Rightarrow> bindp (accept_job e q) (\<lambda>_. ret ())
   | PingLocation loc \<Rightarrow> bindp (ping_create e loc) (\<lambda>_. ret ())
   | StartRuns sel \<Rightarrow> bindp (start_test_runs e sel) (\<lambda>_. ret ())
   | CancelRuns sel \<Rightarrow> bindp (cancel_test_runs e sel) (\<lambda>_. ret ())
   | ChangeRun post k \<Rightarrow> bindp (change_run e post k) (\<lambda>_. ret ()))"

text \<open>
  The states a server reaches from an initial one with requests of a given kind, each at
  its own time.
\<close>

inductive reachable :: "(request \<Rightarrow> bool) \<Rightarrow> database \<Rightarrow> database \<Rightarrow> bool"
  for kind :: "request \<Rightarrow> bool" and db0 :: database where
  reach_init: "reachable kind db0 db0"
| reach_request: "reachable kind db0 db \<Longrightarrow> kind rq \<Longrightarrow> env_ok e \<Longrightarrow> handle e rq db = (res, db') \<Longrightarrow>
    reachable kind db0 db'"

section \<open>Progress of a run\<close>

text \<open>The fields of a run that no request changes, with the others blanked.\<close>

definition frozen :: "test_run \<Rightarrow> test_run" where
  "frozen r = r\<lparr>updated_at := 0, started_at := None, completed_at := None, draft := False\<rparr>"

definition run_progress :: "test_run \<Rightarrow> test_run \<Rightarrow> bool" where
  "run_progress r r' \<longleftrightarrow>
     frozen r' = frozen r \<and> (draft r' \<longrightarrow> draft r) \<and>
     (started_at r \<noteq> None \<longrightarrow> started_at r' = started_at r) \<and>
     (completed_at r \<noteq> None \<longrightarrow> completed_at r' = completed_at r)"

definition runs_progress :: "database \<Rightarrow> database \<Rightarrow> bool" where
  "runs_progress db db' \<longleftrightarrow>
     (\<forall>r \<in> set (tbl_test_run db). \<exists>r' \<in> set (tbl_test_run db'). run_progress r r')"

lemma run_progress_refl [simp]: "run_progress r r"
  by (simp add: run_progress_def)

lemma run_progress_trans: "run_progress r s \<Longrightarrow> run_progress s t \<Longrightarrow> run_progress r t"
  unfolding run_progress_def by metis

lemma runs_progress_refl [simp]: "runs_progress db db"
  unfolding runs_progress_def by (meson run_progress_refl)

lemma runs_progress_trans: "runs_progress a b \<Longrightarrow> runs_progress b c \<Longrightarrow> runs_progress a c"
  unfolding runs_progress_def by (meson run_progress_trans)

lemma runs_progress_kept: "tbl_test_run db' = tbl_test_run db \<Longrightarrow> runs_progress db db'"
  unfolding runs_progress_def by (metis run_progress_refl)

lemma runs_progress_update_runs:
  "(\<And>r. run_progress r (f r)) \<Longrightarrow> runs_progress db (update_runs f db)"
  by (auto simp: runs_progress_def update_runs_def)

lemma runs_progress_update_run:
  "(\<And>r. run_progress r (f r)) \<Longrightarrow> runs_progress db (update_run n f db)"
  unfolding update_run_runs by (rule runs_progress_update_runs) simp

lemma progress_steps:
  "run_progress r (start_run t r)" "run_progress r (complete_run t r)" "run_progress r (started t r)"
  "run_progress r (r\<lparr>draft := False, updated_at := t\<rparr>)"
  by (simp_all add: run_progress_def frozen_def start_run_def complete_run_def started_def)

lemma runs_progress_after_save: "runs_progress db (after_save t l db)"
proof -
  have 1: "runs_progress db (put_run_location l db)" by (rule runs_progress_kept) simp
  have 2: "runs_progress s (after_started t l s)" for s
    by (simp add: after_started_def runs_progress_update_run progress_steps)
  have 3: "runs_progress s (after_completed t l s)" for s
    by (simp add: after_completed_def runs_progress_update_run progress_steps)
  have 4: "runs_progress s (after_failure l s)" for s
    by (simp add: after_failure_def runs_progress_kept)
  show ?thesis
    unfolding after_save_def by (intro runs_progress_trans [OF _ 4] runs_progress_trans [OF _ 3] runs_progress_trans [OF 1 2])
qed

text \<open>The guarantee of every request: integrity is kept and runs only progress.\<close>

definition safe_step :: "database \<Rightarrow> database \<Rightarrow> bool" where
  "safe_step db db' \<longleftrightarrow> (wf_db db \<longrightarrow> wf_db db' \<and> runs_progress db db')"

interpretation safe: guarantee safe_step
  by unfold_locales (auto simp: safe_step_def intro: runs_progress_trans)

lemma gives_safeI:
  "(\<And>db. wf_db db \<Longrightarrow> wf_db (snd (m db)) \<and> runs_progress db (snd (m db))) \<Longrightarrow> gives safe_step m"
  by (simp add: gives_def safe_step_def)

lemma safe_save_run_location: "gives safe_step (save_run_location e l)"
proof (rule gives_safeI)
  fix db
  assume wf: "wf_db db"
  obtain res db' where run: "save_run_location e l db = (res, db')" by force
  have "runs_progress db db'"
    using run save_run_location_eq [OF wf, of e l] runs_progress_after_save
    by (auto split: prod.splits sum.splits)
  with wf_save_run_location [OF wf run] run
  show "wf_db (snd (save_run_location e l db)) \<and> runs_progress db (snd (save_run_location e l db))" by simp
qed

lemma safe_put_job:
  assumes "fsm_lists e" and "fsm_moves e"
  shows "gives safe_step (put_job e q d)"
proof (rule gives_safeI)
  fix db
  assume wf: "wf_db db"
  show "wf_db (snd (put_job e q d db)) \<and> runs_progress db (snd (put_job e q d db))"
  proof (rule put_job_cases [OF assms wf, of q d])
    fix l
    assume "put_job e q d db = save_run_location e (assign_data d l) db"
    with safe_save_run_location [of e "assign_data d l"] wf
    show ?thesis by (simp add: gives_def safe_step_def)
  qed (simp_all add: wf)
qed

lemma safe_ping: "gives safe_step (ping_create e loc)"
proof (rule gives_safeI)
  fix db
  assume wf: "wf_db db"
  have "tbl_test_run (snd (ping_create e loc db)) = tbl_test_run db"
    by (simp add: ping_create_eq(1) [OF wf] put_location_def split: option.split)
  with ping_create_eq(2) [OF wf] show "wf_db (snd (ping_create e loc db)) \<and> runs_progress db (snd (ping_create e loc db))"
    by (simp add: runs_progress_kept)
qed

section \<open>The admin actions\<close>

lemma safe_start_test_runs: "gives safe_step (start_test_runs e sel)"
proof (rule gives_safeI)
  fix db
  assume wf: "wf_db db"
  let ?f = "\<lambda>r. if pk r \<in> sel \<and> draft r then started (now e) r else r"
  have "wf_db (update_runs ?f db)" using wf by (rule wf_update_runs) (simp_all add: started_def)
  moreover have "runs_progress db (update_runs ?f db)"
    by (rule runs_progress_update_runs) (simp add: progress_steps)
  ultimately show "wf_db (snd (start_test_runs e sel db)) \<and> runs_progress db (snd (start_test_runs e sel db))"
    by (simp add: start_test_runs_eq [OF wf])
qed

lemma safe_cancel_run: "fsm_moves e \<Longrightarrow> gives safe_step (cancel_run e message r)"
  using wf_cancel_run [of e]
  by (intro gives_safeI) (auto simp: cancel_run_eq update_run_locations_def
      intro: runs_progress_kept wf_update_run_locations [unfolded update_run_locations_def])

lemma safe_cancel_loop: "fsm_moves e \<Longrightarrow> gives safe_step (cancel_loop e rs n)"
  by (induction rs arbitrary: n)
    (auto intro!: safe.gives_intros safe_cancel_run)

lemma safe_cancel_test_runs: "fsm_moves e \<Longrightarrow> gives safe_step (cancel_test_runs e sel)"
  unfolding cancel_test_runs_def by (intro safe.gives_intros safe_cancel_loop)

lemma look_run_in: "look_run k db = Some r \<Longrightarrow> r \<in> set (tbl_test_run db)"
  by (auto simp: look_run_def dest: by_key_Some)

lemma save_and_run_eq:
  assumes wf: "wf_db db" and r: "r \<in> set (tbl_test_run db)"
  shows "save_test_run e (r\<lparr>draft := False\<rparr>) db =
    (Inr (started (now e) r), update_run (name r) (started (now e)) db)"
  using save_stored_run [OF wf r, of "\<lambda>r. r\<lparr>draft := False\<rparr>" e] by (simp add: started_def [abs_def])

lemma runs_progress_duplicate:
  assumes "fresh_pk e" "slugs e" "wf_db db" "has_name (test_output r) (tbl_output db)"
  shows "wf_db (snd (duplicate_test_run e r db)) \<and> runs_progress db (snd (duplicate_test_run e r db))"
proof (cases "has_name (generated_name e (target r)) (tbl_test_run db)")
  case True
  with duplicate_test_run_taken [OF assms True] assms(3) show ?thesis by simp
next
  case False
  show ?thesis
  proof (rule duplicate_test_run_eq [OF assms False])
    fix ls vs bs
    assume eq: "duplicate_test_run e r db = (Inr (copied_run e db r), add_copies (copied_run e db r) ls vs bs db)"
      and wf: "wf_db (add_copies (copied_run e db r) ls vs bs db)"
    have "tbl_test_run (add_copies (copied_run e db r) ls vs bs db) = tbl_test_run db @ [copied_run e db r]"
      by (simp add: add_copies_def add_defs)
    then have "runs_progress db (add_copies (copied_run e db r) ls vs bs db)"
      unfolding runs_progress_def by (metis UnCI run_progress_refl set_append)
    with eq wf show ?thesis by simp
  qed
qed

lemma safe_change_run:
  assumes fresh: "fresh_pk e" and slugs: "slugs e"
  shows "gives safe_step (change_run e post k)"
proof (rule gives_safeI)
  fix db
  assume wf: "wf_db db"
  show "wf_db (snd (change_run e post k db)) \<and> runs_progress db (snd (change_run e post k db))"
  proof (cases "look_run k db")
    case None
    with wf show ?thesis by (simp add: change_run_def)
  next
    case (Some r)
    then have r: "r \<in> set (tbl_test_run db)" by (rule look_run_in)
    have "wf_db (update_run (name r) (started (now e)) db)"
      using wf by (rule wf_update_run) (simp_all add: started_def)
    moreover have "runs_progress db (update_run (name r) (started (now e)) db)"
      by (rule runs_progress_update_run) (rule progress_steps)
    ultimately show ?thesis
      using Some wf runs_progress_duplicate [OF fresh slugs wf wf_run_output [OF wf r]]
      by (auto simp: change_run_def response_change_def bindp_def ret_def save_and_run_eq [OF wf r]
          split: prod.split sum.split)
  qed
qed

text \<open>Every request, and every session.\<close>

lemma safe_handle: "env_ok e \<Longrightarrow> gives safe_step (handle e rq)"
proof -
  assume "env_ok e"
  then have e: "fresh_pk e" "slugs e" "fsm_lists e" "fsm_moves e" by (simp_all add: env_ok_def)
  have accept: "gives safe_step (accept_job e q)" for q
    by (rule gives_safeI) (simp add: accept_job_db)
  show ?thesis
    unfolding handle_def
    by (cases rq)
      (auto intro!: safe.gives_bindp safe.gives_ret safe_put_job accept safe_ping safe_start_test_runs
        safe_cancel_test_runs safe_change_run e)
qed

lemma reachable_safe: "reachable kind db0 db \<Longrightarrow> safe_step db0 db"
proof (induction rule: reachable.induct)
  case reach_init
  then show ?case by (rule safe.R_refl)
next
  case (reach_request db rq e res db')
  from reach_request(3,4) have "safe_step db db'" by (blast intro: givesD safe_handle)
  with reach_request.IH show ?case by (rule safe.R_trans)
qed

section \<open>Failing fast\<close>

text \<open>When a location of a run has failed, every location of the run has ended.\<close>

definition fail_fast :: "database \<Rightarrow> bool" where
  "fail_fast db \<longleftrightarrow>
     (\<forall>l \<in> set (tbl_run_location db). status l = FAILED \<longrightarrow>
       (\<forall>x \<in> set (tbl_run_location db). test_run x = test_run l \<longrightarrow> ended (status x)))"

definition no_retry :: "request \<Rightarrow> bool" where
  "no_retry rq = (case rq of PutJob q d \<Rightarrow> d_status d \<noteq> Some PENDING | _ \<Rightarrow> True)"

definition fast_step :: "database \<Rightarrow> database \<Rightarrow> bool" where
  "fast_step db db' \<longleftrightarrow> (wf_db db \<and> fail_fast db \<longrightarrow> wf_db db' \<and> fail_fast db')"

interpretation fast: guarantee fast_step
  by unfold_locales (auto simp: fast_step_def)

lemma gives_fastI:
  assumes "gives safe_step m" and "\<And>db. wf_db db \<Longrightarrow> fail_fast db \<Longrightarrow> fail_fast (snd (m db))"
  shows "gives fast_step m"
  using assms by (simp add: gives_def safe_step_def fast_step_def)

lemma fail_fast_kept: "tbl_run_location db' = tbl_run_location db \<Longrightarrow> fail_fast db \<Longrightarrow> fail_fast db'"
  by (simp add: fail_fast_def)

lemma gives_fast_kept:
  assumes "gives safe_step m" and "\<And>db. wf_db db \<Longrightarrow> tbl_run_location (snd (m db)) = tbl_run_location db"
  shows "gives fast_step m"
  using assms by (intro gives_fastI) (auto intro: fail_fast_kept)

text \<open>
  A change of all locations keeps the property when it keeps the ended ones ended and
  makes none fail.
\<close>

lemma fail_fast_map:
  assumes "fail_fast db" and "\<And>l. test_run (f l) = test_run l"
    and "\<And>l. ended (status l) \<Longrightarrow> ended (status (f l))"
    and "\<And>l. status (f l) = FAILED \<Longrightarrow> status l = FAILED"
  shows "fail_fast (update_run_locations f db)"
  using assms by (force simp: fail_fast_def update_run_locations_def)

lemma fast_cancel_run: "fsm_moves e \<Longrightarrow> gives fast_step (cancel_run e message r)"
proof (rule gives_fastI)
  assume e: "fsm_moves e"
  then show "gives safe_step (cancel_run e message r)" by (rule safe_cancel_run)
  fix db
  assume "wf_db db" and ff: "fail_fast db"
  have "fail_fast (update_run_locations (cancel_row (name r) message) db)"
    using ff by (rule fail_fast_map) (simp_all add: cancel_row_def ended_def split: if_splits)
  then show "fail_fast (snd (cancel_run e message r db))"
    by (simp add: cancel_run_eq [OF e \<open>wf_db db\<close>])
qed

lemma fast_cancel_test_runs: "fsm_moves e \<Longrightarrow> gives fast_step (cancel_test_runs e sel)"
proof -
  assume e: "fsm_moves e"
  have "gives fast_step (cancel_loop e rs n)" for rs n
    by (induction rs arbitrary: n) (auto intro!: fast.gives_intros fast_cancel_run [OF e])
  then show ?thesis unfolding cancel_test_runs_def by (intro fast.gives_intros)
qed

lemma fail_fast_after_save:
  assumes ff: "fail_fast db" and old: "l \<in> set (tbl_run_location db)" and new: "pk l' = pk l" "test_run l' = test_run l"
    and edge: "status l' = status l \<or> status_edge (status l) (status l')" and "status l' = PENDING \<Longrightarrow> status l = PENDING"
    and keyed: "keyed_rows (tbl_run_location db)"
  shows "fail_fast (after_save t l' db)"
proof -
  have rows: "set (tbl_run_location (put_run_location l' db)) =
      insert l' (set (tbl_run_location db) - {l})"
    using keyed_rows_same [OF keyed _ old] new(1) old by (auto simp: put_run_location_def set_upsert)
  show ?thesis
  proof (cases "status l' = FAILED")
    case True
    then show ?thesis
      using ff old new rows
      by (auto simp: fail_fast_def after_save_rows auto_cancel_def ended_def split: if_splits)
  next
    case False
    have "ended (status l')" if "ended (status l)"
      using that edge assms(6) by (cases "status l'"; cases "status l") (simp_all add: ended_def)
    with False ff old new rows show ?thesis
      by (auto simp: fail_fast_def after_save_rows)
  qed
qed

lemma fast_put_job:
  assumes fsm: "fsm_lists e" "fsm_moves e" and no: "d_status d \<noteq> Some PENDING"
  shows "gives fast_step (put_job e q d)"
proof (rule gives_fastI)
  show "gives safe_step (put_job e q d)" using fsm by (rule safe_put_job)
  fix db
  assume wf: "wf_db db" and ff: "fail_fast db"
  show "fail_fast (snd (put_job e q d db))"
  proof (rule put_job_cases [OF fsm wf, of q d])
    fix l
    assume l: "l \<in> set (tbl_run_location db)"
      and edge: "status (assign_data d l) = status l \<or> status_edge (status l) (status (assign_data d l))"
      and eq: "put_job e q d db = save_run_location e (assign_data d l) db"
    have pend: "status (assign_data d l) = PENDING \<Longrightarrow> status l = PENDING"
      using no by (auto simp: the_default_def split: option.splits)
    obtain k where k: "pk l = Some k" using wf_location_refs(3) [OF wf l] by auto
    have ok: "fail_fast (after_save (now e) (assign_data d l) db)"
      using ff l edge pend wf_rows(4) [OF wf] by (intro fail_fast_after_save [of db l]) simp_all
    have "l' = assign_data d l" if "save_run_location_row e (assign_data d l) db = (Inr l', db')" for l' db'
      using save_row_result(4) [OF wf that] k by simp
    with ok ff eq show ?thesis
      by (auto simp: save_run_location_eq [OF wf] split: prod.split sum.split)
  qed (simp_all add: ff)
qed

lemma fast_change_run:
  assumes fresh: "fresh_pk e" and slugs: "slugs e"
  shows "gives fast_step (change_run e post k)"
proof (rule gives_fastI)
  show "gives safe_step (change_run e post k)" using assms by (rule safe_change_run)
  fix db
  assume wf: "wf_db db" and ff: "fail_fast db"
  have dup: "fail_fast (snd (duplicate_test_run e r db))" if r: "r \<in> set (tbl_test_run db)" for r
  proof (cases "has_name (generated_name e (target r)) (tbl_test_run db)")
    case True
    with duplicate_test_run_taken [OF fresh slugs wf wf_run_output [OF wf r]] ff show ?thesis by simp
  next
    case False
    show ?thesis
    proof (rule duplicate_test_run_eq [OF fresh slugs wf wf_run_output [OF wf r] False])
      fix ls vs bs
      let ?n = "generated_name e (target r)"
      assume eq: "duplicate_test_run e r db = (Inr (copied_run e db r), add_copies (copied_run e db r) ls vs bs db)"
        and ls: "map unkeyed ls = map (reset_location ?n) (locations_of (name r) db)"
      have new: "test_run x = ?n" "status x \<noteq> FAILED" if "x \<in> set ls" for x
      proof -
        from that have "unkeyed x \<in> set (map unkeyed ls)" by simp
        then obtain y where "unkeyed x = reset_location ?n y" using ls by auto
        then show "test_run x = ?n" "status x \<noteq> FAILED" using unkeyed_fields by fastforce+
      qed
      have old: "test_run x \<noteq> ?n" if "x \<in> set (tbl_run_location db)" for x
        using False wf_location_refs(1) [OF wf that] by auto
      have "tbl_run_location (add_copies (copied_run e db r) ls vs bs db) = tbl_run_location db @ ls"
        by (simp add: add_copies_def add_defs)
      then have "fail_fast (add_copies (copied_run e db r) ls vs bs db)"
        using ff new old unfolding fail_fast_def by (metis UnE set_append)
      with eq show ?thesis by simp
    qed
  qed
  show "fail_fast (snd (change_run e post k db))"
  proof (cases "look_run k db")
    case None
    with ff show ?thesis by (simp add: change_run_def)
  next
    case (Some r)
    then have r: "r \<in> set (tbl_test_run db)" by (rule look_run_in)
    have "fail_fast (update_run (name r) (started (now e)) db)"
      using ff by (rule fail_fast_kept [rotated]) simp
    with Some ff dup [OF r] show ?thesis
      by (auto simp: change_run_def response_change_def bindp_def ret_def save_and_run_eq [OF wf r]
          split: prod.split sum.split)
  qed
qed

lemma fast_handle: "env_ok e \<Longrightarrow> no_retry rq \<Longrightarrow> gives fast_step (handle e rq)"
proof -
  assume "env_ok e" and no: "no_retry rq"
  then have e: "fresh_pk e" "slugs e" "fsm_lists e" "fsm_moves e" by (simp_all add: env_ok_def)
  have accept: "gives fast_step (accept_job e q)" for q
    by (simp add: gives_def accept_job_db fast.R_refl)
  have ping: "gives fast_step (ping_create e loc)" for loc
    by (rule gives_fast_kept [OF safe_ping]) (simp add: ping_create_eq put_location_def split: option.split)
  have start: "gives fast_step (start_test_runs e sel)" for sel
    by (rule gives_fast_kept [OF safe_start_test_runs]) (simp add: start_test_runs_eq update_runs_def)
  show ?thesis
    using no unfolding handle_def
    by (cases rq)
      (auto intro!: fast.gives_bindp fast.gives_ret fast_put_job accept ping start
        fast_cancel_test_runs fast_change_run e simp: no_retry_def)
qed

lemma reachable_fast: "reachable no_retry db0 db \<Longrightarrow> fast_step db0 db"
proof (induction rule: reachable.induct)
  case reach_init
  then show ?case by (rule fast.R_refl)
next
  case (reach_request db rq e res db')
  from reach_request(2,3,4) have "fast_step db db'" by (blast intro: givesD fast_handle)
  with reach_request.IH show ?case by (rule fast.R_trans)
qed

end
