(* ===== verification/Operators.thy ===== *)
theory Operators
  imports Drive System
begin

text \<open>
  Operators of several locations, at their own times and with their own clusters, together with
  the requests of other clients: what they do is a session of requests, so the guarantees of the
  web application carry over to it, and their igniters wait for one common start.
\<close>

section \<open>Operators among the clients\<close>

text \<open>
  What requests without a retry, reconciliations, igniters, polls and check-ins lead to, in any
  order: the database, and for each operator its igniters. \<open>sites k s\<close> says that the operator
  \<open>k\<close> may find itself in \<open>s\<close> (a configuration, a clock, a cluster), \<open>c\<close> is the state its cluster
  is in by then, which is not restricted. A restarted operator has no igniters.
\<close>

inductive fleet :: "(string \<Rightarrow> 'c site \<Rightarrow> bool) \<Rightarrow> database \<Rightarrow> database \<Rightarrow> (string \<Rightarrow> igniters) \<Rightarrow> bool"
  for sites :: "string \<Rightarrow> 'c site \<Rightarrow> bool" and db0 :: database where
  fleet_init: "fleet sites db0 db0 (\<lambda>_. Map.empty)"
| fleet_request: "fleet sites db0 db' I"
    if "fleet sites db0 db I" "no_retry rq" "env_ok e" "handle e rq db = (res, db')"
| fleet_reconcile: "fleet sites db0 db' (I(k := igs'))"
    if "fleet sites db0 db I" "sites k s" "env_ok (site_env s)"
      "reconcile (site_operator s) n ((db, c), I k) = (x, (db', c'), igs')"
| fleet_fire: "fleet sites db0 db' (I(k := igs'))"
    if "fleet sites db0 db I" "sites k s" "igniter_start (site_operator s) n ((db, c), I k) = ((db', c'), igs')"
| fleet_answers: "fleet sites db0 db' (I(k := igs'))"
    if "fleet sites db0 db I" "sites k s" "igniter_wait (site_operator s) n ((db, c), I k) = ((db', c'), igs')"
| fleet_restart: "fleet sites db0 db (I(k := Map.empty))" if "fleet sites db0 db I"
| fleet_poll: "fleet sites db0 db' I"
    if "fleet sites db0 db I" "sites k s" "poll (site_operator s) (db, c) = (ns, (db', c'))"
| fleet_check_in: "fleet sites db0 db' I"
    if "fleet sites db0 db I" "sites k s" "env_ok (site_env s)"
      "pinger_ping (site_operator s) (db, c) = (db', c')"

lemma reports_reachable:
  assumes "reports s n db sts db'" and "env_ok (site_env s)" and "reachable no_retry db0 db"
  shows "reachable no_retry db0 db'"
  using assms(1,3)
proof (induction rule: reports.induct)
  case (reports_one db l st m sts db')
  let ?job = "(job_of s db l)\<lparr>g_status := status_value st, g_status_description := m\<rparr>"
  let ?rq = "PutJob (web_request (site_region s) (test_run l)) (job_body ?job st)"
  have "fsm_lists (site_env s)" "fsm_moves (site_env s)" using assms(2) by (simp_all add: env_ok_def)
  from served_put [OF this reports_one.hyps(1) job_of_served(2) [OF reports_one.hyps(1)]] reports_one.hyps(3)
  have "handle (site_env s) ?rq db = (Inr (), reported_db s st m l db)"
    by (simp add: handle_def bindp_def ret_def reported_db_def)
  moreover have "no_retry ?rq" using reports_one.hyps(4) by (simp add: no_retry_def job_body_def)
  ultimately have "reachable no_retry db0 (reported_db s st m l db)"
    using reach_request [OF reports_one.prems _ assms(2)] by blast
  then show ?case by (rule reports_one.IH)
qed

text \<open>The database, step by step.\<close>

lemma poll_db:
  assumes "poll (site_operator s) (db, c) = (ns, (db', c'))"
  shows "db' = db"
  using assms reading_writes_nothing [of "site_reverse s" _ db]
  by (auto simp: poll_def site_defs web_list_def split: if_splits prod.splits sum.splits) (metis snd_conv)+

lemma check_in_db:
  assumes "pinger_ping (site_operator s) (db, c) = (db', c')"
  shows "db' = db \<or> (\<exists>res. handle (site_env s) (PingLocation (Some (site_region s))) db = (res, db'))"
  using assms
  by (auto simp: pinger_ping_def site_defs web_ping_def handle_def bindp_def ret_def
      split: if_splits prod.splits sum.splits response.splits)

lemma unpause_all_db:
  "\<exists>x c'. unpause_all (cluster_client k) ns (db, c) = (x, (db, c'))"
proof (induction ns arbitrary: c)
  case (Cons n ns)
  obtain r c1 where "kube_unpause k n c = (r, c1)" by force
  then have 1: "kube_unpause (cluster_client k) n (db, c) = (r, (db, c1))"
    by (simp add: cluster_client_def in_cluster_def)
  obtain x c2 where "unpause_all (cluster_client k) ns (db, c1) = (x, (db, c2))" using Cons by blast
  with 1 show ?case by (auto split: sum.split)
qed simp

text \<open>An igniter that fires or gets its answers keeps its start.\<close>

lemma igniter_start_keeps:
  assumes "igniter_start (site_operator s) n ((db, c), igs) = ((db', c'), igs')"
  shows "db' = db \<and> (\<forall>k ig. igs' k = Some ig \<longrightarrow> (\<exists>ig0. igs k = Some ig0 \<and> ig_start_test_at ig = ig_start_test_at ig0))"
  using assms by (auto simp: igniter_start_def split: option.splits if_splits)

lemma igniter_wait_keeps:
  assumes "igniter_wait (site_operator s) n ((db, c), igs) = ((db', c'), igs')"
  shows "db' = db \<and> (\<forall>k ig. igs' k = Some ig \<longrightarrow> (\<exists>ig0. igs k = Some ig0 \<and> ig_start_test_at ig = ig_start_test_at ig0))"
proof (cases "igs n")
  case (Some ig)
  obtain x c1 where "unpause_all (op_kube (site_operator s)) (ig_pod_names ig) (db, c) = (x, (db, c1))"
    using unpause_all_db [of "site_kube s" "ig_pod_names ig" db c] by (auto simp: site_operator_def)
  with Some assms show ?thesis by (auto simp: igniter_wait_def split: if_splits)
qed (use assms in \<open>simp add: igniter_wait_def\<close>)

text \<open>A start, once written, stays.\<close>

lemma starts_at_progress:
  assumes "runs_progress db db'" and "wf_db db'" and "starts_at db n t"
  shows "starts_at db' n t"
proof -
  obtain r where r: "find_run n db = Some r" "started_at r = Some t" using assms(3) by (auto simp: starts_at_def)
  then obtain r' where r': "r' \<in> set (tbl_test_run db')" "run_progress r r'"
    using find_run_row [OF r(1)] assms(1) by (auto simp: runs_progress_def)
  have "name (frozen r') = name (frozen r)" using r'(2) by (simp add: run_progress_def)
  then have "name r' = n" using find_run_row [OF r(1)] by (simp add: frozen_def)
  then have "find_run n db' = Some r'" using find_run_name [OF assms(2) r'(1)] by simp
  moreover have "started_at r' = Some t" using r'(2) r(2) by (simp add: run_progress_def)
  ultimately show ?thesis by (auto simp: starts_at_def)
qed

definition starts_known :: "database \<Rightarrow> (string \<Rightarrow> igniters) \<Rightarrow> bool" where
  "starts_known db I \<longleftrightarrow> (\<forall>k n ig. I k n = Some ig \<longrightarrow> starts_at db n (ig_start_test_at ig))"

lemma starts_known_upd:
  "starts_known db (I(k := igs)) \<longleftrightarrow>
     starts_known db (I(k := Map.empty)) \<and> (\<forall>n ig. igs n = Some ig \<longrightarrow> starts_at db n (ig_start_test_at ig))"
  unfolding starts_known_def by (auto split: if_splits)

lemma starts_known_empty: "starts_known db I \<Longrightarrow> starts_known db (I(k := Map.empty))"
  by (simp add: starts_known_def)

lemma starts_known_step:
  assumes "starts_known db I" and "wf_db db" and "safe_step db db'"
  shows "starts_known db' I"
  using assms starts_at_progress unfolding starts_known_def safe_step_def by blast

lemma starts_known_kept:
  assumes "starts_known db I"
    and "\<forall>k' ig. igs' k' = Some ig \<longrightarrow> (\<exists>ig0. I k k' = Some ig0 \<and> ig_start_test_at ig = ig_start_test_at ig0)"
  shows "starts_known db (I(k := igs'))"
  using assms starts_known_empty [OF assms(1)] unfolding starts_known_upd [of db I k igs']
  by (metis starts_known_def)

lemma fleet_invariant:
  assumes "fleet sites db0 db I" and "wf_db db0"
  shows "reachable no_retry db0 db \<and> starts_known db I"
  using assms
proof (induction rule: fleet.induct)
  case fleet_init
  show ?case by (simp add: reach_init starts_known_def)
next
  case (fleet_request db I rq e res db')
  have "wf_db db" using reachable_safe fleet_request.IH fleet_request.prems by (auto simp: safe_step_def)
  moreover have "safe_step db db'"
    using safe_handle [OF fleet_request.hyps(3), of rq] fleet_request.hyps(4) unfolding gives_def by (metis snd_conv)
  ultimately show ?case
    using fleet_request starts_known_step reach_request by blast
next
  case (fleet_reconcile db I k s n c x db' c' igs')
  have reach: "reachable no_retry db0 db" and known: "starts_known db I"
    using fleet_reconcile.IH fleet_reconcile.prems by simp_all
  then have wf: "wf_db db" using reachable_safe fleet_reconcile.prems by (auto simp: safe_step_def)
  moreover have "fsm_lists (site_env s)" "fsm_moves (site_env s)"
    using fleet_reconcile.hyps(3) by (simp_all add: env_ok_def)
  ultimately have "only_reports s n ((db, c), I k) ((db', c'), igs')"
    using reconcile_reports [where s = s and db = db and n = n and c = c and igs = "I k"] fleet_reconcile.hyps(4)
    by simp
  then obtain sts where sts: "reports s n db sts db'" and igs: "igniters_from db' n (I k) igs'"
    by (auto simp: only_reports_def)
  have known': "starts_known db' I"
    using known starts_at_reports [OF sts] unfolding starts_known_def by blast
  have "starts_at db' m (ig_start_test_at ig)" if "igs' m = Some ig" for m ig
    using igs known' that unfolding igniters_from_def starts_known_def by blast
  with known' have "starts_known db' (I(k := igs'))"
    unfolding starts_known_upd [of db' I k igs'] using starts_known_empty by blast
  with reports_reachable [OF sts fleet_reconcile.hyps(3) reach] show ?case by blast
next
  case (fleet_fire db I k s n c db' c' igs')
  with igniter_start_keeps [OF fleet_fire.hyps(3)] starts_known_kept show ?case by metis
next
  case (fleet_answers db I k s n c db' c' igs')
  with igniter_wait_keeps [OF fleet_answers.hyps(3)] starts_known_kept show ?case by metis
next
  case (fleet_restart db I k)
  then show ?case using starts_known_empty by blast
next
  case (fleet_poll db I k s c ns db' c')
  with poll_db [OF fleet_poll.hyps(3)] show ?case by simp
next
  case (fleet_check_in db I k s c db' c')
  let ?rq = "PingLocation (Some (site_region s))"
  have reach: "reachable no_retry db0 db" and known: "starts_known db I"
    using fleet_check_in.IH fleet_check_in.prems by simp_all
  then have wf: "wf_db db" using reachable_safe fleet_check_in.prems by (auto simp: safe_step_def)
  have rq: "no_retry ?rq" by (simp add: no_retry_def)
  from check_in_db [OF fleet_check_in.hyps(4)] show ?case
  proof (elim disjE exE)
    fix res
    assume run: "handle (site_env s) ?rq db = (res, db')"
    then have "safe_step db db'"
      using safe_handle [OF fleet_check_in.hyps(3), of ?rq] unfolding gives_def by (metis snd_conv)
    with known wf have "starts_known db' I" by (rule starts_known_step)
    with reach_request [OF reach rq fleet_check_in.hyps(3) run] show ?thesis by simp
  qed (use reach known in simp)
qed

section \<open>The guarantees\<close>




text \<open>Two locations that are ready, each with its own cluster, and a run that has its start.\<close>

definition sample_started :: database where
  "sample_started = (sample_db False READY READY)\<lparr>tbl_test_run := [(sample_run False)\<lparr>started_at := Some (seconds 30)\<rparr>]\<rparr>"

definition sample_site_of :: "test_run_location \<Rightarrow> kube_job option site" where
  "sample_site_of l = at_cluster (sample_fleet l)
     (sample_kube\<lparr>kube_pods := \<lambda>n c. (Inr (replicate (num_workers l) \<lparr>pod_name = location l, pod_conditions = []\<rparr>), c)\<rparr>)"

lemma sample_site_of_igniter:
  assumes "l \<in> {sample_row 4 ''eu'' 2 READY, sample_row 5 ''us'' 3 READY}"
  shows "\<exists>igs' ig. reconcile (site_operator (sample_site_of l)) ''shop-a1''
      ((sample_started, Some (new_kube_job ''shop-a1'')), Map.empty) =
      (None, (sample_started, Some (new_kube_job ''shop-a1'')), igs') \<and> igs' ''shop-a1'' = Some ig"
proof -
  let ?s = "sample_site_of l" and ?obj = "new_kube_job ''shop-a1''" and ?db = "sample_db False READY READY"
  have l: "l \<in> set (locations_of ''shop-a1'' ?db)" "test_run l = ''shop-a1''" "status l = READY"
    using assms by (auto simp: locations_of_def sample_db_def sample_row_def new_test_run_location_def)
  have run: "find_run ''shop-a1'' sample_started = Some ((sample_run False)\<lparr>started_at := Some (seconds 30)\<rparr>)"
    by (simp add: find_run_def by_key_def sample_started_def sample_run_def)
  moreover have "find_run ''shop-a1'' ?db = Some (sample_run False)"
    by (simp add: find_run_def by_key_def sample_db_def sample_run_def)
  moreover have "wf_db sample_started"
    using sample_db_wf [of False READY READY]
    by (simp add: wf_db_def sample_started_def sample_db_def keyed_rows_def named_rows_def placed_def)
  moreover have "run_is_draft sample_started l = run_is_draft ?db l"
    by (simp add: run_is_draft_def sample_started_def sample_db_def)
  moreover have "tbl_run_location sample_started = tbl_run_location ?db" by (simp add: sample_started_def)
  ultimately have served: "served ?s sample_started l"
    using sample_fleet_served [OF l(1)]
    by (auto simp: sample_site_of_def served_def row_readable_def l(2) run_readable_def)
  have fsm: "fsm_lists (site_env ?s)" "fsm_moves (site_env ?s)"
    using sample_site_laws [of 0] by (simp_all add: sample_site_of_def sample_fleet_def)
  have found: "job_found ?s (test_run l) (Some ?obj) ?obj" "get_job_condition ?obj ''Failed'' = None"
    by (simp_all add: job_found_def sample_site_of_def sample_kube_def new_kube_job_def get_job_condition_def)
  have "all_in READY (test_run l) sample_started"
    by (auto simp: all_in_def locations_of_def sample_started_def sample_db_def sample_row_def new_test_run_location_def)
  from creates_igniter [OF served run [folded l(2)] _ _ this, where igs = Map.empty and c = "Some ?obj"]
  obtain ig where "create_igniter (site_operator ?s) (job_of ?s sample_started l) ((sample_started, Some ?obj), Map.empty) =
      (Inr ig, (sample_started, Some ?obj), [test_run l \<mapsto> ig])" "\<not> ig_started ig" "ig_error ig = None"
    by (auto simp: sample_site_of_def sample_run_def new_test_run_def pk_true_def Let_def)
  from ready_served [OF fsm served this(1), of ?obj] this(2,3) l(3)
  have "reconcile (site_operator ?s) (test_run l) ((sample_started, Some ?obj), Map.empty) =
      (None, (sample_started, Some ?obj), [test_run l \<mapsto> ig])"
    by (simp add: reconcile_found [OF served found(1)] object_ready [OF served found(2)])
  then show ?thesis by (simp add: l(2))
qed


end
