(* ===== verification/Rounds.thy ===== *)
theory Rounds
  imports Drive
begin

text \<open>
  The operators of all locations of a run, driving it together. In each of five rounds every
  operator reconciles the run once, in any order of the locations and at times of its own; between the
  third and the fourth the igniters fire. The cluster of an operator is in a state of its own at
  every visit.
\<close>

section \<open>Rounds\<close>

text \<open>A visit: the location, the time, and the state its cluster is in.\<close>

type_synonym 'c visit = "string \<times> datetime \<times> 'c"
type_synonym fleet_state = "database \<times> (string \<Rightarrow> igniters)"

definition visit ::
  "(string \<Rightarrow> 'c site) \<Rightarrow> string \<Rightarrow> 'c visit \<Rightarrow> fleet_state \<Rightarrow> go_error option \<times> fleet_state" where
  "visit S n v st = (case v of (k, t, c) \<Rightarrow> case st of (db, I) \<Rightarrow>
     case reconcile (site_operator (site_at (S k) t)) n ((db, c), I k) of
       (x, (db', c'), igs) \<Rightarrow> (x, db', I(k := igs)))"

fun visits ::
  "(string \<Rightarrow> 'c site) \<Rightarrow> string \<Rightarrow> 'c visit list \<Rightarrow> fleet_state \<Rightarrow> go_error option list \<times> fleet_state" where
  "visits S n [] st = ([], st)"
| "visits S n (v # vs) st =
     (case visit S n v st of (x, st1) \<Rightarrow> case visits S n vs st1 of (xs, st2) \<Rightarrow> (x # xs, st2))"

fun fires :: "(string \<Rightarrow> 'c site) \<Rightarrow> string \<Rightarrow> 'c visit list \<Rightarrow> fleet_state \<Rightarrow> fleet_state" where
  "fires S n [] st = st"
| "fires S n ((k, t, c) # vs) (db, I) =
     (case igniter_start (site_operator (site_at (S k) t)) n ((db, c), I k) of
        ((db', c'), igs) \<Rightarrow> fires S n vs (db', I(k := igs)))"

lemma visits_append:
  "visits S n (us @ vs) st = (case visits S n us st of (xs, st1) \<Rightarrow> case visits S n vs st1 of (ys, st2) \<Rightarrow> (xs @ ys, st2))"
  by (induction us arbitrary: st) (simp_all split: prod.split)

text \<open>Every location exactly once.\<close>

definition round_of :: "string set \<Rightarrow> 'c visit list \<Rightarrow> bool" where
  "round_of L vs \<longleftrightarrow> distinct (map fst vs) \<and> fst ` set vs = L"

section \<open>One report among many locations\<close>

lemma served_kept:
  assumes "served s db x" and "wf_db (after_save t l db)" and "x \<in> set (tbl_run_location (after_save t l db))"
  shows "served s (after_save t l db) x"
proof -
  have "row_readable s (after_save t l db) x"
    using assms(1) by (auto simp: served_def row_readable_def find_run_after_save run_readable_def)
  moreover have "\<not> run_is_draft (after_save t l db) x"
    using assms(1) by (simp add: served_def run_is_draft_after_save)
  ultimately show ?thesis using assms by (simp add: served_def)
qed

text \<open>
  A run under way: every location has its operator, which serves it, and \<open>W\<close> is the number of
  its workers.
\<close>

definition convoy ::
  "(string \<Rightarrow> 'c site) \<Rightarrow> string \<Rightarrow> (string \<Rightarrow> nat) \<Rightarrow> string set \<Rightarrow> test_run \<Rightarrow> database \<Rightarrow> bool" where
  "convoy S n W L r db \<longleftrightarrow>
     wf_db db \<and> find_run n db = Some r \<and> pk_true (pk r) \<and> location ` set (locations_of n db) = L \<and>
     (\<forall>l \<in> set (locations_of n db). served (S (location l)) db l \<and> num_workers l = W (location l))"

text \<open>The locations \<open>D\<close> have reported \<open>s\<close>, the others still have \<open>a\<close>.\<close>

definition halfway :: "string \<Rightarrow> status \<Rightarrow> status \<times> string \<Rightarrow> string set \<Rightarrow> database \<Rightarrow> bool" where
  "halfway n a sm D db \<longleftrightarrow>
     (\<forall>l \<in> set (locations_of n db). if location l \<in> D then (status l, status_description l) = sm else status l = a)"

lemma convoy_row:
  assumes "convoy S n W L r db" and "k \<in> L"
  obtains l where "l \<in> set (locations_of n db)" "location l = k" "test_run l = n" "served (S k) db l" "num_workers l = W k"
proof -
  obtain l where "l \<in> set (locations_of n db)" "location l = k" using assms by (auto simp: convoy_def)
  moreover from this(1) have "test_run l = n" by (simp add: locations_of_def)
  ultimately show ?thesis using assms(1) that by (auto simp: convoy_def)
qed

lemma halfway_all_in:
  assumes "convoy S n W L r db" and "halfway n a (s, m) D db" and "a \<noteq> s"
  shows "all_in s n db \<longleftrightarrow> L \<subseteq> D"
proof
  assume all: "all_in s n db"
  show "L \<subseteq> D"
  proof
    fix k
    assume "k \<in> L"
    then obtain l where l: "l \<in> set (locations_of n db)" "location l = k" using convoy_row [OF assms(1)] by blast
    with all have "status l = s" by (simp add: all_in_def)
    with l assms(2,3) show "k \<in> D" by (auto simp: halfway_def split: if_splits)
  qed
next
  assume "L \<subseteq> D"
  with assms(1) have "location l \<in> D" if "l \<in> set (locations_of n db)" for l using that by (auto simp: convoy_def)
  with assms(2) show "all_in s n db" by (auto simp: all_in_def halfway_def)
qed

lemma report_among:
  fixes t :: datetime
  assumes c: "convoy S n W L r db" and h: "halfway n a (s, m) D db" and l: "l \<in> set (locations_of n db)"
    and s: "s \<noteq> FAILED" "a \<noteq> s"
  defines "db' \<equiv> reported_db (site_at (S (location l)) t) s m l db"
  shows "convoy S n W L (if L \<subseteq> insert (location l) D then phase_run t n s r else r) db'"
    and "halfway n a (s, m) (insert (location l) D) db'" and "others_kept n db db'"
    and "all_in s n db' \<longleftrightarrow> L \<subseteq> insert (location l) D"
proof -
  let ?l = "reported s m l"
  have served: "served (S (location l)) db l" and n: "test_run l = n" and row: "l \<in> set (tbl_run_location db)"
    and wf: "wf_db db" and run: "find_run n db = Some r"
    using c l by (auto simp: convoy_def locations_of_def)
  let ?f = "\<lambda>x. if x = l then ?l else x"
  have db': "db' = after_save t ?l db" by (simp add: db'_def reported_db_def)
  have served': "served (S (location l)) db' ?l" using served_reported [OF served, of s m] 
    by (simp add: db' served_after_save [OF served])
  have wf': "wf_db db'" using served' by (simp add: served_def)
  have "tbl_run_location db' = map (\<lambda>x. if pk x = pk l then ?l else x) (tbl_run_location db)"
    using after_save_stored_rows [OF wf row, of ?l t] s(1) by (simp add: db')
  also have "\<dots> = map ?f (tbl_run_location db)"
    using row_identity(1) [OF wf _ row] by (auto intro: map_cong)
  finally have rows: "tbl_run_location db' = map ?f (tbl_run_location db)" .
  have f: "test_run (?f x) = test_run x" "location (?f x) = location x" "num_workers (?f x) = num_workers x" for x
    by simp_all
  have locs: "locations_of k db' = map ?f (locations_of k db)" for k
    unfolding locations_of_def rows by (simp add: filter_map comp_def f)
  have same: "x = l" if "x \<in> set (locations_of n db)" "location x = location l" for x
    using that row_identity(2) [OF wf _ row, of x] n by (auto simp: locations_of_def)
  show halfway': "halfway n a (s, m) (insert (location l) D) db'"
    using h same by (auto simp: halfway_def locs split: if_splits)
  have runs: "find_run k db' = map_option (run_after t ?l db') (find_run k db)" for k
    by (simp add: db' find_run_after_save)
  have kept: "served (S (location x)) db' x" if "x \<in> set (locations_of n db)" "x \<noteq> l" for x
  proof -
    have "x \<in> set (tbl_run_location db')" using that by (auto simp: rows locations_of_def intro: rev_image_eqI)
    then show ?thesis
      using c that(1) wf' served_kept [of "S (location x)" db x t ?l] by (simp add: db' convoy_def)
  qed
  have "location ` set (locations_of n db') = location ` set (locations_of n db)"
    unfolding locs set_map image_image f ..
  moreover have "served (S (location x)) db' x \<and> num_workers x = W (location x)" if "x \<in> set (locations_of n db')" for x
    using that c served' kept l by (auto simp: convoy_def locs)
  ultimately have c0: "convoy S n W L (run_after t ?l db' r) db'"
    using c wf' run by (auto simp: convoy_def runs)
  show all: "all_in s n db' \<longleftrightarrow> L \<subseteq> insert (location l) D"
    using halfway_all_in [OF c0 halfway' s(2)] .
  have "name r = n" using find_run_row [OF run] by simp
  then have "run_after t ?l db' r = (if L \<subseteq> insert (location l) D then phase_run t n s r else r)"
    using n by (auto simp: run_after_def phase_run_def all [symmetric])
  with c0 show "convoy S n W L (if L \<subseteq> insert (location l) D then phase_run t n s r else r) db'" by simp
  show "others_kept n db db'"
    using reported_others_kept [of "site_at (S (location l)) t" db l s m] served n by (simp add: db'_def)
qed

section \<open>A round of reports\<close>

text \<open>
  Visits that report \<open>s\<close> and leave the igniters alone: the state before, described by the set
  \<open>D\<close> of the locations that have reported, and the state after.
\<close>

lemma visits_report:
  assumes a: "a \<noteq> s" "s \<noteq> FAILED"
    and step: "\<And>db l t c. (location l, t, c) \<in> set vs \<Longrightarrow> served (S (location l)) db l \<Longrightarrow> test_run l = n \<Longrightarrow>
      num_workers l = W (location l) \<Longrightarrow> status l = a \<Longrightarrow>
      (all_in s n (reported_db (site_at (S (location l)) t) s m l db) \<longleftrightarrow> last_one (location l)) \<Longrightarrow>
      visit S n (location l, t, c) (db, I) = (x, reported_db (site_at (S (location l)) t) s m l db, I)"
    and lone: "\<And>us k t c ws. vs = us @ (k, t, c) # ws \<Longrightarrow> L \<subseteq> insert k (D \<union> fst ` set us) \<longleftrightarrow> last_one k"
  shows "convoy S n W L r db \<Longrightarrow> halfway n a (s, m) D db \<Longrightarrow> distinct (map fst vs) \<Longrightarrow>
    fst ` set vs \<subseteq> L - D \<Longrightarrow>
    \<exists>db'. visits S n vs (db, I) = (replicate (length vs) x, db', I) \<and>
      convoy S n W L (if vs \<noteq> [] \<and> L \<subseteq> D \<union> fst ` set vs then phase_run (fst (snd (last vs))) n s r else r) db' \<and>
      halfway n a (s, m) (D \<union> fst ` set vs) db' \<and> others_kept n db db'"
  using step lone
proof (induction vs arbitrary: db r D)
  case Nil
  then show ?case by (intro exI [of _ db]) (simp add: others_kept_def)
next
  case (Cons v vs)
  obtain k t c where v: "v = (k, t, c)" by (cases v)
  have k: "k \<in> L" "k \<notin> D" using Cons.prems(4) v by auto
  obtain l where l: "l \<in> set (locations_of n db)" "location l = k" "test_run l = n" "served (S k) db l" "num_workers l = W k"
    using convoy_row [OF Cons.prems(1) k(1)] .
  have st: "status l = a" using Cons.prems(2) l(1,2) k(2) by (auto simp: halfway_def)
  let ?db = "reported_db (site_at (S k) t) s m l db"
  note after = report_among [OF Cons.prems(1,2) l(1) a(2,1), of t, unfolded l(2)]
  have one: "visit S n v (db, I) = (x, ?db, I)"
    using Cons.prems(5) [of l t c db] Cons.prems(6) [of "[]" k t c vs] l st after(4) by (simp add: v)
  obtain db' where rest: "visits S n vs (?db, I) = (replicate (length vs) x, db', I)"
    and c': "convoy S n W L (if vs \<noteq> [] \<and> L \<subseteq> insert k D \<union> fst ` set vs
       then phase_run (fst (snd (last vs))) n s (if L \<subseteq> insert k D then phase_run t n s r else r)
       else (if L \<subseteq> insert k D then phase_run t n s r else r)) db'"
    and h': "halfway n a (s, m) (insert k D \<union> fst ` set vs) db'" and kept: "others_kept n ?db db'"
  proof -
    have "\<exists>db'. visits S n vs (?db, I) = (replicate (length vs) x, db', I) \<and>
      convoy S n W L (if vs \<noteq> [] \<and> L \<subseteq> insert k D \<union> fst ` set vs
         then phase_run (fst (snd (last vs))) n s (if L \<subseteq> insert k D then phase_run t n s r else r)
         else (if L \<subseteq> insert k D then phase_run t n s r else r)) db' \<and>
      halfway n a (s, m) (insert k D \<union> fst ` set vs) db' \<and> others_kept n ?db db'"
    proof (rule Cons.IH [OF after(1,2)])
      show "distinct (map fst vs)" using Cons.prems(3) by simp
      show "fst ` set vs \<subseteq> L - insert k D" using Cons.prems(3,4) v by auto
      show "visit S n (location y, t', c') (db1, I) = (x, reported_db (site_at (S (location y)) t') s m y db1, I)"
        if "(location y, t', c') \<in> set vs" "served (S (location y)) db1 y" "test_run y = n" "num_workers y = W (location y)"
          "status y = a" "all_in s n (reported_db (site_at (S (location y)) t') s m y db1) \<longleftrightarrow> last_one (location y)" for db1 y t' c'
        using that by (intro Cons.prems(5)) simp_all
      show "L \<subseteq> insert k' (insert k D \<union> fst ` set us) \<longleftrightarrow> last_one k'" if "vs = us @ (k', t', c') # ws" for us k' t' c' ws
        using Cons.prems(6) [of "v # us" k' t' c' ws] that by (simp add: v insert_commute)
    qed
    then show ?thesis using that by blast
  qed
  have early: "\<not> L \<subseteq> insert k D" if "vs \<noteq> []" using Cons.prems(3,4) v that by (cases vs) auto
  have D: "D \<union> fst ` set (v # vs) = insert k D \<union> fst ` set vs" by (simp add: v)
  have "visits S n (v # vs) (db, I) = (replicate (length (v # vs)) x, db', I)" using one rest by simp
  moreover have "convoy S n W L
    (if v # vs \<noteq> [] \<and> L \<subseteq> insert k D \<union> fst ` set vs then phase_run (fst (snd (last (v # vs)))) n s r else r) db'"
  proof (cases "vs = []")
    case True
    with c' show ?thesis by (simp add: v split: if_splits)
  next
    case False
    with c' early show ?thesis by (simp split: if_splits)
  qed
  ultimately show ?case using h' others_kept_trans [OF after(3) kept] unfolding D by blast
qed

text \<open>A whole round.\<close>

lemma halfway_start: "all_in a n db \<Longrightarrow> halfway n a sm {} db"
  by (simp add: halfway_def all_in_def)

lemma halfway_end:
  assumes "convoy S n W L r db" and "halfway n a (s, m) L db"
  shows "all_in s n db" and "l \<in> set (locations_of n db) \<Longrightarrow> status l = s \<and> status_description l = m"
proof -
  have "location l \<in> L" if "l \<in> set (locations_of n db)" for l using assms(1) that by (auto simp: convoy_def)
  with assms(2) show "all_in s n db" and "l \<in> set (locations_of n db) \<Longrightarrow> status l = s \<and> status_description l = m"
    by (auto simp: all_in_def halfway_def)
qed

text \<open>All locations have reported a status with a message.\<close>

definition all_report :: "status \<times> string \<Rightarrow> string \<Rightarrow> database \<Rightarrow> bool" where
  "all_report sm n db \<longleftrightarrow> (\<forall>l \<in> set (locations_of n db). (status l, status_description l) = sm)"

lemma halfway_report:
  assumes "convoy S n W L r db" and "halfway n a (s, m) L db"
  shows "all_report (s, m) n db"
  using halfway_end [OF assms] by (simp add: all_report_def)

lemma last_visit:
  assumes "distinct (map fst vs)" and "vs = us @ v # ws"
  shows "fst ` set vs \<subseteq> insert (fst v) (fst ` set us) \<longleftrightarrow> fst v = fst (last vs)"
proof (cases "ws = []")
  case False
  let ?x = "fst (last vs)"
  have "last vs \<in> set ws" using False assms(2) by simp
  then have x: "?x \<in> fst ` set ws" "?x \<in> fst ` set vs" using assms(2) by simp_all
  have "fst v \<notin> fst ` set ws" "fst ` set us \<inter> fst ` set ws = {}" using assms by simp_all
  with x(1) have "?x \<noteq> fst v" "?x \<notin> fst ` set us" by (metis, metis disjoint_iff)
  with x(2) show ?thesis by (metis insert_iff subsetD)
qed (use assms(2) in auto)

lemma round_report:
  assumes c: "convoy S n W L r db" and all: "all_in a n db" and a: "a \<noteq> s" "s \<noteq> FAILED"
    and vs: "round_of L vs" "L \<noteq> {}"
    and step: "\<And>db l t c. (location l, t, c) \<in> set vs \<Longrightarrow> served (S (location l)) db l \<Longrightarrow> test_run l = n \<Longrightarrow>
      num_workers l = W (location l) \<Longrightarrow> status l = a \<Longrightarrow>
      visit S n (location l, t, c) (db, I) = (x, reported_db (site_at (S (location l)) t) s m l db, I)"
  obtains db' where "visits S n vs (db, I) = (replicate (length vs) x, db', I)"
    "convoy S n W L (phase_run (fst (snd (last vs))) n s r) db'" "all_in s n db'"
    "all_report (s, m) n db'" "others_kept n db db'"
proof -
  have L: "fst ` set vs = L" "distinct (map fst vs)" using vs(1) by (simp_all add: round_of_def)
  have "\<exists>db'. visits S n vs (db, I) = (replicate (length vs) x, db', I) \<and>
      convoy S n W L (if vs \<noteq> [] \<and> L \<subseteq> {} \<union> fst ` set vs then phase_run (fst (snd (last vs))) n s r else r) db' \<and>
      halfway n a (s, m) ({} \<union> fst ` set vs) db' \<and> others_kept n db db'"
  proof (rule visits_report [OF a _ _ c halfway_start [OF all] L(2)])
    show "fst ` set vs \<subseteq> L - {}" using L(1) by simp
    show "L \<subseteq> insert k ({} \<union> fst ` set us) \<longleftrightarrow> k = fst (last vs)" if "vs = us @ (k, t, c) # ws" for us k t c ws
      using last_visit [OF L(2) that] L(1) by simp
  qed (use step in blast)
  moreover have "vs \<noteq> []" using L(1) vs(2) by auto
  ultimately obtain db' where db': "visits S n vs (db, I) = (replicate (length vs) x, db', I)"
    "convoy S n W L (phase_run (fst (snd (last vs))) n s r) db'" "halfway n a (s, m) L db'" "others_kept n db db'"
    using L(1) by auto
  from that [OF db'(1,2) halfway_end(1) [OF db'(2,3)] halfway_report [OF db'(2,3)] db'(4)] show ?thesis .
qed

section \<open>The round that gets ready\<close>

definition igniter_at :: "datetime \<Rightarrow> bool \<Rightarrow> igniter \<Rightarrow> bool" where
  "igniter_at t b ig \<longleftrightarrow> ig_start_test_at ig = t \<and> ig_started ig = b \<and> ig_error ig = None"

definition fsm_sites :: "(string \<Rightarrow> 'c site) \<Rightarrow> bool" where
  "fsm_sites S \<longleftrightarrow> (\<forall>k. fsm_lists (site_env (S k)) \<and> fsm_moves (site_env (S k)))"

lemma fsm_sites_at:
  assumes "fsm_sites S"
  shows "fsm_lists (site_env (site_at (S k) t))" "fsm_moves (site_env (site_at (S k) t))"
  using assms by (simp_all add: fsm_sites_def)

lemma visit_unchanged:
  assumes "reconcile (site_operator (site_at (S k) t)) n ((db, c), I k) = (x, (db', c), I k)"
  shows "visit S n (k, t, c) (db, I) = (x, db', I)"
  using assms by (simp add: visit_def)

lemma round_ready:
  assumes fsm: "fsm_sites S" and c: "convoy S n W L r db" and all: "all_in QUEUED n db" and run: "started_at r = None"
    and vs: "round_of L vs" "L \<noteq> {}" and igs: "\<And>k. k \<in> L \<Longrightarrow> I k n = None"
    and pods: "\<And>k t c. (k, t, c) \<in> set vs \<Longrightarrow> \<exists>obj. job_found (S k) n c obj \<and> get_job_condition obj ''Failed'' = None \<and>
      kj_ready obj = Some (of_nat (W k)) \<and> pods_stable (site_at (S k) t) n c (W k)"
  obtains db' ig where "visits S n vs (db, I) =
      (replicate (length vs - 1) (Some (GoError ''Job is not ready to be ignited'')) @ [None],
       db', I(fst (last vs) := (I (fst (last vs)))(n \<mapsto> ig)))"
    "igniter_at (floor_second (fst (snd (last vs)) + seconds start_delay_seconds)) False ig"
    "convoy S n W L (start_run (fst (snd (last vs))) r) db'" "all_in READY n db'"
    "all_report (READY, ''Worker pods are ready and waiting to start testing'') n db'"
    "others_kept n db db'"
proof -
  let ?m = "''Worker pods are ready and waiting to start testing''" and ?x = "Some (GoError ''Job is not ready to be ignited'')"
  have dist: "distinct (map fst vs)" and L: "fst ` set vs = L" using vs(1) by (simp_all add: round_of_def)
  then obtain us k t c where v: "vs = us @ [(k, t, c)]" using vs(2) by (cases vs rule: rev_cases) auto
  have k: "k \<in> L" "k \<notin> fst ` set us" "L = insert k (fst ` set us)" using dist L v by auto
  have step: "visit S n (location l, t, c) (db, I) = (?x, reported_db (site_at (S (location l)) t) READY ?m l db, I)"
    if "(location l, t, c) \<in> set us" "served (S (location l)) db l" "test_run l = n" "num_workers l = W (location l)"
      "status l = QUEUED" "\<not> all_in READY n (reported_db (site_at (S (location l)) t) READY ?m l db)" for db l t c
  proof (rule visit_unchanged)
    have "(location l, t, c) \<in> set vs" using that(1) v by simp
    from pods [OF this] obtain obj where "job_found (S (location l)) n c obj" "get_job_condition obj ''Failed'' = None"
      "kj_ready obj = Some (of_nat (W (location l)))" "pods_stable (site_at (S (location l)) t) n c (W (location l))"
      by blast
    then show "reconcile (site_operator (site_at (S (location l)) t)) n ((db, c), I (location l)) =
        (?x, (reported_db (site_at (S (location l)) t) READY ?m l db, c), I (location l))"
      using gets_ready(1) [OF fsm_sites_at [OF fsm], of "location l" t db l c obj "I (location l)"] that igs [of "location l"]
        k(3) by force
  qed
  have "\<exists>db'. visits S n us (db, I) = (replicate (length us) ?x, db', I) \<and>
      convoy S n W L (if us \<noteq> [] \<and> L \<subseteq> {} \<union> fst ` set us then phase_run (fst (snd (last us))) n READY r else r) db' \<and>
      halfway n QUEUED (READY, ?m) ({} \<union> fst ` set us) db' \<and> others_kept n db db'"
  proof (rule visits_report [where last_one = "\<lambda>_. False", OF _ _ _ _ c halfway_start [OF all]])
    show "distinct (map fst us)" "fst ` set us \<subseteq> L - {}" using dist v k(3) by auto
    show "L \<subseteq> insert k' ({} \<union> fst ` set us') \<longleftrightarrow> False" if "us = us' @ (k', t', c') # ws" for us' k' t' c' ws
    proof -
      have "insert k' (fst ` set us') \<subseteq> fst ` set us" using that by auto
      with k(1,2) show ?thesis by blast
    qed
  qed (use step in simp_all)
  moreover have "\<not> L \<subseteq> fst ` set us" using k(1,2) by blast
  ultimately obtain db1 where db1: "visits S n us (db, I) = (replicate (length us) ?x, db1, I)"
    "convoy S n W L r db1" "halfway n QUEUED (READY, ?m) (fst ` set us) db1" "others_kept n db db1"
    by auto
  obtain l where l: "l \<in> set (locations_of n db1)" "location l = k" "test_run l = n" "served (S k) db1 l" "num_workers l = W k"
    using convoy_row [OF db1(2) k(1)] .
  have st: "status l = QUEUED" using db1(3) l(1,2) k(2) by (auto simp: halfway_def)
  let ?db = "reported_db (site_at (S k) t) READY ?m l db1"
  note after = report_among [OF db1(2,3) l(1), of t, unfolded l(2)]
  have r: "name r = n" using db1(2) find_run_row [of n db1] by (auto simp: convoy_def)
  then have start: "phase_run t n READY r = start_run t r" "pk (start_run t r) = pk r"
    "started_at (start_run t r) = Some (floor_second (t + seconds start_delay_seconds))"
    using run by (simp_all add: phase_run_def start_run_def)
  have c': "convoy S n W L (start_run t r) ?db" and h': "halfway n QUEUED (READY, ?m) L ?db"
    and kept: "others_kept n db1 ?db" and ready: "all_in READY n ?db"
    using after k(3) by (simp_all add: start(1))
  obtain obj where "job_found (S k) n c obj" "get_job_condition obj ''Failed'' = None"
    "kj_ready obj = Some (of_nat (W k))" "pods_stable (site_at (S k) t) n c (W k)"
    using pods [of k t c] v by auto
  then obtain ig where ig: "reconcile (site_operator (site_at (S k) t)) n ((db1, c), I k) = (None, (?db, c), (I k)(n \<mapsto> ig))"
    "igniter_at (floor_second (t + seconds start_delay_seconds)) False ig"
    using gets_ready(2) [OF fsm_sites_at [OF fsm], of k t db1 l c obj "I k" "start_run t r"] l st igs [OF k(1)] ready start c'
    by (auto simp: convoy_def igniter_at_def)
  have "visits S n vs (db, I) = (replicate (length vs - 1) ?x @ [None], ?db, I(k := (I k)(n \<mapsto> ig)))"
    unfolding v visits_append by (simp add: db1(1) visit_def ig(1))
  then show ?thesis
    using that [of ?db ig] ig(2) c' ready halfway_report [OF c' h'] others_kept_trans [OF db1(4) kept] by (simp add: v)
qed


section \<open>The other rounds\<close>

lemma round_queued:
  assumes fsm: "fsm_sites S" and c: "convoy S n W L r db" and all: "all_in PENDING n db" and vs: "round_of L vs" "L \<noteq> {}"
    and make: "\<And>k t c. (k, t, c) \<in> set vs \<Longrightarrow>
      job_missing (S k) n c \<and> (\<forall>job. g_name job = n \<longrightarrow> (\<exists>c'. creates_job (S k) job c c'))"
  obtains db' where "visits S n vs (db, I) = (replicate (length vs) None, db', I)" "convoy S n W L r db'"
    "all_in QUEUED n db'" "all_report (QUEUED, ''Test run is queued for execution'') n db'"
    "others_kept n db db'"
proof (rule round_report [where s = QUEUED and x = None and I = I and m = "''Test run is queued for execution''", OF c all _ _ vs])
  show "visit S n (location l, t, c) (db, I) =
      (None, reported_db (site_at (S (location l)) t) QUEUED ''Test run is queued for execution'' l db, I)"
    if h: "(location l, t, c) \<in> set vs" "served (S (location l)) db l" "test_run l = n" "status l = PENDING" for db l t c
  proof -
    let ?s = "site_at (S (location l)) t"
    have sv: "served ?s db l" using h(2) by simp
    have "g_name (job_of (S (location l)) db l) = n" using job_of_fields(1) [OF h(2)] h(3) by simp
    then obtain c' where "creates_job ?s (job_of ?s db l) c c'" "job_missing ?s (test_run l) c"
      using make [OF h(1)] h(3) by auto
    then show ?thesis
      using create_queues [OF fsm_sites_at [OF fsm] sv h(4)] h(3) by (simp add: visit_def)
  qed
  fix db'
  assume "convoy S n W L (phase_run (fst (snd (last vs))) n QUEUED r) db'"
  then have "convoy S n W L r db'" by (simp add: phase_run_def)
  moreover assume "visits S n vs (db, I) = (replicate (length vs) None, db', I)" "all_in QUEUED n db'"
    "all_report (QUEUED, ''Test run is queued for execution'') n db'" "others_kept n db db'"
  ultimately show ?thesis by (intro that)
qed simp_all

text \<open>The igniter of a location: kept, or made with the start that the run shows.\<close>

lemma visit_igniter:
  assumes fsm: "fsm_sites S" and c: "convoy S n W L r db" and all: "all_in READY n db" and k: "k \<in> L"
    and run: "started_at r = Some t0"
    and igs: "\<And>ig. I k n = Some ig \<Longrightarrow> igniter_at t0 False ig"
    and found: "job_found (S k) n c obj" "get_job_condition obj ''Failed'' = None"
      "kube_pods (site_kube (S k)) n c = (Inr pods, c)" "length pods = W k"
  shows "\<exists>ig. visit S n (k, t, c) (db, I) = (None, db, I(k := (I k)(n \<mapsto> ig))) \<and> igniter_at t0 False ig"
proof -
  let ?s = "site_at (S k) t"
  obtain l where l: "l \<in> set (locations_of n db)" "test_run l = n" "served (S k) db l" "num_workers l = W k"
    using convoy_row [OF c k] by blast
  then have sv: "served ?s db l" and st: "status l = READY" using all by (simp_all add: all_in_def)
  have "\<exists>ig. create_igniter (site_operator ?s) (job_of ?s db l) ((db, c), I k) = (Inr ig, (db, c), (I k)(n \<mapsto> ig)) \<and>
      igniter_at t0 False ig"
  proof (cases "I k n")
    case None
    have "pk_true (pk r)" "find_run n db = Some r" using c by (simp_all add: convoy_def)
    with creates_igniter [OF sv, of r t0 c pods "I k"] None run found l(2,4) all show ?thesis
      by (simp add: Let_def igniter_at_def)
  next
    case (Some ig)
    then have "(I k)(n \<mapsto> ig) = I k" by auto
    with Some igs [OF Some] show ?thesis
      by (simp add: create_igniter_def job_of_fields [OF l(3)] l(2))
  qed
  then obtain ig where ig: "create_igniter (site_operator ?s) (job_of ?s db l) ((db, c), I k) = (Inr ig, (db, c), (I k)(n \<mapsto> ig))"
    "igniter_at t0 False ig" by blast
  have "reconcile (site_operator ?s) n ((db, c), I k) = (None, (db, c), (I k)(n \<mapsto> ig))"
    using ready_served [OF fsm_sites_at [OF fsm] sv ig(1), of obj] ig(2) st found(1,2) l(2)
      reconcile_found [OF sv, of c obj] object_ready [OF sv found(2)]
    by (simp add: igniter_at_def)
  with ig(2) show ?thesis by (auto simp: visit_def)
qed

lemma round_igniters:
  assumes fsm: "fsm_sites S" and c: "convoy S n W L r db" and all: "all_in READY n db" and run: "started_at r = Some t0"
    and vs: "fst ` set vs \<subseteq> L"
    and pods: "\<And>k t c. (k, t, c) \<in> set vs \<Longrightarrow> \<exists>obj pods. job_found (S k) n c obj \<and> get_job_condition obj ''Failed'' = None \<and>
      kube_pods (site_kube (S k)) n c = (Inr pods, c) \<and> length pods = W k"
    and igs: "\<And>k ig. k \<in> L \<Longrightarrow> I k n = Some ig \<Longrightarrow> igniter_at t0 False ig"
  shows "\<exists>I'. visits S n vs (db, I) = (replicate (length vs) None, db, I') \<and>
    (\<forall>k \<in> L. \<forall>ig. I' k n = Some ig \<longrightarrow> igniter_at t0 False ig) \<and> (\<forall>k. I k n \<noteq> None \<or> k \<in> fst ` set vs \<longrightarrow> I' k n \<noteq> None)"
  using vs pods igs
proof (induction vs arbitrary: I)
  case (Cons v vs)
  obtain k t c where v: "v = (k, t, c)" by (cases v)
  obtain obj ps where "job_found (S k) n c obj" "get_job_condition obj ''Failed'' = None"
    "kube_pods (site_kube (S k)) n c = (Inr ps, c)" "length ps = W k"
    using Cons.prems(2) [of k t c] v by auto
  from visit_igniter [OF fsm c(1) all _ run _ this, of I t] Cons.prems(1,3) v
  obtain ig where ig: "visit S n v (db, I) = (None, db, I(k := (I k)(n \<mapsto> ig)))" "igniter_at t0 False ig" by auto
  let ?I = "I(k := (I k)(n \<mapsto> ig))"
  have "\<exists>I'. visits S n vs (db, ?I) = (replicate (length vs) None, db, I') \<and>
    (\<forall>k \<in> L. \<forall>ig. I' k n = Some ig \<longrightarrow> igniter_at t0 False ig) \<and> (\<forall>k. ?I k n \<noteq> None \<or> k \<in> fst ` set vs \<longrightarrow> I' k n \<noteq> None)"
  proof (rule Cons.IH)
    show "fst ` set vs \<subseteq> L" using Cons.prems(1) by simp
    show "\<exists>obj pods. job_found (S k') n c' obj \<and> get_job_condition obj ''Failed'' = None \<and>
        kube_pods (site_kube (S k')) n c' = (Inr pods, c') \<and> length pods = W k'" if "(k', t', c') \<in> set vs" for k' t' c'
      using Cons.prems(2) [of k' t' c'] that by simp
    show "igniter_at t0 False ig'" if "k' \<in> L" "?I k' n = Some ig'" for k' ig'
      using Cons.prems(3) [of k' ig'] that ig(2) by (simp split: if_splits)
  qed
  then obtain I' where I': "visits S n vs (db, ?I) = (replicate (length vs) None, db, I')"
    "\<forall>k \<in> L. \<forall>ig. I' k n = Some ig \<longrightarrow> igniter_at t0 False ig" "\<forall>k'. ?I k' n \<noteq> None \<or> k' \<in> fst ` set vs \<longrightarrow> I' k' n \<noteq> None"
    by blast
  from I'(3) have "I k' n \<noteq> None \<or> k' \<in> fst ` set (v # vs) \<longrightarrow> I' k' n \<noteq> None" for k'
    by (auto simp: v dest: spec [of _ k'])
  with I'(1,2) ig(1) show ?case by (intro exI [of _ I']) simp
qed simp

text \<open>The igniters fire.\<close>

lemma fires_started:
  assumes "\<And>k t c. (k, t, c) \<in> set vs \<Longrightarrow> t0 \<le> t"
    and "\<And>k. k \<in> fst ` set vs \<Longrightarrow> \<exists>ig b. I k n = Some ig \<and> igniter_at t0 b ig"
  shows "\<exists>I'. fires S n vs (db, I) = (db, I') \<and> (\<forall>k. k \<notin> fst ` set vs \<longrightarrow> I' k = I k) \<and>
    (\<forall>k \<in> fst ` set vs. \<exists>ig. I' k n = Some ig \<and> igniter_at t0 True ig)"
  using assms
proof (induction vs arbitrary: I)
  case (Cons v vs)
  obtain k t c where v: "v = (k, t, c)" by (cases v)
  obtain ig b where ig: "I k n = Some ig" "igniter_at t0 b ig" using Cons.prems(2) [of k] v by auto
  let ?I = "I(k := (I k)(n \<mapsto> ig\<lparr>ig_started := True\<rparr>))"
  have fired: "igniter_at t0 True (ig\<lparr>ig_started := True\<rparr>)" using ig(2) by (simp add: igniter_at_def)
  have "t0 \<le> t" using Cons.prems(1) [of k t c] v by simp
  then have one: "fires S n (v # vs) (db, I) = fires S n vs (db, ?I)"
    using ig by (simp add: v igniter_start_def igniter_at_def site_operator_def)
  have now': "\<exists>ig b. ?I k' n = Some ig \<and> igniter_at t0 b ig" if "k' \<in> fst ` set vs" for k'
    using Cons.prems(2) [of k'] that fired by (cases "k' = k") auto
  have later: "t0 \<le> t'" if "(k', t', c') \<in> set vs" for k' t' c' using Cons.prems(1) [of k' t' c'] that by simp
  have "\<exists>I'. fires S n vs (db, ?I) = (db, I') \<and> (\<forall>k. k \<notin> fst ` set vs \<longrightarrow> I' k = ?I k) \<and>
      (\<forall>k \<in> fst ` set vs. \<exists>ig. I' k n = Some ig \<and> igniter_at t0 True ig)"
    using later now' by (rule Cons.IH)
  then obtain I' where I': "fires S n vs (db, ?I) = (db, I')" "\<forall>k'. k' \<notin> fst ` set vs \<longrightarrow> I' k' = ?I k'"
    "\<forall>k \<in> fst ` set vs. \<exists>ig. I' k n = Some ig \<and> igniter_at t0 True ig"
    by blast
  have "\<exists>ig. I' k n = Some ig \<and> igniter_at t0 True ig" using I'(2,3) fired by (cases "k \<in> fst ` set vs") auto
  with I' one show ?case by (intro exI [of _ I']) (simp add: v)
qed simp

lemma round_running:
  assumes fsm: "fsm_sites S" and c: "convoy S n W L r db" and all: "all_in READY n db" and vs: "round_of L vs" "L \<noteq> {}"
    and igs: "\<And>k. k \<in> L \<Longrightarrow> \<exists>ig. I k n = Some ig \<and> igniter_at t0 True ig"
    and pods: "\<And>k t c. (k, t, c) \<in> set vs \<Longrightarrow>
      \<exists>obj. job_found (S k) n c obj \<and> get_job_condition obj ''Failed'' = None \<and> kj_active obj \<noteq> 0"
  obtains db' where "visits S n vs (db, I) = (replicate (length vs) None, db', I)" "convoy S n W L r db'"
    "all_in RUNNING n db'"
    "all_report (RUNNING, ''Worker pods are currently running k6 tests'') n db'"
    "others_kept n db db'"
proof (rule round_report [where s = RUNNING and x = None and I = I and
      m = "''Worker pods are currently running k6 tests''", OF c all _ _ vs])
  show "visit S n (location l, t, c) (db, I) =
      (None, reported_db (site_at (S (location l)) t) RUNNING ''Worker pods are currently running k6 tests'' l db, I)"
    if h: "(location l, t, c) \<in> set vs" "served (S (location l)) db l" "test_run l = n" "status l = READY" for db l t c
  proof (rule visit_unchanged)
    have "location l \<in> L" using imageI [OF h(1), of fst] vs(1) by (simp add: round_of_def)
    then obtain ig where ig: "I (location l) n = Some ig" "igniter_at t0 True ig" using igs by blast
    obtain obj where "job_found (S (location l)) n c obj" "get_job_condition obj ''Failed'' = None" "kj_active obj \<noteq> 0"
      using pods [OF h(1)] by blast
    then show "reconcile (site_operator (site_at (S (location l)) t)) n ((db, c), I (location l)) =
      (None, (reported_db (site_at (S (location l)) t) RUNNING ''Worker pods are currently running k6 tests'' l db, c), I (location l))"
      using reconcile_ignited [OF fsm_sites_at [OF fsm], of "location l" t db l c obj "I (location l)" ig] h ig
      by (simp add: igniter_at_def)
  qed
  fix db'
  assume "convoy S n W L (phase_run (fst (snd (last vs))) n RUNNING r) db'"
  then have "convoy S n W L r db'" by (simp add: phase_run_def)
  moreover assume "visits S n vs (db, I) = (replicate (length vs) None, db', I)" "all_in RUNNING n db'"
    "all_report (RUNNING, ''Worker pods are currently running k6 tests'') n db'" "others_kept n db db'"
  ultimately show ?thesis by (intro that)
qed simp_all

lemma round_completed:
  assumes fsm: "fsm_sites S" and c: "convoy S n W L r db" and all: "all_in RUNNING n db" and vs: "round_of L vs" "L \<noteq> {}"
    and pods: "\<And>k t c. (k, t, c) \<in> set vs \<Longrightarrow> \<exists>obj. job_found (S k) n c obj \<and>
      get_job_condition obj ''Failed'' = None \<and> kj_active obj = 0 \<and> sint (kj_succeeded obj) = int (W k)"
  obtains db' where "visits S n vs (db, I) = (replicate (length vs) None, db', I)"
    "convoy S n W L (complete_run (fst (snd (last vs))) r) db'" "all_in COMPLETED n db'"
    "all_report (COMPLETED, ''Worker pods have successfully completed running k6 tests'') n db'"
    "others_kept n db db'"
proof (rule round_report [where s = COMPLETED and x = None and I = I and
      m = "''Worker pods have successfully completed running k6 tests''", OF c all _ _ vs])
  show "visit S n (location l, t, c) (db, I) =
      (None, reported_db (site_at (S (location l)) t) COMPLETED ''Worker pods have successfully completed running k6 tests'' l db, I)"
    if "(location l, t, c) \<in> set vs" "served (S (location l)) db l" "test_run l = n" "num_workers l = W (location l)"
      "status l = RUNNING" for db l t c
    using runs_out [OF fsm_sites_at [OF fsm], of "location l" t db l c _ "I (location l)"] pods [OF that(1)] that
    by (intro visit_unchanged) auto
  fix db'
  have "name r = n" using c find_run_row [of n db] by (auto simp: convoy_def)
  moreover assume "convoy S n W L (phase_run (fst (snd (last vs))) n COMPLETED r) db'"
  ultimately have "convoy S n W L (complete_run (fst (snd (last vs))) r) db'" by (simp add: phase_run_def)
  moreover assume "visits S n vs (db, I) = (replicate (length vs) None, db', I)" "all_in COMPLETED n db'"
    "all_report (COMPLETED, ''Worker pods have successfully completed running k6 tests'') n db'"
    "others_kept n db db'"
  ultimately show ?thesis by (intro that)
qed simp_all


section \<open>The whole life\<close>

text \<open>What an operator finds in its cluster at its visits of the five rounds.\<close>

definition finds_nothing :: "(string \<Rightarrow> 'c site) \<Rightarrow> string \<Rightarrow> 'c visit \<Rightarrow> bool" where
  "finds_nothing S n v = (case v of (k, t, c) \<Rightarrow>
     job_missing (S k) n c \<and> (\<forall>job. g_name job = n \<longrightarrow> (\<exists>c'. creates_job (S k) job c c')))"

definition finds_object :: "(string \<Rightarrow> kube_job \<Rightarrow> bool) \<Rightarrow> (string \<Rightarrow> 'c site) \<Rightarrow> string \<Rightarrow> 'c visit \<Rightarrow> bool" where
  "finds_object P S n v = (case v of (k, t, c) \<Rightarrow>
     \<exists>obj. job_found (S k) n c obj \<and> get_job_condition obj ''Failed'' = None \<and> P k obj)"

definition finds_stable :: "(string \<Rightarrow> nat) \<Rightarrow> (string \<Rightarrow> 'c site) \<Rightarrow> string \<Rightarrow> 'c visit \<Rightarrow> bool" where
  "finds_stable W S n v = (case v of (k, t, c) \<Rightarrow> pods_stable (site_at (S k) t) n c (W k))"

definition finds_pods :: "(string \<Rightarrow> nat) \<Rightarrow> (string \<Rightarrow> 'c site) \<Rightarrow> string \<Rightarrow> 'c visit \<Rightarrow> bool" where
  "finds_pods W S n v = (case v of (k, t, c) \<Rightarrow>
     \<exists>pods. kube_pods (site_kube (S k)) n c = (Inr pods, c) \<and> length pods = W k)"

text \<open>
  C6. The operators of all locations take a run through its whole life. Each reconciles the run once a
  round, in any order and at any times, while its cluster makes the Job, then has all pods stable, then lists
  them, then (after the igniters have fired) runs them, then has all of them succeeded. Then after
  the rounds all locations have reported queued, ready, running and completed; there is no error but in
  the second round, where every location that is not the last one to get ready is told that the
  run is not ready to be ignited. All igniters wait for the same start, which the last of these
  visits has set 29 to 30 seconds ahead; the run shows it, ends at the last visit of all, and no
  other run and no row of one has changed.
\<close>

theorem operators_drive_run:
  assumes fsm: "fsm_sites S" and start: "convoy S n W L r db" "all_in PENDING n db" "L \<noteq> {}"
    and run: "started_at r = None" "completed_at r = None" and no_igniter: "\<forall>k \<in> L. I k n = None"
    and rounds: "round_of L vs1" "round_of L vs2" "round_of L vs3" "round_of L fs" "round_of L vs4" "round_of L vs5"
    and make: "\<forall>v \<in> set vs1. finds_nothing S n v"
    and stable: "\<forall>v \<in> set vs2. finds_object (\<lambda>k obj. kj_ready obj = Some (of_nat (W k))) S n v \<and> finds_stable W S n v"
    and pods: "\<forall>v \<in> set vs3. finds_object (\<lambda>_ _. True) S n v \<and> finds_pods W S n v"
    and fire: "\<forall>(k, t, c) \<in> set fs. floor_second (fst (snd (last vs2)) + seconds start_delay_seconds) \<le> t"
    and active: "\<forall>v \<in> set vs4. finds_object (\<lambda>_ obj. kj_active obj \<noteq> 0) S n v"
    and over: "\<forall>v \<in> set vs5. finds_object (\<lambda>k obj. kj_active obj = 0 \<and> sint (kj_succeeded obj) = int (W k)) S n v"
  shows "\<exists>db1 db2 I2 I3 I4 db4 db5 r'. let start = floor_second (fst (snd (last vs2)) + seconds start_delay_seconds) in
    visits S n vs1 (db, I) = (replicate (length vs1) None, db1, I) \<and>
    visits S n vs2 (db1, I) =
      (replicate (length vs2 - 1) (Some (GoError ''Job is not ready to be ignited'')) @ [None], db2, I2) \<and>
    visits S n vs3 (db2, I2) = (replicate (length vs3) None, db2, I3) \<and>
    fires S n fs (db2, I3) = (db2, I4) \<and>
    visits S n vs4 (db2, I4) = (replicate (length vs4) None, db4, I4) \<and>
    visits S n vs5 (db4, I4) = (replicate (length vs5) None, db5, I4) \<and>
    list_all2 (\<lambda>sm. all_report sm n) drive_reports [db1, db2, db4, db5] \<and>
    (\<forall>k \<in> L. \<exists>ig. I4 k n = Some ig \<and> ig_start_test_at ig = start \<and> ig_started ig \<and> ig_error ig = None) \<and>
    find_run n db5 = Some r' \<and> started_at r' = Some start \<and> completed_at r' = Some (floor_second (fst (snd (last vs5)))) \<and>
    fst (snd (last vs2)) + seconds 29 < start \<and> start \<le> fst (snd (last vs2)) + seconds 30 \<and>
    others_kept n db db5"
proof -
  let ?t = "fst (snd (last vs2))"
  let ?start = "floor_second (?t + seconds start_delay_seconds)"
  have make': "job_missing (S k) n c \<and> (\<forall>job. g_name job = n \<longrightarrow> (\<exists>c'. creates_job (S k) job c c'))"
    if "(k, t, c) \<in> set vs1" for k t c
    using bspec [OF make that] by (simp add: finds_nothing_def)
  have stable': "\<exists>obj. job_found (S k) n c obj \<and> get_job_condition obj ''Failed'' = None \<and>
      kj_ready obj = Some (of_nat (W k)) \<and> pods_stable (site_at (S k) t) n c (W k)" if "(k, t, c) \<in> set vs2" for k t c
    using bspec [OF stable that] by (simp add: finds_object_def finds_stable_def)
  have pods': "\<exists>obj pods. job_found (S k) n c obj \<and> get_job_condition obj ''Failed'' = None \<and>
      kube_pods (site_kube (S k)) n c = (Inr pods, c) \<and> length pods = W k" if "(k, t, c) \<in> set vs3" for k t c
    using bspec [OF pods that] by (simp add: finds_object_def finds_pods_def)
  have active': "\<exists>obj. job_found (S k) n c obj \<and> get_job_condition obj ''Failed'' = None \<and> kj_active obj \<noteq> 0"
    if "(k, t, c) \<in> set vs4" for k t c
    using bspec [OF active that] by (simp add: finds_object_def)
  have over': "\<exists>obj. job_found (S k) n c obj \<and> get_job_condition obj ''Failed'' = None \<and> kj_active obj = 0 \<and>
      sint (kj_succeeded obj) = int (W k)" if "(k, t, c) \<in> set vs5" for k t c
    using bspec [OF over that] by (simp add: finds_object_def)
  have none: "I k n = None" if "k \<in> L" for k using no_igniter that by simp
  obtain db1 where 1: "visits S n vs1 (db, I) = (replicate (length vs1) None, db1, I)" "convoy S n W L r db1" "all_in QUEUED n db1"
    "all_report (QUEUED, ''Test run is queued for execution'') n db1" "others_kept n db db1"
    by (rule round_queued [where I = I, OF fsm start(1,2) rounds(1) start(3) make'])
  obtain db2 ig where 2: "visits S n vs2 (db1, I) =
      (replicate (length vs2 - 1) (Some (GoError ''Job is not ready to be ignited'')) @ [None],
       db2, I(fst (last vs2) := (I (fst (last vs2)))(n \<mapsto> ig)))" "igniter_at ?start False ig"
    "convoy S n W L (start_run ?t r) db2" "all_in READY n db2"
    "all_report (READY, ''Worker pods are ready and waiting to start testing'') n db2"
    "others_kept n db1 db2"
    by (rule round_ready [where I = I, OF fsm 1(2,3) run(1) rounds(2) start(3) none stable'])
  let ?I2 = "I(fst (last vs2) := (I (fst (last vs2)))(n \<mapsto> ig))"
  have started: "started_at (start_run ?t r) = Some ?start" using run(1) by (simp add: start_run_def)
  have kept: "igniter_at ?start False ig'" if "k \<in> L" "?I2 k n = Some ig'" for k ig'
    using that none [OF that(1)] 2(2) by (simp split: if_splits)
  have L: "fst ` set vs3 = L" "fst ` set fs = L" using rounds by (simp_all add: round_of_def)
  have "\<exists>I3. visits S n vs3 (db2, ?I2) = (replicate (length vs3) None, db2, I3) \<and>
      (\<forall>k \<in> L. \<forall>ig. I3 k n = Some ig \<longrightarrow> igniter_at ?start False ig) \<and>
      (\<forall>k. ?I2 k n \<noteq> None \<or> k \<in> fst ` set vs3 \<longrightarrow> I3 k n \<noteq> None)"
    using pods' kept by (rule round_igniters [OF fsm 2(3,4) started equalityD1 [OF L(1)]])
  then obtain I3 where 3: "visits S n vs3 (db2, ?I2) = (replicate (length vs3) None, db2, I3)"
    "\<forall>k \<in> L. \<forall>ig. I3 k n = Some ig \<longrightarrow> igniter_at ?start False ig" "\<forall>k. ?I2 k n \<noteq> None \<or> k \<in> L \<longrightarrow> I3 k n \<noteq> None"
    unfolding L by blast
  have fire': "?start \<le> t" if "(k, t, c) \<in> set fs" for k t c using fire that by auto
  have armed: "\<exists>ig b. I3 k n = Some ig \<and> igniter_at ?start b ig" if "k \<in> fst ` set fs" for k
    using that 3(2,3) unfolding L by blast
  have "\<exists>I4. fires S n fs (db2, I3) = (db2, I4) \<and> (\<forall>k. k \<notin> fst ` set fs \<longrightarrow> I4 k = I3 k) \<and>
      (\<forall>k \<in> fst ` set fs. \<exists>ig. I4 k n = Some ig \<and> igniter_at ?start True ig)"
    using fire' armed by (rule fires_started)
  then obtain I4 where 4: "fires S n fs (db2, I3) = (db2, I4)" "\<forall>k \<in> L. \<exists>ig. I4 k n = Some ig \<and> igniter_at ?start True ig"
    unfolding L by blast
  have fired: "\<exists>ig. I4 k n = Some ig \<and> igniter_at ?start True ig" if "k \<in> L" for k using 4(2) that by blast
  obtain db4 where 5: "visits S n vs4 (db2, I4) = (replicate (length vs4) None, db4, I4)" "convoy S n W L (start_run ?t r) db4"
    "all_in RUNNING n db4"
    "all_report (RUNNING, ''Worker pods are currently running k6 tests'') n db4"
    "others_kept n db2 db4"
    by (rule round_running [where I = I4, OF fsm 2(3,4) rounds(5) start(3) fired active'])
  obtain db5 where 6: "visits S n vs5 (db4, I4) = (replicate (length vs5) None, db5, I4)"
    "convoy S n W L (complete_run (fst (snd (last vs5))) (start_run ?t r)) db5" "all_in COMPLETED n db5"
    "all_report (COMPLETED, ''Worker pods have successfully completed running k6 tests'') n db5"
    "others_kept n db4 db5"
    by (rule round_completed [where I = I4, OF fsm 5(2,3) rounds(6) start(3) over'])
  let ?r = "complete_run (fst (snd (last vs5))) (start_run ?t r)"
  have "list_all2 (\<lambda>sm. all_report sm n) drive_reports [db1, db2, db4, db5]"
    unfolding drive_reports_def
    using 1(4) 2(5) 5(4) 6(4) by simp
  moreover have "find_run n db5 = Some ?r" using 6(2) by (simp add: convoy_def)
  moreover have "started_at ?r = Some ?start" "completed_at ?r = Some (floor_second (fst (snd (last vs5))))"
    using run by (simp_all add: complete_run_def start_run_def)
  moreover have "?t + seconds 29 < ?start" "?start \<le> ?t + seconds 30"
    using floor_second_bounds [of "?t + seconds start_delay_seconds"]
    by (simp_all add: start_delay_seconds_def clock_defs)
  moreover have "others_kept n db db5"
    using others_kept_trans [OF others_kept_trans [OF 1(5) 2(6)] others_kept_trans [OF 5(5) 6(5)]] .
  moreover have "\<forall>k \<in> L. \<exists>ig. I4 k n = Some ig \<and> ig_start_test_at ig = ?start \<and> ig_started ig \<and> ig_error ig = None"
    using 4(2) by (simp add: igniter_at_def)
  ultimately show ?thesis
    unfolding Let_def using 1(1) 2(1) 3(1) 4(1) 5(1) 6(1) by blast
qed


text \<open>A run of two locations with a cluster each.\<close>

definition sample_workers :: "string \<Rightarrow> nat" where
  "sample_workers k = (if k = ''eu'' then 2 else 3)"

definition sample_sites :: "string \<Rightarrow> kube_job option site" where
  "sample_sites k = at_cluster ((sample_site 0)\<lparr>site_region := k\<rparr>)
     (sample_kube\<lparr>kube_pods := \<lambda>n c. (Inr (replicate (sample_workers k) (hd sample_pods)), c)\<rparr>)"

lemma sample_convoy:
  "convoy sample_sites ''shop-a1'' sample_workers {''eu'', ''us''} (sample_run False) (sample_db False PENDING PENDING)"
proof -
  have "find_run ''shop-a1'' (sample_db False PENDING PENDING) = Some (sample_run False)"
    by (simp add: find_run_def by_key_def sample_db_def sample_run_def)
  moreover have "locations_of ''shop-a1'' (sample_db False PENDING PENDING) =
      [sample_row 4 ''eu'' 2 PENDING, sample_row 5 ''us'' 3 PENDING]"
    by (simp add: locations_of_def sample_db_def sample_row_def new_test_run_location_def)
  moreover have "served (sample_sites (location l)) db l = served (sample_fleet l) db l" for l db
    by (simp add: sample_sites_def sample_fleet_def)
  ultimately show ?thesis
    using sample_fleet_served [of _ PENDING PENDING] sample_db_wf [of False PENDING PENDING]
    by (simp add: convoy_def sample_run_def new_test_run_def pk_true_def)
      (simp add: sample_workers_def sample_row_def new_test_run_location_def)
qed

theorem operators_drive_run_witness:
  "\<exists>db5 r'. all_report (COMPLETED, ''Worker pods have successfully completed running k6 tests'') ''shop-a1'' db5 \<and>
    find_run ''shop-a1'' db5 = Some r' \<and> started_at r' = Some (seconds 41) \<and> completed_at r' = Some (seconds 400)"
proof -
  let ?obj = "new_kube_job ''shop-a1''"
  let ?at = "\<lambda>t k obj. (k, seconds t, obj)"
  let ?vs1 = "[?at 0 ''eu'' None, ?at 1 ''us'' None]"
  let ?vs2 = "[?at 12 ''us'' (Some (?obj\<lparr>kj_ready := Some 3\<rparr>)), ?at 11 ''eu'' (Some (?obj\<lparr>kj_ready := Some 2\<rparr>))]"
  let ?vs3 = "[?at 12 ''eu'' (Some ?obj), ?at 22 ''us'' (Some ?obj)]"
  let ?fs = "[?at 41 ''eu'' (Some ?obj), ?at 41 ''us'' (Some ?obj)]"
  let ?vs4 = "[?at 45 ''eu'' (Some (?obj\<lparr>kj_active := 2\<rparr>)), ?at 46 ''us'' (Some (?obj\<lparr>kj_active := 3\<rparr>))]"
  let ?vs5 = "[?at 390 ''us'' (Some (?obj\<lparr>kj_succeeded := 3\<rparr>)), ?at 400 ''eu'' (Some (?obj\<lparr>kj_succeeded := 2\<rparr>))]"
  let ?S = sample_sites and ?n = "''shop-a1''" and ?W = sample_workers and ?L = "{''eu'', ''us''}"
  have fsm: "fsm_sites ?S" using sample_site_laws [of 0] by (simp add: fsm_sites_def sample_sites_def)
  have run: "started_at (sample_run False) = None" "completed_at (sample_run False) = None"
    by (simp_all add: sample_run_def new_test_run_def)
  have pending: "all_in PENDING ?n (sample_db False PENDING PENDING)"
    by (simp add: all_in_def locations_of_def sample_db_def sample_row_def new_test_run_location_def)
  have rounds: "round_of ?L ?vs1" "round_of ?L ?vs2" "round_of ?L ?vs3" "round_of ?L ?fs" "round_of ?L ?vs4" "round_of ?L ?vs5"
    by (auto simp: round_of_def)
  have kube: "kube_get (site_kube (?S k)) n c = kube_get sample_kube n c"
    "kube_sync_job (site_kube (?S k)) = kube_sync_job sample_kube" "kube_create_secret (site_kube (?S k)) = kube_create_secret sample_kube"
    "kube_sync_budget (site_kube (?S k)) = kube_sync_budget sample_kube" "site_lib (?S k) = sample_lib"
    "kube_pods (site_kube (?S k)) n c = (Inr (replicate (?W k) (hd sample_pods)), c)" for k n c
    by (simp_all add: sample_sites_def) (simp add: sample_site_def)
  have make: "\<forall>v \<in> set ?vs1. finds_nothing ?S ?n v"
    by (auto simp: finds_nothing_def job_missing_def creates_job_def kube sample_kube_def mutate_job_def Let_def
        get_job_condition_def new_kube_job_def split: option.split)
  have found: "finds_object P ?S ?n (k, t, Some obj)"
    if "\<not> kj_deleting obj" "kj_conditions obj = []" "P k obj" for P k t obj
    using that by (auto simp: finds_object_def job_found_def kube sample_kube_def get_job_condition_def)
  have stable: "\<forall>v \<in> set ?vs2. finds_object (\<lambda>k obj. kj_ready obj = Some (of_nat (?W k))) ?S ?n v \<and> finds_stable ?W ?S ?n v"
    by (simp add: found sample_workers_def new_kube_job_def)
      (simp add: finds_stable_def pods_stable_def kube sample_workers_def sample_pods_def is_pod_stable_ready_def clock_defs list_all_iff)
  have pods: "\<forall>v \<in> set ?vs3. finds_object (\<lambda>_ _. True) ?S ?n v \<and> finds_pods ?W ?S ?n v"
    by (simp add: found new_kube_job_def finds_pods_def kube)
  have active: "\<forall>v \<in> set ?vs4. finds_object (\<lambda>_ obj. kj_active obj \<noteq> 0) ?S ?n v"
    by (simp add: found new_kube_job_def)
  have over: "\<forall>v \<in> set ?vs5. finds_object (\<lambda>k obj. kj_active obj = 0 \<and> sint (kj_succeeded obj) = int (?W k)) ?S ?n v"
    by (simp add: found new_kube_job_def sample_workers_def)
  have fire: "\<forall>(k, t, c) \<in> set ?fs. floor_second (fst (snd (last ?vs2)) + seconds start_delay_seconds) \<le> t"
    "floor_second (fst (snd (last ?vs2)) + seconds start_delay_seconds) = seconds 41"
    by (simp_all add: start_delay_seconds_def clock_defs)
  have end_time: "floor_second (fst (snd (last ?vs5))) = seconds 400" by (simp add: clock_defs)
  have none: "\<forall>k \<in> ?L. (\<lambda>_. Map.empty) k ?n = (None :: igniter option)" by simp
  from operators_drive_run [OF fsm sample_convoy pending _ run none rounds make stable pods fire(1) active over]
  show ?thesis
    unfolding Let_def fire(2) end_time drive_reports_def by fastforce
qed

end
