(* ===== verification/Endpoints.thy ===== *)
theory Endpoints
  imports Cluster
begin

text \<open>
  Where the operator and the web application meet: the registry of endpoints of the operator
  (loadtesting/runtime/scheme.go, the \<open>init\<close> of api/types.go), the paths its calls are sent to
  (client/uncached.go), the routes of the web application (webapp/urls.py), and the options an
  operator starts with (cmd/main.go, internal/options).
\<close>

section \<open>The registry\<close>

record scheme_record =
  type_name :: string
  list_type_name :: string
  endpoint :: string
  list_endpoint :: string

definition register ::
  "string \<Rightarrow> string \<Rightarrow> string \<Rightarrow> (string \<rightharpoonup> scheme_record) \<Rightarrow> (string \<rightharpoonup> scheme_record)" where
  "register obj lst ep m =
     (let r = \<lparr>type_name = obj, list_type_name = lst, endpoint = ep @ ''/%s'', list_endpoint = ep\<rparr>
      in m(obj \<mapsto> r, lst \<mapsto> r))"

definition schema :: "string \<rightharpoonup> scheme_record" where
  "schema =
     register ''api.Job'' ''api.JobList'' ''workers/{locationName}/jobs''
       (register ''api.Ping'' ''api.PingList'' ''workers/{locationName}/ping'' Map.empty)"

definition endpoint_for_obj :: "string \<Rightarrow> go_error + string" where
  "endpoint_for_obj t =
     (case schema t of
        None \<Rightarrow> Inl (GoError (''missing type '' @ t @ '' from scheme''))
      | Some r \<Rightarrow> Inr (endpoint r))"

definition endpoint_for_list :: "string \<Rightarrow> go_error + string" where
  "endpoint_for_list t =
     (case schema t of
        None \<Rightarrow> Inl (GoError (''missing type '' @ t @ '' from scheme''))
      | Some r \<Rightarrow> Inr (list_endpoint r))"

section \<open>Paths\<close>

text \<open>
  The calls of the client: method and path, below the base URL. The HTTP library replaces the
  path parameter by its value; \<open>escape\<close> is its escaping of a path segment.
\<close>

datatype api_call = GetJob string | ListJobs | UpdateJob string | CreatePing

definition path_param :: "(string \<Rightarrow> string) \<Rightarrow> string \<Rightarrow> string \<Rightarrow> string" where
  "path_param escape region ep = py_replace ''{locationName}'' (escape region) ep"

definition object_path :: "(string \<Rightarrow> string) \<Rightarrow> string \<Rightarrow> string \<Rightarrow> go_error + string" where
  "object_path escape region n =
     (case endpoint_for_obj ''api.Job'' of
        Inl x \<Rightarrow> Inl x
      | Inr ep \<Rightarrow> Inr (path_param escape region (if go_split (CHR ''%'') ep \<noteq> [ep] then go_sprintf ep [n] else ep)))"

fun client_path :: "(string \<Rightarrow> string) \<Rightarrow> string \<Rightarrow> api_call \<Rightarrow> go_error + string \<times> string" where
  "client_path escape region (GetJob n) = map_sum id (Pair ''GET'') (object_path escape region n)"
| "client_path escape region (UpdateJob n) = map_sum id (Pair ''PUT'') (object_path escape region n)"
| "client_path escape region ListJobs =
     map_sum id (\<lambda>ep. (''GET'', path_param escape region ep)) (endpoint_for_list ''api.JobList'')"
| "client_path escape region CreatePing =
     map_sum id (\<lambda>ep. (''POST'', path_param escape region ep)) (endpoint_for_list ''api.Ping'')"

section \<open>Routes\<close>

text \<open>
  The routes the router makes of a registered prefix: the prefix itself (list, create), and the
  prefix with a name of the characters \<open>[^/.]\<close> (retrieve, update) or with a name and the action. No route
  ends in a slash. (The router also has routes with a format suffix, after a dot.)
\<close>

datatype api_view =
    PingCreate string
  | JobsList string
  | JobRetrieve string string
  | JobUpdate string string
  | JobPartialUpdate string string
  | JobAccept string string

definition route_name :: "string \<Rightarrow> bool" where
  "route_name n \<longleftrightarrow> n \<noteq> [] \<and> CHR ''/'' \<notin> set n \<and> CHR ''.'' \<notin> set n"

definition resolve :: "string \<Rightarrow> string \<Rightarrow> api_view option" where
  "resolve method path =
     (case go_split (CHR ''/'') path of
        [w, loc, res] \<Rightarrow>
          if w \<noteq> ''workers'' \<or> \<not> route_location loc then None
          else if res = ''jobs'' \<and> method = ''GET'' then Some (JobsList loc)
          else if res = ''ping'' \<and> method = ''POST'' then Some (PingCreate loc)
          else None
      | [w, loc, res, n] \<Rightarrow>
          if w \<noteq> ''workers'' \<or> \<not> route_location loc \<or> res \<noteq> ''jobs'' \<or> \<not> route_name n then None
          else if method = ''GET'' then Some (JobRetrieve loc n)
          else if method = ''PUT'' then Some (JobUpdate loc n)
          else if method = ''PATCH'' then Some (JobPartialUpdate loc n)
          else None
      | [w, loc, res, n, act] \<Rightarrow>
          if w = ''workers'' \<and> route_location loc \<and> res = ''jobs'' \<and> route_name n \<and> act = ''accept'' \<and>
            method = ''POST''
          then Some (JobAccept loc n) else None
      | _ \<Rightarrow> None)"

text \<open>The view a call is meant for.\<close>

fun meant :: "string \<Rightarrow> api_call \<Rightarrow> api_view" where
  "meant region (GetJob n) = JobRetrieve region n"
| "meant region (UpdateJob n) = JobUpdate region n"
| "meant region ListJobs = JobsList region"
| "meant region CreatePing = PingCreate region"

section \<open>Options\<close>

record operator_options =
  opt_region :: string
  opt_api_endpoint :: string
  opt_api_user :: string
  opt_api_password :: string
  opt_job_namespace :: string

text \<open>
  The flags and the files below /run/secrets (empty when they cannot be read), each flag empty
  by default; without a region the program exits.
\<close>

definition default_options :: operator_options where
  "default_options =
     \<lparr>opt_region = '''', opt_api_endpoint = ''http://localhost:8000/api'', opt_api_user = ''admin'',
      opt_api_password = ''admin'', opt_job_namespace = ''''\<rparr>"

definition or_else :: "string \<Rightarrow> string \<Rightarrow> string" where
  "or_else s t = (if s = '''' then t else s)"

definition load_options :: "operator_options \<Rightarrow> (string \<Rightarrow> string) \<Rightarrow> string \<Rightarrow> operator_options option" where
  "load_options flags secret pod_namespace =
     (let region = or_else (opt_region flags) (secret ''REGION'') in
      if region = '''' then None
      else Some
        \<lparr>opt_region = region,
         opt_api_endpoint = or_else (or_else (opt_api_endpoint flags) (secret ''API_ENDPOINT'')) (opt_api_endpoint default_options),
         opt_api_user = or_else (or_else (opt_api_user flags) (secret ''API_USER'')) (opt_api_user default_options),
         opt_api_password = or_else (or_else (opt_api_password flags) (secret ''API_PASSWORD'')) (opt_api_password default_options),
         opt_job_namespace = or_else (or_else (opt_job_namespace flags) (secret ''JOBS_NAMESPACE'')) pod_namespace\<rparr>)"

section \<open>The two sides\<close>

lemma py_replace_untouched: "c \<notin> set s \<Longrightarrow> py_replace (c # w) v s = s"
proof (induction s)
  case (Cons x s)
  then show ?case by (auto simp: py_replace.simps [of "c # w" v "x # s"] py_startswith_def)
qed (simp add: py_replace.simps)

lemma path_param_eq:
  assumes "CHR ''{'' \<notin> set s"
  shows "path_param escape region (''workers/{locationName}/'' @ s) = ''workers/'' @ escape region @ ''/'' @ s"
  using py_replace_untouched [OF assms]
  by (simp add: path_param_def py_replace.simps [of "CHR ''{'' # w" v "x # t" for w v x t] py_startswith_def)

lemma endpoints:
  "endpoint_for_obj ''api.Job'' = Inr (''workers/{locationName}/'' @ ''jobs/%s'')"
  "endpoint_for_list ''api.JobList'' = Inr (''workers/{locationName}/'' @ ''jobs'')"
  "endpoint_for_list ''api.Ping'' = Inr (''workers/{locationName}/'' @ ''ping'')"
  by (simp_all add: endpoint_for_obj_def endpoint_for_list_def schema_def register_def Let_def)

lemma object_path_eq:
  assumes "CHR ''{'' \<notin> set n"
  shows "object_path escape region n = Inr (''workers/'' @ escape region @ ''/jobs/'' @ n)"
proof -
  have "go_sprintf (''workers/{locationName}/'' @ ''jobs/%s'') [n] = ''workers/{locationName}/'' @ ''jobs/'' @ n"
    by simp
  moreover have "go_split (CHR ''%'') (''workers/{locationName}/'' @ ''jobs/%s'') \<noteq> [''workers/{locationName}/'' @ ''jobs/%s'']"
    by simp
  moreover have "path_param escape region (''workers/{locationName}/'' @ ''jobs/'' @ n) =
      ''workers/'' @ escape region @ ''/'' @ ''jobs/'' @ n"
    using assms by (intro path_param_eq) simp
  ultimately show ?thesis unfolding object_path_def endpoints by simp
qed

lemma go_split_path:
  assumes "c \<notin> set x" "c \<notin> set y"
  shows "go_split c (x @ c # y @ c # z) = x # y # go_split c z"
  using assms by (simp add: go_split_append)

text \<open>
  C20. The operator and the web application agree on their addresses: every call of the client is
  registered, and its path, for a location the routes accept and a run name that is one segment of a path,
  is routed to the view the call is meant for, with the same location and name; for a location name the
  routes do not accept (with an upper-case letter, say) no call of the operator reaches a view.
\<close>

theorem endpoints_meet:
  assumes "escape region = region" and "CHR ''/'' \<notin> set region"
    and "call \<in> {GetJob n, UpdateJob n, ListJobs, CreatePing}" and "route_name n" and "CHR ''{'' \<notin> set n"
  shows "\<exists>method path. client_path escape region call = Inr (method, path) \<and>
    resolve method path = (if route_location region then Some (meant region call) else None)"
proof -
  have n: "CHR ''/'' \<notin> set n" using assms(4) by (simp add: route_name_def)
  have w: "CHR ''/'' \<notin> set ''workers''" "CHR ''/'' \<notin> set ''jobs''" "CHR ''/'' \<notin> set ''ping''" by simp_all
  have job: "go_split (CHR ''/'') (''workers/'' @ region @ ''/jobs/'' @ n) = [''workers'', region, ''jobs'', n]"
    using go_split_path [OF w(1) assms(2), of "''jobs'' @ CHR ''/'' # n"] go_split_append [OF w(2), of n]
      go_split_word [OF n] by simp
  have list: "go_split (CHR ''/'') (''workers/'' @ region @ ''/jobs'') = [''workers'', region, ''jobs'']"
    using go_split_path [OF w(1) assms(2), of "''jobs''"] go_split_word [OF w(2)] by simp
  have ping: "go_split (CHR ''/'') (''workers/'' @ region @ ''/ping'') = [''workers'', region, ''ping'']"
    using go_split_path [OF w(1) assms(2), of "''ping''"] go_split_word [OF w(3)] by simp
  have paths: "path_param escape region (''workers/{locationName}/'' @ ''jobs'') = ''workers/'' @ region @ ''/jobs''"
    "path_param escape region (''workers/{locationName}/'' @ ''ping'') = ''workers/'' @ region @ ''/ping''"
    by (subst path_param_eq; simp add: assms(1))+
  have views: "resolve ''GET'' (''workers/'' @ region @ ''/jobs/'' @ n) = (if route_location region then Some (JobRetrieve region n) else None)"
    "resolve ''PUT'' (''workers/'' @ region @ ''/jobs/'' @ n) = (if route_location region then Some (JobUpdate region n) else None)"
    "resolve ''GET'' (''workers/'' @ region @ ''/jobs'') = (if route_location region then Some (JobsList region) else None)"
    "resolve ''POST'' (''workers/'' @ region @ ''/ping'') = (if route_location region then Some (PingCreate region) else None)"
    unfolding resolve_def job list ping by (simp_all add: assms(4))
  have "client_path escape region (GetJob n) = Inr (''GET'', ''workers/'' @ region @ ''/jobs/'' @ n)"
    "client_path escape region (UpdateJob n) = Inr (''PUT'', ''workers/'' @ region @ ''/jobs/'' @ n)"
    "client_path escape region ListJobs = Inr (''GET'', ''workers/'' @ region @ ''/jobs'')"
    "client_path escape region CreatePing = Inr (''POST'', ''workers/'' @ region @ ''/ping'')"
    unfolding client_path.simps object_path_eq [OF assms(5)] endpoints map_sum.simps paths assms(1) by (rule refl)+
  with assms(3) views show ?thesis by fastforce
qed

theorem endpoints_meet_witness:
  "(\<exists>p. client_path id ''eu'' (UpdateJob ''shop-a1'') = Inr (''PUT'', p) \<and> resolve ''PUT'' p = Some (JobUpdate ''eu'' ''shop-a1'')) \<and>
   (\<exists>p. client_path id ''EU'' (UpdateJob ''shop-a1'') = Inr (''PUT'', p) \<and> resolve ''PUT'' p = None)"
proof -
  have n: "route_name ''shop-a1''" "CHR ''{'' \<notin> set ''shop-a1''" by (simp_all add: route_name_def)
  have eu: "route_location ''eu''" and EU: "\<not> route_location ''EU''" by (simp_all add: route_location_def route_char_def)
  have path: "client_path id r (UpdateJob ''shop-a1'') = Inr (''PUT'', ''workers/'' @ r @ ''/jobs/shop-a1'')" for r
    using object_path_eq [OF n(2), of id r] by simp
  obtain m p where 1: "client_path id ''eu'' (UpdateJob ''shop-a1'') = Inr (m, p)" "resolve m p = Some (JobUpdate ''eu'' ''shop-a1'')"
    using endpoints_meet [of id "''eu''" "UpdateJob ''shop-a1''", OF _ _ _ n] eu by auto
  obtain m' p' where 2: "client_path id ''EU'' (UpdateJob ''shop-a1'') = Inr (m', p')" "resolve m' p' = None"
    using endpoints_meet [of id "''EU''" "UpdateJob ''shop-a1''", OF _ _ _ n] EU by auto
  show ?thesis
    using 1 2 unfolding path sum.inject Pair_inject prod.inject by blast
qed

text \<open>
  What an operator starts with: it exits without a region, and every other option has a value, the
  flag before the file before the default.
\<close>

lemma or_else_simps [simp]: "or_else s t = '''' \<longleftrightarrow> s = '''' \<and> t = ''''" "s \<noteq> '''' \<Longrightarrow> or_else s t = s"
  by (simp_all add: or_else_def)

lemma load_options_required:
  "load_options flags secret ns = None \<longleftrightarrow> opt_region flags = '''' \<and> secret ''REGION'' = ''''"
  by (simp add: load_options_def Let_def)

lemma load_options_some:
  assumes "load_options flags secret ns = Some opts"
  shows "opt_region opts \<noteq> ''''" "opt_api_endpoint opts \<noteq> ''''" "opt_api_user opts \<noteq> ''''"
    "opt_api_password opts \<noteq> ''''" "opt_region flags \<noteq> '''' \<Longrightarrow> opt_region opts = opt_region flags"
proof -
  define region where "region = or_else (opt_region flags) (secret ''REGION'')"
  define opts' where "opts' =
    \<lparr>opt_region = region,
     opt_api_endpoint = or_else (or_else (opt_api_endpoint flags) (secret ''API_ENDPOINT'')) (opt_api_endpoint default_options),
     opt_api_user = or_else (or_else (opt_api_user flags) (secret ''API_USER'')) (opt_api_user default_options),
     opt_api_password = or_else (or_else (opt_api_password flags) (secret ''API_PASSWORD'')) (opt_api_password default_options),
     opt_job_namespace = or_else (or_else (opt_job_namespace flags) (secret ''JOBS_NAMESPACE'')) ns\<rparr>"
  have "load_options flags secret ns = (if region = '''' then None else Some opts')"
    by (simp only: load_options_def Let_def region_def opts'_def)
  with assms have "region \<noteq> ''''" and opts: "opts = opts'" by (metis option.distinct(1), metis option.distinct(1) option.inject)
  then show "opt_region opts \<noteq> ''''" "opt_api_endpoint opts \<noteq> ''''" "opt_api_user opts \<noteq> ''''"
    "opt_api_password opts \<noteq> ''''" "opt_region flags \<noteq> '''' \<Longrightarrow> opt_region opts = opt_region flags"
    unfolding opts by (simp_all add: opts'_def default_options_def region_def)
qed

end
