(* ===== verification/Schedules.thy ===== *)
theory Schedules
  imports Prelude
begin

text \<open>
  Processes that share a state and take their steps in any order: a schedule is the list of the
  processes in the order of their steps. Two interfaces say what a step has to promise so that
  something holds after every schedule: an invariant with what the processes hold, which the steps of
  the others must leave true (rely and guarantee), and a measure of the work that is left.
\<close>

section \<open>Schedules\<close>

definition step_at :: "(nat \<Rightarrow> 'p \<Rightarrow> 'd \<Rightarrow> 'p \<times> 'd) \<Rightarrow> nat \<Rightarrow> 'p list \<times> 'd \<Rightarrow> 'p list \<times> 'd" where
  "step_at f i st =
     (let (ps, db) = st
      in if i < length ps then let (p, s) = f i (ps ! i) db in (ps[i := p], s) else st)"

fun run_schedule :: "(nat \<Rightarrow> 'p \<Rightarrow> 'd \<Rightarrow> 'p \<times> 'd) \<Rightarrow> nat list \<Rightarrow> 'p list \<times> 'd \<Rightarrow> 'p list \<times> 'd" where
  "run_schedule f [] st = st"
| "run_schedule f (i # is) st = run_schedule f is (step_at f i st)"

lemma step_at_length [simp]: "length (fst (step_at f i st)) = length (fst st)"
  by (auto simp: step_at_def split: prod.split)

lemma run_schedule_length [simp]: "length (fst (run_schedule f sch st)) = length (fst st)"
  by (induction sch arbitrary: st) simp_all

lemma run_schedule_append: "run_schedule f (sch @ sch') st = run_schedule f sch' (run_schedule f sch st)"
  by (induction sch arbitrary: st) simp_all

section \<open>Rely and guarantee\<close>

text \<open>
  \<open>inv\<close> holds of the shared state, \<open>held\<close> of what a process keeps of it, and \<open>kept\<close> is what every
  step leaves as it is: enough for the other processes.
\<close>

locale sharing =
  fixes step :: "nat \<Rightarrow> 'p \<Rightarrow> 'd \<Rightarrow> 'p \<times> 'd" and sound :: "nat \<Rightarrow> bool" and inv :: "'d \<Rightarrow> bool"
    and held :: "'d \<Rightarrow> 'p \<Rightarrow> bool" and kept :: "'d \<Rightarrow> 'd \<Rightarrow> bool"
  assumes kept_refl: "kept s s"
    and kept_trans: "kept s t \<Longrightarrow> kept t u \<Longrightarrow> kept s u"
    and held_kept: "kept s t \<Longrightarrow> held s p \<Longrightarrow> held t p"
    and step_keeps: "sound i \<Longrightarrow> inv s \<Longrightarrow> held s p \<Longrightarrow> step i p s = (p', t) \<Longrightarrow> inv t \<and> kept s t \<and> held t p'"
begin

definition consistent :: "'p list \<times> 'd \<Rightarrow> bool" where
  "consistent st \<longleftrightarrow> inv (snd st) \<and> list_all (held (snd st)) (fst st)"

lemma step_at_consistent:
  assumes "consistent st" and "\<And>i. i < length (fst st) \<Longrightarrow> sound i"
  shows "consistent (step_at step i st) \<and> kept (snd st) (snd (step_at step i st))"
proof -
  obtain ps s where st: "st = (ps, s)" by (cases st)
  show ?thesis
  proof (cases "i < length ps")
    case True
    obtain p t where p: "step i (ps ! i) s = (p, t)" by (cases "step i (ps ! i) s")
    have "inv s" "held s (ps ! i)" using assms(1) True st by (simp_all add: consistent_def list_all_length)
    from step_keeps [OF _ this p] have t: "inv t" "kept s t" "held t p" using assms(2) True st by simp_all
    have "held t (ps ! j)" if "j < length ps" for j
      using assms(1) st that held_kept [OF t(2)] by (simp add: consistent_def list_all_length)
    then have "list_all (held t) (ps[i := p])" using t(3) True by (simp add: list_all_length nth_list_update)
    with t True p st show ?thesis by (simp add: step_at_def consistent_def)
  next
    case False
    with assms(1) st kept_refl show ?thesis by (simp add: step_at_def)
  qed
qed

lemma schedule_consistent:
  assumes "consistent st" and "\<And>i. i < length (fst st) \<Longrightarrow> sound i"
  shows "consistent (run_schedule step sch st) \<and> kept (snd st) (snd (run_schedule step sch st))"
  using assms
proof (induction sch arbitrary: st)
  case (Cons i sch)
  from step_at_consistent [OF Cons.prems, of i] Cons.IH [of "step_at step i st"] Cons.prems(2) kept_trans
  show ?case by auto
qed (simp add: kept_refl)

end

section \<open>Work that is left\<close>

text \<open>A process that has begun gets done with its own steps, whatever the others do.\<close>

locale working =
  fixes step :: "nat \<Rightarrow> 'p \<Rightarrow> 'd \<Rightarrow> 'p \<times> 'd" and begun :: "'p \<Rightarrow> bool" and work :: "'p \<Rightarrow> nat"
  assumes step_work: "begun p \<Longrightarrow> step i p s = (p', t) \<Longrightarrow> begun p' \<and> work p' \<le> work p - 1"
begin

lemma step_at_work:
  assumes "i < length (fst st)" and "begun (fst st ! i)"
  shows "begun (fst (step_at step j st) ! i) \<and>
    work (fst (step_at step j st) ! i) \<le> work (fst st ! i) - (if i = j then 1 else 0)"
proof -
  obtain ps s where st: "st = (ps, s)" by (cases st)
  obtain p t where "step j (ps ! j) s = (p, t)" by (cases "step j (ps ! j) s")
  with assms st step_work show ?thesis by (auto simp: step_at_def nth_list_update)
qed

lemma schedule_work:
  assumes "i < length (fst st)" and "begun (fst st ! i)"
  shows "begun (fst (run_schedule step sch st) ! i) \<and>
    work (fst (run_schedule step sch st) ! i) \<le> work (fst st ! i) - count_list sch i"
  using assms
proof (induction sch arbitrary: st)
  case (Cons j sch)
  from step_at_work [OF Cons.prems, of j] Cons.IH [of "step_at step j st"] Cons.prems(1)
  show ?case by (auto split: if_splits)
qed simp

end

end
