(* ===== verification/Interleaving.thy ===== *)
theory Interleaving
  imports Lifecycle Schedules
begin

text \<open>
  Concurrent ready reports. A request is not one transaction: it loads its row and the run,
  saves the row, lets the receiver count the locations that are not ready (against the copy of the run it
  has loaded), and writes the start of the run. Here these four accesses of the database are
  single steps and any number of requests interleave. No interleaving loses the start; but the
  start can be written twice.
\<close>

section \<open>Requests in steps\<close>

text \<open>
  Where a request is, with the objects it holds: the row and the run it has loaded, the run
  being the cached one of \<open>select_related\<close>.
\<close>

datatype pc =
    Loading
  | Saving test_run_location test_run
  | Checking test_run_location test_run
  | Starting test_run
  | Finished

definition turn :: "env \<Rightarrow> job_request \<Rightarrow> pc \<Rightarrow> database \<Rightarrow> pc \<times> database" where
  "turn e q p db = (case p of
     Loading \<Rightarrow>
       (case jobs_get_object q db of
          (Inl _, _) \<Rightarrow> (Finished, db)
        | (Inr l, _) \<Rightarrow>
            (case find_run (test_run l) db of
               None \<Rightarrow> (Finished, db)
             | Some r \<Rightarrow>
                 (case validate_status e l READY of
                    Inl _ \<Rightarrow> (Finished, db)
                  | Inr _ \<Rightarrow> (Saving (l\<lparr>status := READY\<rparr>) r, db))))
   | Saving l r \<Rightarrow>
       (case save_run_location_row e l db of
          (Inl _, _) \<Rightarrow> (Finished, db)
        | (Inr l', db') \<Rightarrow> (Checking l' r, db'))
   | Checking l r \<Rightarrow>
       (if status l = READY \<and> started_at r = None \<and> count_excluding [READY] (name r) db = 0
        then (Starting r, db) else (Finished, db))
   | Starting r \<Rightarrow>
       (Finished, snd (save_test_run e
          (r\<lparr>started_at := Some (floor_second (now e + seconds start_delay_seconds))\<rparr>) db))
   | Finished \<Rightarrow> (Finished, db))"

text \<open>
  A server with one request per location, each with its own clock reading; a schedule is the
  list of the requests in the order they take their steps.
\<close>

definition turn_of :: "env list \<Rightarrow> string \<Rightarrow> string list \<Rightarrow> nat \<Rightarrow> pc \<Rightarrow> database \<Rightarrow> pc \<times> database" where
  "turn_of es n locs i = turn (es ! i) (report n (locs ! i))"

abbreviation sched_step ::
  "env list \<Rightarrow> string \<Rightarrow> string list \<Rightarrow> nat \<Rightarrow> pc list \<times> database \<Rightarrow> pc list \<times> database" where
  "sched_step es n locs \<equiv> step_at (turn_of es n locs)"

abbreviation exec ::
  "env list \<Rightarrow> string \<Rightarrow> string list \<Rightarrow> nat list \<Rightarrow> pc list \<times> database \<Rightarrow> pc list \<times> database" where
  "exec es n locs \<equiv> run_schedule (turn_of es n locs)"

definition loading :: "string list \<Rightarrow> database \<Rightarrow> pc list \<times> database" where
  "loading locs db = (replicate (length locs) Loading, db)"

section \<open>The invariant of the server\<close>

definition saved :: "pc \<Rightarrow> bool" where
  "saved p \<longleftrightarrow> (case p of Loading \<Rightarrow> False | Saving _ _ \<Rightarrow> False | _ \<Rightarrow> True)"

lemma saved_simps [simp]:
  "\<not> saved Loading" "\<not> saved (Saving l r)" "saved (Checking l r)" "saved (Starting r)" "saved Finished"
  by (simp_all add: saved_def)

text \<open>The run as it is stored or was loaded, compared with the initial one.\<close>

definition same_run :: "test_run \<Rightarrow> test_run \<Rightarrow> bool" where
  "same_run r0 r \<longleftrightarrow> pk r = pk r0 \<and> name r = name r0 \<and> test_output r = test_output r0 \<and> draft r = draft r0"

text \<open>The locations whose request has saved its row.\<close>

definition saved_locs :: "string list \<Rightarrow> pc list \<Rightarrow> string set" where
  "saved_locs locs pcs = {locs ! i | i. i < length pcs \<and> saved (pcs ! i)}"

text \<open>The objects a request holds, given whether the stored run has a start.\<close>

fun holds :: "test_run_location list \<Rightarrow> test_run \<Rightarrow> bool \<Rightarrow> string \<Rightarrow> pc \<Rightarrow> bool" where
  "holds rows0 r0 has_start loc (Saving l r) \<longleftrightarrow>
     (\<exists>x \<in> set rows0. test_run x = name r0 \<and> location x = loc \<and> l = x\<lparr>status := READY\<rparr>) \<and>
     same_run r0 r \<and> (started_at r \<noteq> None \<longrightarrow> has_start)"
| "holds rows0 r0 has_start loc (Checking l r) \<longleftrightarrow>
     status l = READY \<and> same_run r0 r \<and> (started_at r \<noteq> None \<longrightarrow> has_start)"
| "holds rows0 r0 has_start loc (Starting r) \<longleftrightarrow> same_run r0 r"
| "holds rows0 r0 has_start loc Loading \<longleftrightarrow> True"
| "holds rows0 r0 has_start loc Finished \<longleftrightarrow> True"

definition at_work :: "pc \<Rightarrow> bool" where
  "at_work p \<longleftrightarrow> (case p of Checking _ _ \<Rightarrow> True | Starting _ \<Rightarrow> True | _ \<Rightarrow> False)"

lemma at_work_simps [simp]:
  "\<not> at_work Loading" "\<not> at_work (Saving l r)" "at_work (Checking l r)" "at_work (Starting r)" "\<not> at_work Finished"
  by (simp_all add: at_work_def)

definition has_started :: "string \<Rightarrow> database \<Rightarrow> bool" where
  "has_started n db \<longleftrightarrow> (\<exists>r. find_run n db = Some r \<and> started_at r \<noteq> None)"

text \<open>The starts the requests may write: one per clock reading.\<close>

definition start_time :: "env \<Rightarrow> datetime" where
  "start_time e = floor_second (now e + seconds start_delay_seconds)"

definition start_from :: "env list \<Rightarrow> string \<Rightarrow> database \<Rightarrow> bool" where
  "start_from es n db \<longleftrightarrow>
     (\<forall>r t. find_run n db = Some r \<and> started_at r = Some t \<longrightarrow> t \<in> start_time ` set es)"

definition server_inv ::
  "env list \<Rightarrow> string \<Rightarrow> test_run_location list \<Rightarrow> test_run \<Rightarrow> string list \<Rightarrow> pc list \<times> database \<Rightarrow> bool" where
  "server_inv es n rows0 r0 locs st \<longleftrightarrow>
     (let (pcs, db) = st in
        length pcs = length locs \<and> wf_db db \<and> (\<exists>r. find_run n db = Some r \<and> same_run r0 r) \<and> start_from es n db \<and>
        tbl_run_location db = map (set_status n (saved_locs locs pcs) READY) rows0 \<and>
        (\<forall>i < length locs. holds rows0 r0 (has_started n db) (locs ! i) (pcs ! i)) \<and>
        ((\<forall>i < length locs. saved (pcs ! i)) \<longrightarrow> (\<exists>i < length locs. at_work (pcs ! i)) \<or> has_started n db))"

lemma saved_locs_same: "saved p = saved (pcs ! i) \<Longrightarrow> saved_locs locs (pcs[i := p]) = saved_locs locs pcs"
proof -
  assume "saved p = saved (pcs ! i)"
  then have "saved (pcs[i := p] ! j) = saved (pcs ! j)" if "j < length pcs" for j
    using that by (cases "i = j") simp_all
  then show ?thesis by (auto simp: saved_locs_def)
qed

lemma saved_locs_new:
  "i < length pcs \<Longrightarrow> saved p \<Longrightarrow> saved_locs locs (pcs[i := p]) = insert (locs ! i) (saved_locs locs pcs)"
  by (auto simp: saved_locs_def nth_list_update)

lemma not_saved_loc:
  assumes "distinct locs" and "length pcs = length locs" and "i < length pcs" and "\<not> saved (pcs ! i)"
  shows "locs ! i \<notin> saved_locs locs pcs"
  using assms by (auto simp: saved_locs_def nth_eq_iff_index_eq)

lemma all_saved_locs:
  "length pcs = length locs \<Longrightarrow> \<forall>i < length locs. saved (pcs ! i) \<Longrightarrow> saved_locs locs pcs = set locs"
  by (fastforce simp: saved_locs_def in_set_conv_nth)

lemma holds_mono: "holds rows0 r0 b loc p \<Longrightarrow> (b \<Longrightarrow> b') \<Longrightarrow> holds rows0 r0 b' loc p"
  by (cases p) auto

lemma same_run_trans: "same_run a b \<Longrightarrow> same_run a c \<Longrightarrow> pk b = pk c \<and> name b = name c \<and> test_output b = test_output c"
  by (simp add: same_run_def)

text \<open>What a step has to establish: the changed request and the changed database.\<close>

lemma server_invI:
  assumes inv: "server_inv es n rows0 r0 locs (pcs, db)" and i: "i < length locs"
    and "wf_db db'" and "\<exists>r. find_run n db' = Some r \<and> same_run r0 r" and "start_from es n db'"
    and "tbl_run_location db' = map (set_status n (saved_locs locs (pcs[i := p])) READY) rows0"
    and "has_started n db \<Longrightarrow> has_started n db'"
    and "holds rows0 r0 (has_started n db') (locs ! i) p"
    and "(\<forall>j < length locs. saved (pcs[i := p] ! j)) \<Longrightarrow>
      (\<exists>j < length locs. at_work (pcs[i := p] ! j)) \<or> has_started n db'"
  shows "server_inv es n rows0 r0 locs (pcs[i := p], db')"
proof -
  have "holds rows0 r0 (has_started n db') (locs ! j) (pcs[i := p] ! j)" if "j < length locs" for j
    using that inv i assms(7,8) holds_mono by (cases "i = j") (auto simp: server_inv_def)
  with assms show ?thesis by (auto simp: server_inv_def)
qed

lemma server_step:
  assumes inv: "server_inv es n rows0 r0 locs st"
    and fsm: "\<forall>e \<in> set es. fsm_lists e" "length es = length locs"
    and locs: "distinct locs" "set locs = location ` set (filter (\<lambda>x. test_run x = n) rows0)"
    and queued: "\<forall>x \<in> set rows0. test_run x = n \<longrightarrow> status x = QUEUED"
    and r0: "name r0 = n" "\<not> draft r0"
  shows "server_inv es n rows0 r0 locs (sched_step es n locs i st)"
proof -
  obtain pcs db where st: "st = (pcs, db)" by (cases st)
  note inv' = inv [unfolded st]
  from inv' have len: "length pcs = length locs" and wf: "wf_db db"
    and rows: "tbl_run_location db = map (set_status n (saved_locs locs pcs) READY) rows0"
    and held: "\<And>i. i < length locs \<Longrightarrow> holds rows0 r0 (has_started n db) (locs ! i) (pcs ! i)"
    and work: "(\<forall>i < length locs. saved (pcs ! i)) \<Longrightarrow> (\<exists>i < length locs. at_work (pcs ! i)) \<or> has_started n db"
    by (simp_all add: server_inv_def)
  from inv' obtain r where run: "find_run n db = Some r" "same_run r0 r" and from0: "start_from es n db"
    by (auto simp: server_inv_def)
  have pks: "map pk (tbl_run_location db) = map pk rows0" "map placed (tbl_run_location db) = map placed rows0"
    by (simp_all add: rows)
  have ident: "pk x = pk y \<longleftrightarrow> x = y" "test_run x = test_run y \<and> location x = location y \<longleftrightarrow> x = y"
    if "x \<in> set rows0" "y \<in> set rows0" for x y
  proof -
    have "distinct (map pk rows0)" "distinct (map placed rows0)"
      using wf by (simp_all add: wf_db_def keyed_rows_def flip: pks)
    then have "inj_on pk (set rows0)" "inj_on placed (set rows0)" by (simp_all add: distinct_map)
    then show "pk x = pk y \<longleftrightarrow> x = y" "test_run x = test_run y \<and> location x = location y \<longleftrightarrow> x = y"
      using that unfolding inj_on_def placed_def by blast+
  qed
  show ?thesis
  proof (cases "i < length locs")
    case False
    with inv len show ?thesis by (simp add: step_at_def turn_of_def st)
  next
    case i: True
    let ?e = "es ! i" and ?loc = "locs ! i"
    have e: "fsm_lists ?e" using fsm i by simp
    obtain p db' where turn: "turn ?e (report n ?loc) (pcs ! i) db = (p, db')" by force
    then have step: "sched_step es n locs i st = (pcs[i := p], db')"
      using i len by (simp add: step_at_def turn_of_def st)
    obtain x where x: "x \<in> set rows0" "test_run x = n" "location x = ?loc"
    proof -
      have "?loc \<in> set locs" using i by simp
      then show ?thesis unfolding locs(2) using that by auto
    qed
    have x_db: "x \<in> set (tbl_run_location db)" if "\<not> saved (pcs ! i)"
    proof -
      have "set_status n (saved_locs locs pcs) READY x = x"
        using not_saved_loc [OF locs(1) len _ that] i len x(3) by (simp add: set_status_def)
      then show ?thesis using x(1) unfolding rows by force
    qed
    show ?thesis
    proof (cases "pcs ! i")
      case Loading
      have obj: "jobs_get_object (report n ?loc) db = (Inr x, db)"
        using find_visible [OF wf x_db x(2) run(1)] Loading run(2) r0(2) x(3) by (simp add: same_run_def)
      have "validate_status ?e x READY = Inr READY"
        using queued x by (simp add: validate_status_iff [OF e])
      then have eq: "p = Saving (x\<lparr>status := READY\<rparr>) r" "db' = db"
        using turn Loading obj run(1) x(2) by (simp_all add: turn_def)
      have "saved_locs locs (pcs[i := p]) = saved_locs locs pcs" using Loading eq(1) by (intro saved_locs_same) simp
      moreover have "started_at r \<noteq> None \<Longrightarrow> has_started n db" using run(1) by (auto simp: has_started_def)
      ultimately show ?thesis
        unfolding step eq(2) using wf run from0 rows x r0(1) i eq(1) len
        by (intro server_invI [OF inv' i]) (auto simp: eq(1))
    next
      case (Saving l r')
      with held [OF i] have h: "same_run r0 r'" "started_at r' \<noteq> None \<Longrightarrow> has_started n db"
        and l: "l = x\<lparr>status := READY\<rparr>"
        using ident(2) [OF _ x(1)] x r0(1) by auto
      have stored: "stored_at db l"
        using x_db Saving l by (auto simp: stored_at_def placed_def)
      then have "save_run_location_row ?e l db = (Inr l, put_run_location l db)" by (rule save_stored_row [OF wf])
      then have eq: "p = Checking l r'" "db' = put_run_location l db" and wf': "wf_db db'"
        using turn Saving wf_save_run_location_row [OF wf] by (auto simp: turn_def)
      have S: "saved_locs locs (pcs[i := p]) = insert ?loc (saved_locs locs pcs)"
        using i len eq(1) by (intro saved_locs_new) simp_all
      have "tbl_run_location db' = map (\<lambda>y. if pk y = pk l then l else y) (tbl_run_location db)"
        unfolding eq(2) put_stored_location [OF wf stored] by (simp add: update_run_locations_def)
      also have "\<dots> = map (set_status n (insert ?loc (saved_locs locs pcs)) READY) rows0"
        unfolding rows map_map
      proof (rule map_cong [OF refl], unfold o_apply)
        fix y
        assume y: "y \<in> set rows0"
        show "(if pk (set_status n (saved_locs locs pcs) READY y) = pk l then l
            else set_status n (saved_locs locs pcs) READY y) =
          set_status n (insert ?loc (saved_locs locs pcs)) READY y"
          using ident [OF y x(1)] x l by (auto simp: set_status_def)
      qed
      finally have rows': "tbl_run_location db' = map (set_status n (saved_locs locs (pcs[i := p])) READY) rows0"
        unfolding S .
      have same: "find_run n db' = find_run n db" "has_started n db' = has_started n db"
        "start_from es n db' = start_from es n db"
        by (simp_all add: eq(2) find_run_def has_started_def start_from_def)
      show ?thesis
        unfolding step using wf' run from0 rows' h l i len
        by (intro server_invI [OF inv' i]) (auto simp: same eq(1))
    next
      case (Checking l r')
      with held [OF i] have h: "status l = READY" "same_run r0 r'" "started_at r' \<noteq> None \<Longrightarrow> has_started n db"
        by simp_all
      then have nr: "name r' = n" using r0(1) by (simp add: same_run_def)
      from turn Checking h(1) nr have eq: "db' = db"
        "p = (if started_at r' = None \<and> count_excluding [READY] n db = 0 then Starting r' else Finished)"
        by (auto simp: turn_def split: if_splits)
      have S: "saved_locs locs (pcs[i := p]) = saved_locs locs pcs" using Checking eq(2) by (intro saved_locs_same) simp
      have "at_work p \<or> has_started n db" if "\<forall>j < length locs. saved (pcs[i := p] ! j)"
      proof -
        have "saved (pcs ! j)" if "j < length locs" for j
          using \<open>\<forall>j < length locs. saved (pcs[i := p] ! j)\<close> that Checking by (cases "i = j") auto
        then have "saved_locs locs pcs = set locs" using all_saved_locs [OF len] by blast
        then have "count_excluding [READY] n db = 0"
          unfolding count_all_in using locs(2) by (intro all_in_set_status [OF rows]) simp
        with h(3) eq(2) show ?thesis by auto
      qed
      then show ?thesis
        unfolding step eq(1) using wf run from0 rows h S i len
        by (intro server_invI [OF inv' i]) (auto simp: eq(2))
    next
      case (Starting r')
      with held [OF i] have h: "same_run r0 r'" by simp
      let ?r = "r'\<lparr>started_at := Some (floor_second (now ?e + seconds start_delay_seconds))\<rparr>"
      have r_db: "r \<in> set (tbl_test_run db)" using find_run_row [OF run(1)] by simp
      then have stored: "run_stored_at db ?r"
        using same_run_trans [OF run(2) h] wf_run_output [OF wf r_db] by (auto simp: run_stored_at_def)
      let ?s = "?r\<lparr>updated_at := now ?e\<rparr>"
      have eq: "p = Finished" "db' = put_run ?s db" and wf': "wf_db db'"
        using turn Starting save_run_stored_at [OF wf stored, of ?e] by (auto simp: turn_def)
      have "?s \<in> set (tbl_test_run db')" by (simp add: eq(2) put_run_def set_upsert)
      then have found: "find_run n db' = Some ?s"
        using find_run_name [OF wf', of ?s] h r0(1) by (simp add: same_run_def)
      have "has_started n db'" by (simp add: has_started_def found)
      moreover have "start_from es n db'"
        using i fsm(2) by (auto simp: start_from_def found start_time_def)
      moreover have "tbl_run_location db' = tbl_run_location db" by (simp add: eq(2) put_run_def)
      moreover have "saved_locs locs (pcs[i := p]) = saved_locs locs pcs" using Starting eq(1) by (intro saved_locs_same) simp
      moreover have "same_run r0 ?s" using h by (simp add: same_run_def)
      ultimately show ?thesis
        unfolding step using wf' found rows
        by (intro server_invI [OF inv' i]) (auto simp: eq(1))
    next
      case Finished
      then have "p = pcs ! i" "db' = db" using turn by (simp_all add: turn_def)
      then show ?thesis using inv' by (simp add: step)
    qed
  qed
qed

lemma exec_inv:
  assumes "\<forall>e \<in> set es. fsm_lists e" "length es = length locs" "distinct locs"
    "set locs = location ` set (filter (\<lambda>x. test_run x = n) rows0)"
    "\<forall>x \<in> set rows0. test_run x = n \<longrightarrow> status x = QUEUED" "name r0 = n" "\<not> draft r0"
  shows "server_inv es n rows0 r0 locs st \<Longrightarrow> server_inv es n rows0 r0 locs (exec es n locs sch st)"
proof (induction sch arbitrary: st)
  case (Cons i sch)
  from server_step [OF Cons.prems assms] show ?case by (simp add: Cons.IH)
qed simp

lemma loading_inv:
  assumes "wf_db db" and run: "find_run n db = Some r" "started_at r = None" and "locs \<noteq> []"
  shows "server_inv es n (tbl_run_location db) r locs (loading locs db)"
proof -
  have "saved_locs locs (replicate (length locs) Loading) = {}" by (auto simp: saved_locs_def)
  moreover have "map (set_status n {} READY) (tbl_run_location db) = tbl_run_location db"
    by (rule map_idI) (simp add: set_status_def)
  ultimately show ?thesis
    using assms by (auto simp: server_inv_def loading_def same_run_def start_from_def)
qed

section \<open>Every request finishes\<close>

fun left_turns :: "pc \<Rightarrow> nat" where
  "left_turns Loading = 4"
| "left_turns (Saving l r) = 3"
| "left_turns (Checking l r) = 2"
| "left_turns (Starting r) = 1"
| "left_turns Finished = 0"

interpretation turns: working "turn_of es n locs" "\<lambda>_. True" left_turns for es n locs
proof
  show "True \<and> left_turns p' \<le> left_turns p - 1" if "turn_of es n locs i p db = (p', s)" for i p db p' s
    using that by (cases p) (auto simp: turn_of_def turn_def split: prod.splits sum.splits option.splits if_splits)
qed

lemma left_turns_0: "left_turns p = 0 \<longleftrightarrow> p = Finished"
  by (cases p) simp_all

lemma exec_finished:
  assumes "\<forall>i < length locs. 4 \<le> count_list sch i" and "p \<in> set (fst (exec es n locs sch (loading locs db)))"
  shows "p = Finished"
proof -
  from assms(2) obtain i where i: "i < length locs" "p = fst (exec es n locs sch (loading locs db)) ! i"
    by (auto simp: in_set_conv_nth loading_def)
  have "left_turns p \<le> 4 - count_list sch i"
    using turns.schedule_work [of i "loading locs db" es n locs sch] i by (simp add: loading_def)
  with assms(1) i(1) show ?thesis by (simp flip: left_turns_0)
qed

section \<open>Properties of concurrent reports\<close>

text \<open>
  C18. No interleaving loses the start: when every location of a started run reports ready at the
  same time, one request each, then after any schedule that gives each request its four steps,
  in whatever order, all requests have finished, every location is ready, the database is
  well formed and the run has a start, 30 seconds after the clock reading of one of the
  requests, in whole seconds.
\<close>

theorem concurrent_ready_starts:
  assumes "wf_db db" and "find_run n db = Some r" and "\<not> draft r" and "started_at r = None"
    and "\<forall>l \<in> set (locations_of n db). status l = QUEUED"
    and "locs \<noteq> []" and "distinct locs" and "set locs = location ` set (locations_of n db)"
    and "length es = length locs" and "\<forall>e \<in> set es. fsm_lists e"
    and "\<forall>i < length locs. 4 \<le> count_list sch i"
    and "exec es n locs sch (loading locs db) = (pcs, db')"
  shows "wf_db db' \<and> (\<forall>p \<in> set pcs. p = Finished) \<and> (\<forall>l \<in> set (locations_of n db'). status l = READY) \<and>
    (\<exists>r' t. find_run n db' = Some r' \<and> started_at r' = Some t \<and>
       t \<in> (\<lambda>e. floor_second (now e + seconds 30)) ` set es)"
proof -
  have nm: "name r = n" using find_run_row [OF assms(2)] by simp
  have rows0: "set locs = location ` set (filter (\<lambda>x. test_run x = n) (tbl_run_location db))"
    "\<forall>x \<in> set (tbl_run_location db). test_run x = n \<longrightarrow> status x = QUEUED"
    using assms(5,8) by (simp_all add: locations_of_def)
  have inv: "server_inv es n (tbl_run_location db) r locs (pcs, db')"
    using exec_inv [OF assms(10,9,7) rows0 nm assms(3) loading_inv [OF assms(1,2,4,6)], of sch] assms(12) by simp
  have fin: "\<forall>p \<in> set pcs. p = Finished"
    using exec_finished [OF assms(11), of _ es n db] assms(12) by simp
  have len: "length pcs = length locs" using inv by (simp add: server_inv_def)
  have pc: "pcs ! i = Finished" if "i < length locs" for i
    using fin that len by (metis nth_mem)
  then have "saved_locs locs pcs = set locs" using all_saved_locs [OF len] by simp
  moreover have "tbl_run_location db' = map (set_status n (saved_locs locs pcs) READY) (tbl_run_location db)"
    using inv by (simp add: server_inv_def)
  ultimately have "all_in READY n db'"
    using rows0(1) by (intro all_in_set_status [of db' n "set locs" READY "tbl_run_location db"]) auto
  moreover have "has_started n db'" using inv pc by (auto simp: server_inv_def)
  moreover have "wf_db db'" "start_from es n db'" using inv by (simp_all add: server_inv_def)
  ultimately show ?thesis
    using fin by (auto simp: all_in_def has_started_def start_from_def start_time_def start_delay_seconds_def)
qed

theorem concurrent_ready_starts_witness:
  "\<exists>r' t. find_run ''shop-a1'' (snd (exec [sample_env 0, sample_env 1500000] ''shop-a1'' [''eu'', ''us'']
      [0, 1, 0, 1, 0, 1, 1, 0] (loading [''eu'', ''us''] (sample_db False QUEUED QUEUED)))) = Some r' \<and>
    started_at r' = Some t \<and> t \<in> {30000000, 31000000}"
proof -
  let ?db = "sample_db False QUEUED QUEUED" and ?es = "[sample_env 0, sample_env 1500000]"
  have run: "find_run ''shop-a1'' ?db = Some (sample_run False)" by code_simp
  have r: "\<not> draft (sample_run False)" "started_at (sample_run False) = None"
    by (simp_all add: sample_run_def new_test_run_def)
  have rows: "locations_of ''shop-a1'' ?db = [sample_row 4 ''eu'' 2 QUEUED, sample_row 5 ''us'' 3 QUEUED]" by code_simp
  have q: "\<forall>l \<in> set (locations_of ''shop-a1'' ?db). status l = QUEUED"
    unfolding rows by (simp add: sample_row_def new_test_run_location_def)
  have locs: "[''eu'', ''us''] \<noteq> []" "distinct [''eu'', ''us'']"
    "set [''eu'', ''us''] = location ` set (locations_of ''shop-a1'' ?db)"
    "length ?es = length [''eu'', ''us'']"
    unfolding rows by (simp_all add: sample_row_def new_test_run_location_def)
  have es: "\<forall>e \<in> set ?es. fsm_lists e" using sample_env_laws(2) by simp
  have sch: "\<forall>i < length [''eu'', ''us'']. 4 \<le> count_list [0, 1, 0, 1, 0, 1, 1, 0] i"
    by (simp add: less_Suc_eq numeral_2_eq_2)
  have "(\<lambda>e. floor_second (now e + seconds 30)) ` set ?es = {30000000, 31000000}"
    by (simp add: sample_env_def clock_defs)
  then show ?thesis
    using concurrent_ready_starts [OF sample_db_wf run r q locs es sch prod.collapse [symmetric]] by simp
qed


text \<open>
  The steps are those of the code: a ready report that takes its four steps without another
  request in between has exactly the effect of the request as a whole.
\<close>

theorem solo_report_is_put:
  assumes "fsm_lists e" and "fsm_moves e" and "wf_db db" and "jobs_get_object q db = (Inr l, db)"
    and "status l \<in> {QUEUED, READY}"
  shows "((\<lambda>(p, s). turn e q p s) ^^ 4) (Loading, db) = (Finished, snd (put_job e q (status_only READY) db))"
proof -
  let ?l = "l\<lparr>status := READY\<rparr>"
  let ?db1 = "put_run_location ?l db"
  have l: "l \<in> set (tbl_run_location db)"
    using jobs_get_object_found(1) [OF assms(4)] by (simp add: jobs_get_queryset_iff)
  obtain r where r: "find_run (test_run l) db = Some r"
    using wf_location_refs(1) [OF assms(3) l] by (auto simp: find_run_exists)
  then have r_in: "r \<in> set (tbl_test_run db)" and nr: "name r = test_run l" by (auto dest: find_run_row)
  have stored: "stored_at db ?l" using l by (auto simp: stored_at_def placed_def)
  have save: "save_run_location_row e ?l db = (Inr ?l, ?db1)" using assms(3) stored by (rule save_stored_row)
  have wf1: "wf_db ?db1" using wf_save_run_location_row [OF assms(3) save] .
  have put: "snd (put_job e q (status_only READY) db) = after_started (now e) ?l ?db1"
    using put_job_accepts_all [OF assms(1-4) status_only_fields(1), of READY] assms(5)
    by (auto simp: status_only_fields assign_status after_save_def after_completed_def after_failure_def)
  have 1: "turn e q Loading db = (Saving ?l r, db)"
    using assms(4,5) r by (auto simp: turn_def validate_status_iff [OF assms(1)])
  have 2: "turn e q (Saving ?l r) db = (Checking ?l r, ?db1)" by (simp add: turn_def save)
  show ?thesis
  proof (cases "started_at r = None \<and> count_excluding [READY] (name r) ?db1 = 0")
    case True
    then have 3: "turn e q (Checking ?l r) ?db1 = (Starting r, ?db1)" by (simp add: turn_def)
    have "save_test_run e (r\<lparr>started_at := Some (floor_second (now e + seconds start_delay_seconds))\<rparr>) ?db1 =
        (Inr (start_run (now e) r), update_run (name r) (start_run (now e)) ?db1)"
      using wf1 r_in True
      by (intro save_run_update [where f = "\<lambda>r. r\<lparr>started_at := Some _\<rparr>"]) (simp_all add: start_run_def)
    then have 4: "turn e q (Starting r) ?db1 = (Finished, after_started (now e) ?l ?db1)"
      using True nr by (simp add: turn_def after_started_def)
    show ?thesis by (simp add: numeral_eq_Suc 1 2 3 4 put)
  next
    case False
    then have 3: "turn e q (Checking ?l r) ?db1 = (Finished, ?db1)" by (auto simp: turn_def)
    have 4: "turn e q Finished ?db1 = (Finished, ?db1)" by (simp add: turn_def)
    have "after_started (now e) ?l ?db1 = ?db1"
    proof (cases "count_excluding [READY] (name r) ?db1 = 0")
      case True
      with False have "start_run (now e) r = r" by (auto simp: start_run_def)
      then have "update_run (name r) (start_run (now e)) ?db1 = ?db1"
        using wf1 r_in by (intro update_run_id) simp_all
      with nr show ?thesis by (simp add: after_started_def)
    next
      case False
      with nr show ?thesis by (simp add: after_started_def)
    qed
    then show ?thesis by (simp add: numeral_eq_Suc 1 2 3 4 put)
  qed
qed

theorem solo_report_is_put_witness:
  "((\<lambda>(p, s). turn (sample_env 0) (sample_request ''eu'') p s) ^^ 4) (Loading, sample_db False QUEUED READY) =
    (Finished, snd (put_job (sample_env 0) (sample_request ''eu'') (status_only READY) (sample_db False QUEUED READY)))"
proof -
  have obj: "jobs_get_object (sample_request ''eu'') (sample_db False QUEUED READY) =
      (Inr (sample_row 4 ''eu'' 2 QUEUED), sample_db False QUEUED READY)"
    by code_simp
  have st: "status (sample_row 4 ''eu'' 2 QUEUED) \<in> {QUEUED, READY}"
    by (simp add: sample_row_def new_test_run_location_def)
  show ?thesis by (rule solo_report_is_put [OF sample_env_laws(2,3) sample_db_wf obj st])
qed

end
