(* ===== verification/Races.thy ===== *)
theory Races
  imports Lifecycle Schedules
begin

text \<open>
  Concurrent writes of jobs in general. A request loads its row with the run, saves the row, and its
  receivers look at the database and write again, against the copy of the run the request holds;
  nothing of it is one transaction. The steps here are the accesses that write, each with the
  reading before it where the code decides at once. Alone, the steps are the request; interleaved,
  every request is answered and the database stays well formed, but a failure can be lost.
\<close>

section \<open>A write in steps\<close>

text \<open>Where a request is, with the row it saves or has saved and its copy of the run.\<close>

datatype phase =
    Arrived
  | Loaded test_run_location test_run
  | Stored test_run_location test_run
  | Begins test_run_location test_run
  | Begun test_run_location test_run
  | Ends test_run_location test_run
  | Ended test_run_location test_run
  | Answered "exn + test_run_location"

definition put_step :: "env \<Rightarrow> job_request \<Rightarrow> job_data \<Rightarrow> phase \<Rightarrow> database \<Rightarrow> phase \<times> database" where
  "put_step e q d p db = (case p of
     Arrived \<Rightarrow>
       (case bindp (jobs_get_object q) (\<lambda>inst.
             bindp (of_result (validate_data e inst d)) (\<lambda>d'.
             bindp (job_methods e inst d') (\<lambda>l. ret (assign_data d' l)))) db of
          (Inl x, s) \<Rightarrow> (Answered (Inl x), s)
        | (Inr l, s) \<Rightarrow>
            (case get_run (test_run l) s of
               (Inl x, _) \<Rightarrow> (Answered (Inl x), s)
             | (Inr r, _) \<Rightarrow> (Loaded l r, s)))
   | Loaded l r \<Rightarrow>
       (case save_run_location_row e l db of
          (Inl x, s) \<Rightarrow> (Answered (Inl x), s)
        | (Inr l', s) \<Rightarrow> (Stored l' r, s))
   | Stored l r \<Rightarrow>
       (if status l = READY \<and> started_at r = None \<and> count_excluding [READY] (name r) db = 0
        then (Begins l (r\<lparr>started_at := Some (floor_second (now e + seconds start_delay_seconds))\<rparr>), db)
        else (Begun l r, db))
   | Begins l r \<Rightarrow>
       (case save_test_run e r db of
          (Inl x, s) \<Rightarrow> (Answered (Inl x), s) | (Inr r', s) \<Rightarrow> (Begun l r', s))
   | Begun l r \<Rightarrow>
       (if status l = COMPLETED \<and> completed_at r = None \<and> count_excluding [COMPLETED] (name r) db = 0
        then (Ends l (r\<lparr>completed_at := Some (floor_second (now e))\<rparr>), db)
        else (Ended l r, db))
   | Ends l r \<Rightarrow>
       (case save_test_run e r db of
          (Inl x, s) \<Rightarrow> (Answered (Inl x), s) | (Inr r', s) \<Rightarrow> (Ended l r', s))
   | Ended l r \<Rightarrow>
       (Answered (Inr l),
        if status l = FAILED then update_run_locations (auto_cancel (name r) (auto_cancel_message l)) db else db)
   | Answered a \<Rightarrow> (Answered a, db))"

section \<open>Many requests\<close>

text \<open>A request with its world.\<close>

type_synonym call = "env \<times> job_request \<times> job_data"

definition put_turn :: "call list \<Rightarrow> nat \<Rightarrow> phase \<Rightarrow> database \<Rightarrow> phase \<times> database" where
  "put_turn cs i = (case cs ! i of (e, q, d) \<Rightarrow> put_step e q d)"

abbreviation serve :: "call list \<Rightarrow> nat list \<Rightarrow> phase list \<times> database \<Rightarrow> phase list \<times> database" where
  "serve cs \<equiv> run_schedule (put_turn cs)"

definition arrived :: "call list \<Rightarrow> database \<Rightarrow> phase list \<times> database" where
  "arrived cs db = (map (\<lambda>_. Arrived) cs, db)"

section \<open>Every request is answered\<close>

fun steps_left :: "phase \<Rightarrow> nat" where
  "steps_left Arrived = 7"
| "steps_left (Loaded l r) = 6"
| "steps_left (Stored l r) = 5"
| "steps_left (Begins l r) = 4"
| "steps_left (Begun l r) = 3"
| "steps_left (Ends l r) = 2"
| "steps_left (Ended l r) = 1"
| "steps_left (Answered a) = 0"

lemma put_step_left: "steps_left (fst (put_step e q d p db)) \<le> steps_left p - 1"
  by (cases p) (auto simp: put_step_def split: prod.split sum.split)

interpretation put_work: working "put_turn cs" "\<lambda>_. True" steps_left for cs
proof
  show "True \<and> steps_left p' \<le> steps_left p - 1" if "put_turn cs i p db = (p', s)" for i p db p' s
    using that put_step_left by (auto simp: put_turn_def split: prod.splits) (metis fst_conv)
qed

lemma steps_left_0: "steps_left p = 0 \<longleftrightarrow> (\<exists>a. p = Answered a)"
  by (cases p) simp_all

section \<open>Integrity\<close>

text \<open>The copy of the run a request holds has the key and the name of a stored run.\<close>

fun held :: "database \<Rightarrow> phase \<Rightarrow> bool" where
  "held db (Loaded l r) = run_stored_at db r"
| "held db (Stored l r) = run_stored_at db r"
| "held db (Begins l r) = run_stored_at db r"
| "held db (Begun l r) = run_stored_at db r"
| "held db (Ends l r) = run_stored_at db r"
| "held db (Ended l r) = run_stored_at db r"
| "held db _ = True"

definition same_refs :: "database \<Rightarrow> database \<Rightarrow> bool" where
  "same_refs db s \<longleftrightarrow> tbl_output s = tbl_output db \<and> tbl_location s = tbl_location db \<and>
     (\<lambda>r. (pk r, name r)) ` set (tbl_test_run s) = (\<lambda>r. (pk r, name r)) ` set (tbl_test_run db) \<and>
     pk ` set (tbl_run_location db) \<subseteq> pk ` set (tbl_run_location s)"

lemma same_refs_refl [simp]: "same_refs db db"
  by (simp add: same_refs_def)

lemma same_refs_trans: "same_refs a b \<Longrightarrow> same_refs b c \<Longrightarrow> same_refs a c"
  using subset_trans unfolding same_refs_def by (elim conjE, intro conjI) simp_all

lemma put_row_pks: "pk ` set (tbl_run_location db) \<subseteq> pk ` set (tbl_run_location (put_run_location l db))"
  by (auto simp: put_run_location_def set_upsert image_iff)

lemma run_stored_at_iff:
  "run_stored_at db r \<longleftrightarrow> (pk r, name r) \<in> (\<lambda>r. (pk r, name r)) ` set (tbl_test_run db) \<and>
     has_name (test_output r) (tbl_output db)"
  unfolding run_stored_at_def by (auto simp: image_iff) metis

lemma run_stored_same_refs: "same_refs db s \<Longrightarrow> run_stored_at s r \<longleftrightarrow> run_stored_at db r"
  by (simp add: run_stored_at_iff same_refs_def)

lemma held_same_refs: "same_refs db s \<Longrightarrow> held s p \<longleftrightarrow> held db p"
  by (cases p) (simp_all add: run_stored_same_refs)

lemma same_refs_put_run:
  assumes "wf_db db" and "run_stored_at db r"
  shows "same_refs db (put_run (r\<lparr>updated_at := t\<rparr>) db)"
proof -
  let ?k = "\<lambda>r :: test_run. (pk r, name r)" and ?rows = "tbl_test_run db"
  from assms(2) obtain x where x: "x \<in> set ?rows" "pk x = pk r" "name x = name r"
    by (auto simp: run_stored_at_def)
  let ?r = "r\<lparr>updated_at := t\<rparr>"
  let ?others = "{y \<in> set ?rows. pk y \<noteq> pk r}"
  have uniq: "y = x" if "y \<in> set ?rows" "pk y = pk r" for y
    using that x(1,2) wf_rows(3) [OF assms(1)] by (auto simp: named_rows_def intro: keyed_rows_same)
  have "?k ` insert ?r ?others = ?k ` insert x ?others" using x(2,3) by simp
  also have "insert x ?others = set ?rows" using x(1) uniq by blast
  finally show ?thesis by (simp add: same_refs_def put_run_def set_upsert)
qed

lemma save_held_run:
  assumes "wf_db db" and "run_stored_at db r"
  obtains r' s where "save_test_run e r db = (Inr r', s)" "wf_db s" "same_refs db s" "run_stored_at s r'"
    "r' = r\<lparr>updated_at := now e\<rparr>"
proof -
  have "run_stored_at db (r\<lparr>updated_at := now e\<rparr>)" using assms(2) by (simp add: run_stored_at_def)
  then show ?thesis
    using that save_run_stored_at [OF assms, of e] same_refs_put_run [OF assms, of "now e"]
      run_stored_same_refs [OF same_refs_put_run [OF assms, of "now e"]] by simp
qed

lemma arrived_step:
  assumes fsm: "fsm_lists e" "fsm_moves e" and wf: "wf_db db"
  shows "put_step e q d Arrived db =
    (case jobs_get_object q db of (Inl x, _) \<Rightarrow> (Answered (Inl x), db)
     | (Inr l, _) \<Rightarrow> (case validate_data e l d of Inl x \<Rightarrow> (Answered (Inl x), db)
        | Inr _ \<Rightarrow> (Loaded (assign_data d l) (the (find_run (test_run l) db)), db)))"
    and "\<And>l. jobs_get_object q db = (Inr l, db) \<Longrightarrow> l \<in> set (tbl_run_location db) \<and>
      get_run (test_run l) db = (Inr (the (find_run (test_run l) db)), db) \<and>
      run_stored_at db (the (find_run (test_run l) db)) \<and> name (the (find_run (test_run l) db)) = test_run l"
proof -
  have in_db: "l \<in> set (tbl_run_location db)" if "jobs_get_object q db = (Inr l, db)" for l
    using jobs_get_object_found(1) [OF that] by (simp add: jobs_get_queryset_iff)
  show run: "l \<in> set (tbl_run_location db) \<and>
      get_run (test_run l) db = (Inr (the (find_run (test_run l) db)), db) \<and>
      run_stored_at db (the (find_run (test_run l) db)) \<and> name (the (find_run (test_run l) db)) = test_run l"
    if obj: "jobs_get_object q db = (Inr l, db)" for l
  proof -
    obtain r where r: "r \<in> set (tbl_test_run db)" "name r = test_run l" "get_run (test_run l) db = (Inr r, db)"
      using get_run_stored [OF wf wf_location_refs(1) [OF wf in_db [OF obj]]] by blast
    then have "find_run (test_run l) db = Some r" using find_run_name [OF wf r(1)] by simp
    with r in_db [OF obj] wf_run_output [OF wf r(1)] show ?thesis by (auto simp: run_stored_at_def)
  qed
  show "put_step e q d Arrived db =
    (case jobs_get_object q db of (Inl x, _) \<Rightarrow> (Answered (Inl x), db)
     | (Inr l, _) \<Rightarrow> (case validate_data e l d of Inl x \<Rightarrow> (Answered (Inl x), db)
        | Inr _ \<Rightarrow> (Loaded (assign_data d l) (the (find_run (test_run l) db)), db)))"
  proof (rule jobs_get_object_cases [OF wf, of q])
    fix l
    assume obj: "jobs_get_object q db = (Inr l, db)"
    have d': "d' = d" if "validate_data e l d = Inr d'" for d'
      using that by (auto simp: validate_data_def split: option.splits sum.splits)
    obtain l1 where "job_methods e l d db = (Inr l1, db)" "assign_data d l1 = assign_data d l"
      using job_methods_idle [OF fsm wf] run [OF obj] by blast
    with obj d' run [OF obj] show ?thesis
      by (auto simp: put_step_def bindp_def of_result_def ret_def split: sum.split)
  qed (simp add: put_step_def bindp_def)
qed

lemma put_step_keeps:
  assumes fsm: "fsm_lists e" "fsm_moves e" and wf: "wf_db db" and held: "held db p"
    and step: "put_step e q d p db = (p', s)"
  shows "wf_db s \<and> same_refs db s \<and> held s p'"
proof (cases p)
  case Arrived
  show ?thesis
  proof (rule jobs_get_object_cases [OF wf, of q])
    fix l
    assume "jobs_get_object q db = (Inr l, db)"
    then show ?thesis
      using step wf arrived_step(1) [OF fsm wf, of q d] arrived_step(2) [OF fsm wf, of q l]
      by (auto simp: Arrived split: sum.splits)
  qed (use step wf arrived_step(1) [OF fsm wf, of q d] Arrived in auto)
next
  case (Loaded l r)
  obtain res t where row: "save_run_location_row e l db = (res, t)" by (metis prod.exhaust)
  show ?thesis
  proof (cases res)
    case (Inl x)
    with row have "t = db" using save_row_error by simp
    with step row Inl wf show ?thesis by (auto simp: Loaded put_step_def)
  next
    case (Inr l')
    have "same_refs db t" using save_row_result(1) [OF wf, of e l l' t] row Inr put_row_pks [of db l'] by (simp add: same_refs_def)
    with step row Inr held save_row_result(2) [OF wf, of e l l' t] show ?thesis
      by (auto simp: Loaded put_step_def run_stored_same_refs)
  qed
next
  case (Stored l r)
  with step wf held show ?thesis by (auto simp: put_step_def run_stored_at_def split: if_splits)
next
  case (Begins l r)
  with held have "run_stored_at db r" by simp
  with step show ?thesis
    by (elim save_held_run [OF wf, of r e]) (auto simp: Begins put_step_def)
next
  case (Begun l r)
  with step wf held show ?thesis by (auto simp: put_step_def run_stored_at_def split: if_splits)
next
  case (Ends l r)
  with held have "run_stored_at db r" by simp
  with step show ?thesis
    by (elim save_held_run [OF wf, of r e]) (auto simp: Ends put_step_def)
next
  case (Ended l r)
  with step wf show ?thesis
    by (auto simp: put_step_def same_refs_def image_image update_run_locations_def
        intro: wf_update_run_locations [unfolded update_run_locations_def] split: if_splits)
next
  case (Answered a)
  with step wf show ?thesis by (auto simp: put_step_def)
qed

interpretation puts: sharing "put_turn cs" "\<lambda>i. i < length cs \<and> (case cs ! i of (e, q, d) \<Rightarrow> fsm_lists e \<and> fsm_moves e)"
  wf_db held same_refs for cs
proof
  show "wf_db s \<and> same_refs db s \<and> held s p'"
    if "i < length cs \<and> (case cs ! i of (e, q, d) \<Rightarrow> fsm_lists e \<and> fsm_moves e)" "wf_db db" "held db p"
      "put_turn cs i p db = (p', s)" for i db p p' s
  proof -
    obtain e q d where c: "cs ! i = (e, q, d)" by (cases "cs ! i")
    with that have "fsm_lists e" "fsm_moves e" "put_step e q d p db = (p', s)" by (simp_all add: put_turn_def)
    with that(2,3) show ?thesis by (intro put_step_keeps)
  qed
qed (auto simp: held_same_refs intro: same_refs_trans)

section \<open>Properties of concurrent writes\<close>

text \<open>
  Every request is answered, whatever the others do: in any schedule a request that has had
  seven steps has its answer. No request waits for another one.
\<close>

theorem requests_answered:
  assumes "i < length cs" and "7 \<le> count_list sch i"
  shows "\<exists>a. fst (serve cs sch (arrived cs db)) ! i = Answered a"
proof -
  have "steps_left (fst (serve cs sch (arrived cs db)) ! i) \<le> 7 - count_list sch i"
    using put_work.schedule_work [of i "arrived cs db" cs sch] assms(1) by (simp add: arrived_def)
  with assms(2) show ?thesis by (simp flip: steps_left_0)
qed

theorem requests_answered_witness:
  "\<exists>a. fst (serve [(sample_env 0, sample_request ''eu'', sample_data FAILED)] (replicate 7 0)
      (arrived [(sample_env 0, sample_request ''eu'', sample_data FAILED)] (sample_db False RUNNING RUNNING))) ! 0 = Answered a"
proof -
  have "0 < length [(sample_env 0, sample_request ''eu'', sample_data FAILED)]" by simp
  moreover have "7 \<le> count_list (replicate 7 0) (0 :: nat)" by code_simp
  ultimately show ?thesis by (rule requests_answered)
qed

text \<open>
  Integrity survives every interleaving: any number of writes of jobs, whatever they ask
  for and however their steps mix, keep the database well formed, and no run appears, disappears
  or changes its name.
\<close>

theorem races_keep_integrity:
  assumes "wf_db db" and "\<forall>(e, q, d) \<in> set cs. fsm_lists e \<and> fsm_moves e"
  shows "wf_db (snd (serve cs sch (arrived cs db))) \<and>
    name ` set (tbl_test_run (snd (serve cs sch (arrived cs db)))) = name ` set (tbl_test_run db)"
proof -
  have "puts.consistent (arrived cs db)" using assms(1) by (simp add: puts.consistent_def arrived_def list_all_iff)
  from puts.schedule_consistent [OF this, of cs sch] assms(2)
  have "wf_db (snd (serve cs sch (arrived cs db)))"
    and "(\<lambda>r. (pk r, name r)) ` set (tbl_test_run (snd (serve cs sch (arrived cs db)))) =
      (\<lambda>r. (pk r, name r)) ` set (tbl_test_run db)"
    by (auto simp: puts.consistent_def same_refs_def arrived_def)
  then show ?thesis by (metis (no_types, lifting) image_cong image_image snd_conv)
qed

theorem races_keep_integrity_witness:
  "wf_db (snd (serve [(sample_env 0, sample_request ''eu'', sample_data FAILED), (sample_env 0, sample_request ''us'', sample_data RUNNING)]
      [1, 0, 0, 0, 0, 0, 0, 0, 1]
      (arrived [(sample_env 0, sample_request ''eu'', sample_data FAILED), (sample_env 0, sample_request ''us'', sample_data RUNNING)]
        (sample_db False RUNNING RUNNING))))"
proof -
  let ?cs = "[(sample_env 0, sample_request ''eu'', sample_data FAILED), (sample_env 0, sample_request ''us'', sample_data RUNNING)]"
  have "\<forall>(e, q, d) \<in> set ?cs. fsm_lists e \<and> fsm_moves e" using sample_env_laws(2,3) by simp
  from races_keep_integrity [OF sample_db_wf this] show ?thesis by blast
qed


section \<open>One request alone\<close>

lemma funpow_stays: "(f ^^ n) x = y \<Longrightarrow> f y = y \<Longrightarrow> n \<le> k \<Longrightarrow> (f ^^ k) x = y"
proof (induction k)
  case (Suc k)
  then show ?case by (cases "n = Suc k") simp_all
qed simp

text \<open>Each receiver takes one step, or two when it saves the run.\<close>

lemma begin_steps:
  assumes wf: "wf_db db" and r: "r \<in> set (tbl_test_run db)" "name r = test_run l"
  shows "\<exists>n r'. n \<le> 2 \<and> ((\<lambda>(p, s). put_step e q d p s) ^^ n) (Stored l r, db) = (Begun l r', after_started (now e) l db) \<and>
    r' \<in> set (tbl_test_run (after_started (now e) l db)) \<and> name r' = test_run l"
proof (cases "status l = READY \<and> started_at r = None \<and> count_excluding [READY] (name r) db = 0")
  case True
  have "save_test_run e (r\<lparr>started_at := Some (floor_second (now e + seconds start_delay_seconds))\<rparr>) db =
      (Inr (start_run (now e) r), update_run (name r) (start_run (now e)) db)"
    using wf r(1) True
    by (intro save_run_update [where f = "\<lambda>r. r\<lparr>started_at := Some _\<rparr>"]) (simp_all add: start_run_def)
  moreover have "after_started (now e) l db = update_run (name r) (start_run (now e)) db"
    using True r(2) by (simp add: after_started_def)
  moreover have "start_run (now e) r \<in> set (tbl_test_run (update_run (name r) (start_run (now e)) db))"
    using r(1) by (auto simp: update_run_def intro: rev_image_eqI)
  ultimately show ?thesis
    using True r(2)
    by (intro exI [of _ 2] exI [of _ "start_run (now e) r"]) (simp add: numeral_2_eq_2 put_step_def)
next
  case False
  have "after_started (now e) l db = db"
  proof (cases "status l = READY \<and> count_excluding [READY] (name r) db = 0")
    case True
    with False have "start_run (now e) r = r" by (auto simp: start_run_def)
    then have "update_run (name r) (start_run (now e)) db = db" using wf r(1) by (intro update_run_id)
    with r(2) show ?thesis by (simp add: after_started_def)
  next
    case False
    with r(2) show ?thesis by (auto simp: after_started_def)
  qed
  with False r show ?thesis
    by (intro exI [of _ 1] exI [of _ r]) (auto simp: put_step_def)
qed

lemma end_steps:
  assumes wf: "wf_db db" and r: "r \<in> set (tbl_test_run db)" "name r = test_run l"
  shows "\<exists>n r'. n \<le> 2 \<and> ((\<lambda>(p, s). put_step e q d p s) ^^ n) (Begun l r, db) = (Ended l r', after_completed (now e) l db) \<and>
    name r' = test_run l"
proof (cases "status l = COMPLETED \<and> completed_at r = None \<and> count_excluding [COMPLETED] (name r) db = 0")
  case True
  have "save_test_run e (r\<lparr>completed_at := Some (floor_second (now e))\<rparr>) db =
      (Inr (complete_run (now e) r), update_run (name r) (complete_run (now e)) db)"
    using wf r(1) True
    by (intro save_run_update [where f = "\<lambda>r. r\<lparr>completed_at := Some _\<rparr>"]) (simp_all add: complete_run_def)
  moreover have "after_completed (now e) l db = update_run (name r) (complete_run (now e)) db"
    using True r(2) by (simp add: after_completed_def)
  ultimately show ?thesis
    using True r(2)
    by (intro exI [of _ 2] exI [of _ "complete_run (now e) r"]) (simp add: numeral_2_eq_2 put_step_def)
next
  case False
  have "after_completed (now e) l db = db"
  proof (cases "status l = COMPLETED \<and> count_excluding [COMPLETED] (name r) db = 0")
    case True
    with False have "complete_run (now e) r = r" by (auto simp: complete_run_def)
    then have "update_run (name r) (complete_run (now e)) db = db" using wf r(1) by (intro update_run_id)
    with r(2) show ?thesis by (simp add: after_completed_def)
  next
    case False
    with r(2) show ?thesis by (auto simp: after_completed_def)
  qed
  with False r show ?thesis
    by (intro exI [of _ 1] exI [of _ r]) (auto simp: put_step_def)
qed

text \<open>From the saved row to the answer.\<close>

lemma receiver_steps:
  assumes wf: "wf_db db" and r: "r \<in> set (tbl_test_run db)" "name r = test_run l"
  shows "\<exists>n \<le> 5. ((\<lambda>(p, s). put_step e q d p s) ^^ n) (Stored l r, db) =
    (Answered (Inr l), after_failure l (after_completed (now e) l (after_started (now e) l db)))"
proof -
  let ?f = "\<lambda>(p, s). put_step e q d p s" and ?s = "after_started (now e) l db"
  obtain n r' where 1: "n \<le> 2" "(?f ^^ n) (Stored l r, db) = (Begun l r', ?s)" "r' \<in> set (tbl_test_run ?s)" "name r' = test_run l"
    using begin_steps [OF wf r, of e q d] by blast
  obtain m r'' where 2: "m \<le> 2" "(?f ^^ m) (Begun l r', ?s) = (Ended l r'', after_completed (now e) l ?s)" "name r'' = test_run l"
    using end_steps [OF wf_after_started [OF wf] 1(3,4), of e q d] by blast
  have 3: "put_step e q d (Ended l r'') (after_completed (now e) l ?s) = (Answered (Inr l), after_failure l (after_completed (now e) l ?s))"
    using 2(3) by (simp add: put_step_def after_failure_def)
  have "(?f ^^ (Suc (m + n))) (Stored l r, db) = (Answered (Inr l), after_failure l (after_completed (now e) l ?s))"
    by (simp add: funpow_add 1(2) 2(2) 3)
  with 1(1) 2(1) show ?thesis by (intro exI [of _ "Suc (m + n)"]) simp
qed

text \<open>
  The steps are those of the request: taken without another request in between, seven of them
  lead to the answer and the database of the whole request, whatever it asks for and whether it
  succeeds or fails.
\<close>

theorem solo_steps_are_put:
  assumes "fsm_lists e" and "fsm_moves e" and "wf_db db"
  shows "((\<lambda>(p, s). put_step e q d p s) ^^ 7) (Arrived, db) =
    (Answered (fst (put_job e q d db)), snd (put_job e q d db))"
proof -
  let ?f = "\<lambda>(p, s). put_step e q d p s"
  have stays: "?f (Answered a, s) = (Answered a, s)" for a s by (simp add: put_step_def)
  note first = arrived_step(1) [OF assms, of q d]
  have "\<exists>n \<le> 7. (?f ^^ n) (Arrived, db) = (Answered (fst (put_job e q d db)), snd (put_job e q d db))"
  proof (rule jobs_get_object_cases [OF assms(3), of q])
    fix l
    assume obj: "jobs_get_object q db = (Inr l, db)"
    let ?r = "the (find_run (test_run l) db)" and ?l = "assign_data d l"
    from arrived_step(2) [OF assms obj] have l: "l \<in> set (tbl_run_location db)"
      and r: "get_run (test_run l) db = (Inr ?r, db)" "name ?r = test_run l" by simp_all
    have r_in: "?r \<in> set (tbl_test_run db)"
      using r(1) by (auto simp: get_run_def dest: find_run_row split: option.splits)
    show ?thesis
    proof (cases "validate_data e l d")
      case (Inl x)
      with obj first show ?thesis
        by (intro exI [of _ 1]) (simp add: put_job_def bindp_def of_result_def)
    next
      case (Inr d')
      then have d': "d' = d" by (auto simp: validate_data_def split: option.splits sum.splits)
      with Inr obj have put: "put_job e q d db = save_run_location e ?l db"
        by (simp add: put_job_def bindp_def of_result_def update_job_eq [OF assms l])
      have 1: "?f (Arrived, db) = (Loaded ?l ?r, db)" using first obj Inr by simp
      obtain res s where row: "save_run_location_row e ?l db = (res, s)" by (metis prod.exhaust)
      show ?thesis
      proof (cases res)
        case (Inl x)
        then have "s = db" using row save_row_error by simp
        with 1 Inl row put show ?thesis
          by (intro exI [of _ 2]) (simp add: numeral_2_eq_2 put_step_def save_run_location_eq [OF assms(3)])
      next
        case (Inr l')
        then have row': "save_run_location_row e ?l db = (Inr l', s)" using row by simp
        note facts = save_row_result [OF assms(3) row']
        have "test_run l' = test_run ?l" using facts(4) by (simp add: assign_pk_def split: option.split)
        then have at: "name ?r = test_run l'" using r(2) by simp
        have "?r \<in> set (tbl_test_run s)" using facts(1) r_in by simp
        then obtain n where n: "n \<le> 5" "(?f ^^ n) (Stored l' ?r, s) =
            (Answered (Inr l'), after_failure l' (after_completed (now e) l' (after_started (now e) l' s)))"
          using receiver_steps [OF facts(2) _ at, of e q d] by blast
        have 2: "?f (Loaded ?l ?r, db) = (Stored l' ?r, s)" using row' by (simp add: put_step_def)
        have "(?f ^^ (n + 2)) (Arrived, db) =
            (Answered (Inr l'), after_failure l' (after_completed (now e) l' (after_started (now e) l' s)))"
          by (simp only: funpow_add o_apply numeral_2_eq_2 funpow.simps id_apply 1 2 n(2))
        then show ?thesis
          using n(1) put row' facts(1)
          by (intro exI [of _ "n + 2"]) (simp add: save_run_location_eq [OF assms(3)] after_save_def)
      qed
    qed
  qed (use first in \<open>auto simp: put_job_def bindp_def intro!: exI [of _ 1]\<close>)
  then show ?thesis using funpow_stays [of _ ?f, OF _ stays] by blast
qed

theorem solo_steps_are_put_witness:
  "((\<lambda>(p, s). put_step (sample_env 0) (sample_request ''eu'') (sample_data FAILED) p s) ^^ 7)
      (Arrived, sample_db False RUNNING READY) =
    (Answered (fst (put_job (sample_env 0) (sample_request ''eu'') (sample_data FAILED) (sample_db False RUNNING READY))),
     snd (put_job (sample_env 0) (sample_request ''eu'') (sample_data FAILED) (sample_db False RUNNING READY)))"
  by (rule solo_steps_are_put [OF sample_env_laws(2,3) sample_db_wf])

end
