(* ===== verification/Concurrent.thy ===== *)
theory Concurrent
  imports Races System
begin

text \<open>
  All requests at the same time. Theory System handles every request at once; here each of them takes
  its accesses of the database one by one, with any number of requests of the worker API and of the
  admin site in between. What an \<open>atomic\<close> block writes appears at once, with what it has read
  before. Every request is answered and no data is damaged, but reports and cancelations can
  overwrite each other.
\<close>

section \<open>A request in steps\<close>

text \<open>Where a request is, with what it has loaded.\<close>

datatype activity =
    Asked request
  | Writing job_request job_data phase
  | Checking_in test_location
  | Launching "test_run list"
  | Counting "test_run list"
  | Stopping test_run "test_run list"
  | Committing "test_run_location list" "test_run list"
  | Editing "string set" test_run
  | Served "exn + unit"

definition served_with :: "exn + 'a \<Rightarrow> activity" where
  "served_with r = Served (case r of Inl x \<Rightarrow> Inl x | Inr _ \<Rightarrow> Inr ())"

definition writing :: "job_request \<Rightarrow> job_data \<Rightarrow> phase \<Rightarrow> activity" where
  "writing q d p = (case p of Answered r \<Rightarrow> served_with r | _ \<Rightarrow> Writing q d p)"

text \<open>The accesses of a check-in after the query, and of the loop of \<open>start_test_runs\<close>.\<close>

definition ping_access :: "env \<Rightarrow> test_location \<Rightarrow> database \<Rightarrow> activity \<times> database" where
  "ping_access e l db = (case save_location e (ping e l) db of (r, s) \<Rightarrow> (served_with r, s))"

definition start_access :: "env \<Rightarrow> test_run list \<Rightarrow> database \<Rightarrow> activity \<times> database" where
  "start_access e rs db = (case rs of
     [] \<Rightarrow> (Served (Inr ()), db)
   | r # rs \<Rightarrow>
       (case start_test_run e True r db of
          (Inl x, s) \<Rightarrow> (Served (Inl x), s) | (Inr _, s) \<Rightarrow> (Launching rs, s)))"

text \<open>
  The loop of \<open>cancel_test_runs\<close>: it counts the locations of a run, and \<open>TestRun.cancel\<close> reads the
  rows and, when its transaction commits, has written them.
\<close>

definition count_access :: "test_run list \<Rightarrow> database \<Rightarrow> activity" where
  "count_access rs db = (case rs of
     [] \<Rightarrow> Served (Inr ())
   | r # rs \<Rightarrow>
       if status_count db r FAILED = 0 \<and> status_count db r COMPLETED \<noteq> status_total db r
       then Stopping r rs else Counting rs)"

definition stop_access :: "test_run \<Rightarrow> test_run list \<Rightarrow> database \<Rightarrow> activity" where
  "stop_access r rs db =
     Committing (filter (\<lambda>l. status l \<notin> {COMPLETED, CANCELED, FAILED}) (locations_of (name r) db)) rs"

definition commit_cancel :: "env \<Rightarrow> string option \<Rightarrow> test_run_location list \<Rightarrow> unit web" where
  "commit_cancel e message ls = atomic (for_each ls (\<lambda>l.
     bindp (call_transition e ''cancel'' message l) (\<lambda>l'.
     bindp (save_run_location e l') (\<lambda>_. ret ()))))"

definition commit_access ::
  "env \<Rightarrow> test_run_location list \<Rightarrow> test_run list \<Rightarrow> database \<Rightarrow> activity \<times> database" where
  "commit_access e ls rs db = (case commit_cancel e (Some ''Test manually canceled'') ls db of
     (Inl x, s) \<Rightarrow> (Served (Inl x), s) | (Inr _, s) \<Rightarrow> (Counting rs, s))"

text \<open>The first access.\<close>

definition begin_request :: "env \<Rightarrow> request \<Rightarrow> database \<Rightarrow> activity \<times> database" where
  "begin_request e rq db = (case rq of
     PutJob q d \<Rightarrow> (case put_step e q d Arrived db of (p, s) \<Rightarrow> (writing q d p, s))
   | AcceptJob q \<Rightarrow> (case accept_job e q db of (r, s) \<Rightarrow> (served_with r, s))
   | PingLocation loc \<Rightarrow>
       (case ping_get_object loc db of None \<Rightarrow> Served (Inr ()) | Some l \<Rightarrow> Checking_in l, db)
   | StartRuns sel \<Rightarrow> (Launching (selected sel True db), db)
   | CancelRuns sel \<Rightarrow> (Counting (selected sel False db), db)
   | ChangeRun post k \<Rightarrow>
       (case look_run k db of None \<Rightarrow> Served (Inl Http404) | Some r \<Rightarrow> Editing post r, db))"

text \<open>Any access. The change page is one transaction, whose writes appear at once.\<close>

definition act :: "env \<Rightarrow> activity \<Rightarrow> database \<Rightarrow> activity \<times> database" where
  "act e a db = (case a of
     Asked rq \<Rightarrow> begin_request e rq db
   | Writing q d p \<Rightarrow> (case put_step e q d p db of (p, s) \<Rightarrow> (writing q d p, s))
   | Checking_in l \<Rightarrow> ping_access e l db
   | Launching rs \<Rightarrow> start_access e rs db
   | Counting rs \<Rightarrow> (count_access rs db, db)
   | Stopping r rs \<Rightarrow> (stop_access r rs db, db)
   | Committing ls rs \<Rightarrow> commit_access e ls rs db
   | Editing post r \<Rightarrow> (case response_change e post r db of (res, s) \<Rightarrow> (served_with res, s))
   | Served r \<Rightarrow> (Served r, db))"

lemmas act_simps = act_def begin_request_def ping_access_def start_access_def count_access_def stop_access_def commit_access_def

text \<open>Each request with its own world.\<close>

definition act_of :: "env list \<Rightarrow> nat \<Rightarrow> activity \<Rightarrow> database \<Rightarrow> activity \<times> database" where
  "act_of es i = act (es ! i)"

abbreviation attend :: "env list \<Rightarrow> nat list \<Rightarrow> activity list \<times> database \<Rightarrow> activity list \<times> database" where
  "attend es \<equiv> run_schedule (act_of es)"

definition asked :: "request list \<Rightarrow> database \<Rightarrow> activity list \<times> database" where
  "asked rqs db = (map Asked rqs, db)"

section \<open>Every request is answered\<close>

text \<open>How many accesses are left at most, once the first one has been made.\<close>

fun accesses_left :: "activity \<Rightarrow> nat" where
  "accesses_left (Writing q d p) = Suc (steps_left p)"
| "accesses_left (Checking_in l) = 1"
| "accesses_left (Launching rs) = Suc (length rs)"
| "accesses_left (Counting rs) = 3 * length rs + 1"
| "accesses_left (Stopping r rs) = 3 * length rs + 3"
| "accesses_left (Committing ls rs) = 3 * length rs + 2"
| "accesses_left (Editing post r) = 1"
| "accesses_left (Served r) = 0"
| "accesses_left (Asked rq) = 0"

definition at_work_on :: "activity \<Rightarrow> bool" where
  "at_work_on a \<longleftrightarrow> (case a of Asked _ \<Rightarrow> False | _ \<Rightarrow> True)"

lemma at_work_on_simps [simp]:
  "\<not> at_work_on (Asked rq)" "at_work_on (Writing q d p)" "at_work_on (Checking_in l)" "at_work_on (Launching rs)"
  "at_work_on (Counting rs)" "at_work_on (Stopping r rs)" "at_work_on (Committing ls rs)" "at_work_on (Editing post r)"
  "at_work_on (Served x)" "at_work_on (served_with y)" "at_work_on (writing q d p)"
  by (simp_all add: at_work_on_def served_with_def writing_def split: phase.split)

lemma accesses_served [simp]: "accesses_left (served_with r) = 0"
  by (simp add: served_with_def)

lemma accesses_writing: "accesses_left (writing q d p) \<le> (if steps_left p = 0 then 0 else Suc (steps_left p))"
  by (cases p) (simp_all add: writing_def)

lemma act_work:
  assumes "at_work_on a" and "act e a db = (a', s)"
  shows "at_work_on a' \<and> accesses_left a' \<le> accesses_left a - 1"
proof (cases a)
  case (Writing q d p)
  with put_step_left [of e q d p db] accesses_writing [of q d "fst (put_step e q d p db)"] assms(2)
  show ?thesis by (auto simp: act_simps split: prod.splits if_splits)
qed (use assms in \<open>auto simp: act_simps split: list.splits prod.splits sum.splits if_splits\<close>)

interpretation requests: working "act_of es" at_work_on accesses_left for es
  unfolding act_of_def by unfold_locales (rule act_work)

lemma begin_at_work: "at_work_on (fst (act e a db))"
proof (cases "at_work_on a")
  case True
  then show ?thesis using act_work [OF True] by (metis prod.collapse)
next
  case False
  then obtain rq where "a = Asked rq" by (cases a) simp_all
  then show ?thesis
    by (cases rq) (auto simp: act_simps split: prod.split option.split)
qed

lemma no_access_left: "at_work_on a \<Longrightarrow> accesses_left a = 0 \<Longrightarrow> \<exists>r. a = Served r"
  by (cases a) simp_all

section \<open>Integrity\<close>

text \<open>What no step takes away: outputs, the keys and names of runs and locations, and the jobs.\<close>

definition kept_refs :: "database \<Rightarrow> database \<Rightarrow> bool" where
  "kept_refs db s \<longleftrightarrow> tbl_output s = tbl_output db \<and>
     (\<lambda>r. (pk r, name r)) ` set (tbl_test_run db) \<subseteq> (\<lambda>r. (pk r, name r)) ` set (tbl_test_run s) \<and>
     (\<lambda>l. (pk l, name l)) ` set (tbl_location db) \<subseteq> (\<lambda>l. (pk l, name l)) ` set (tbl_location s) \<and>
     pk ` set (tbl_run_location db) \<subseteq> pk ` set (tbl_run_location s)"

lemma kept_refs_refl [simp]: "kept_refs db db"
  by (simp add: kept_refs_def)

lemma kept_refs_trans: "kept_refs a b \<Longrightarrow> kept_refs b c \<Longrightarrow> kept_refs a c"
  using subset_trans unfolding kept_refs_def by (elim conjE, intro conjI) simp_all

lemma same_refs_kept: "same_refs db s \<Longrightarrow> kept_refs db s"
  by (simp add: same_refs_def kept_refs_def)

lemma run_stored_kept: "kept_refs db s \<Longrightarrow> run_stored_at db r \<Longrightarrow> run_stored_at s r"
  by (auto simp: run_stored_at_iff kept_refs_def)

lemma held_kept_refs: "kept_refs db s \<Longrightarrow> held db p \<Longrightarrow> held s p"
  by (cases p) (simp_all add: run_stored_kept)

text \<open>What a request has loaded may be old, but its key and its name are still those of a row.\<close>

fun carries :: "database \<Rightarrow> activity \<Rightarrow> bool" where
  "carries db (Writing q d p) = held db p"
| "carries db (Checking_in l) = ((pk l, name l) \<in> (\<lambda>l. (pk l, name l)) ` set (tbl_location db))"
| "carries db (Launching rs) = list_all (run_stored_at db) rs"
| "carries db (Editing post r) = run_stored_at db r"
| "carries db _ = True"

lemma carries_kept: "kept_refs db s \<Longrightarrow> carries db a \<Longrightarrow> carries s a"
  by (cases a) (auto simp: held_kept_refs run_stored_kept list_all_iff kept_refs_def)

lemma carries_served [simp]: "carries db (served_with r)"
  by (simp add: served_with_def)

lemma carries_writing: "held db p \<Longrightarrow> carries db (writing q d p)"
  by (cases p) (simp_all add: writing_def)

definition intact :: "database \<Rightarrow> database \<Rightarrow> bool" where
  "intact db s \<longleftrightarrow> (wf_db db \<longrightarrow> wf_db s \<and> kept_refs db s)"

interpretation intact: guarantee intact
  by unfold_locales (auto simp: intact_def intro: kept_refs_trans)

lemma kept_after_save: "kept_refs db (after_save t l db)"
proof -
  have keys: "pk (run_after t l s r) = pk r" "name (run_after t l s r) = name r" for s r
    by (simp_all add: run_after_def start_run_def complete_run_def)
  have "(\<lambda>r. (pk r, name r)) ` set (tbl_test_run (after_save t l db)) = (\<lambda>r. (pk r, name r)) ` set (tbl_test_run db)"
    by (simp add: after_save_runs image_image keys)
  moreover have "pk ` set (tbl_run_location (after_save t l db)) = pk ` set (tbl_run_location (put_run_location l db))"
    by (simp add: after_save_rows image_image)
  ultimately show ?thesis
    using put_row_pks [of db l] by (simp add: kept_refs_def)
qed

lemma intact_save_run_location: "gives intact (save_run_location e l)"
proof (rule givesI)
  fix db
  obtain res s where run: "save_run_location e l db = (res, s)" by force
  have "wf_db s \<and> kept_refs db s" if wf: "wf_db db"
    using wf_save_run_location [OF wf run] run save_run_location_eq [OF wf, of e l] kept_after_save
    by (auto split: prod.splits sum.splits)
  with run show "intact db (snd (save_run_location e l db))" by (simp add: intact_def)
qed

lemma intact_commit: "fsm_moves e \<Longrightarrow> gives intact (commit_cancel e message ls)"
  unfolding commit_cancel_def
  by (intro intact.gives_atomic intact.gives_for_each intact.gives_bindp)
    (simp_all add: call_cancel intact.gives_ret intact_save_run_location)

lemma save_run_intact:
  assumes "wf_db db" and "run_stored_at db r" and "save_test_run e r db = (res, s)"
  shows "wf_db s \<and> kept_refs db s"
  by (rule save_held_run [OF assms(1,2), of e]) (use assms(3) same_refs_kept in auto)

lemma duplicate_intact:
  assumes e: "fresh_pk e" "slugs e" and wf: "wf_db db" and r: "run_stored_at db r"
    and dup: "duplicate_test_run e r db = (res, s)"
  shows "wf_db s \<and> kept_refs db s"
proof -
  have out: "has_name (test_output r) (tbl_output db)" using r by (simp add: run_stored_at_def)
  show ?thesis
  proof (cases "has_name (generated_name e (target r)) (tbl_test_run db)")
    case True
    with duplicate_test_run_taken [OF e wf out True] dup wf show ?thesis by simp
  next
    case False
    show ?thesis
    proof (rule duplicate_test_run_eq [OF e wf out False])
      fix ls vs bs
      assume "duplicate_test_run e r db = (Inr (copied_run e db r), add_copies (copied_run e db r) ls vs bs db)"
        and "wf_db (add_copies (copied_run e db r) ls vs bs db)"
      with dup show ?thesis by (auto simp: kept_refs_def add_copies_def add_defs)
    qed
  qed
qed

lemma change_intact:
  assumes "fresh_pk e" "slugs e" "wf_db db" "run_stored_at db r" "response_change e post r db = (res, s)"
  shows "wf_db s \<and> kept_refs db s"
proof -
  have "run_stored_at db (r\<lparr>draft := False\<rparr>)" using assms(4) by (simp add: run_stored_at_def)
  with assms duplicate_intact [OF assms(1-4)] save_run_intact [OF assms(3), of "r\<lparr>draft := False\<rparr>" e]
  show ?thesis
    by (auto simp: response_change_def bindp_def ret_def split: if_splits prod.splits sum.splits)
qed

lemma loaded_run: "wf_db db \<Longrightarrow> r \<in> set (tbl_test_run db) \<Longrightarrow> run_stored_at db r"
  using wf_run_output by (auto simp: run_stored_at_def)

lemma act_keeps:
  assumes "env_ok e" and wf: "wf_db db" and has: "carries db a" and step: "act e a db = (a', s)"
  shows "wf_db s \<and> kept_refs db s \<and> carries s a'"
proof -
  have e: "fresh_pk e" "slugs e" "fsm_lists e" "fsm_moves e" using assms(1) by (simp_all add: env_ok_def)
  have put: "wf_db t \<and> kept_refs db t \<and> carries t (writing q d p')" if "held db p" "put_step e q d p db = (p', t)" for q d p p' t
    using put_step_keeps [OF e(3,4) wf that] same_refs_kept carries_writing by blast
  show ?thesis
  proof (cases a)
    case (Asked rq)
    show ?thesis
    proof (cases rq)
      case (PutJob q d)
      with step Asked put [of Arrived q d] show ?thesis
        by (auto simp: act_simps split: prod.splits)
    next
      case (AcceptJob q)
      with step Asked wf accept_job_db [of e q db] show ?thesis
        by (auto simp: act_simps split: prod.splits)
    next
      case (PingLocation loc)
      have "l \<in> set (tbl_location db)" if "ping_get_object loc db = Some l" for l
        using that by (auto simp: ping_get_object_def split: option.splits dest: first_row_in)
      with step Asked PingLocation wf show ?thesis
        by (auto simp: act_simps split: option.splits)
    next
      case (ChangeRun post k)
      with step Asked wf show ?thesis
        by (auto simp: act_simps loaded_run dest: look_run_in split: option.splits)
    qed (use step Asked wf in \<open>auto simp: act_simps selected_def list_all_iff loaded_run\<close>)
  next
    case (Writing q d p)
    with step has put [of p q d] show ?thesis by (auto simp: act_simps split: prod.splits)
  next
    case (Checking_in l)
    with has obtain x where x: "x \<in> set (tbl_location db)" "pk (ping e l) = pk x" "name (ping e l) = name x"
      by (auto simp: ping_def)
    let ?l = "(ping e l)\<lparr>updated_at := now e\<rparr>"
    have "(\<lambda>l. (pk l, name l)) ` set (tbl_location db) \<subseteq> (\<lambda>l. (pk l, name l)) ` set (tbl_location (put_location ?l db))"
      using x wf_rows(1) [OF wf] by (force simp: put_location_def set_upsert named_rows_def dest: keyed_rows_same)
    then have "kept_refs db (put_location ?l db)" by (simp add: kept_refs_def put_location_def)
    with step Checking_in save_stored_test_location [OF wf x, of e] show ?thesis by (auto simp: act_simps)
  next
    case (Launching rs)
    show ?thesis
    proof (cases rs)
      case (Cons r rs')
      have "run_stored_at db (r\<lparr>draft := False\<rparr>)" using has Launching Cons by (simp add: run_stored_at_def)
      from save_held_run [OF wf this, of e] obtain t where
        "save_test_run e (r\<lparr>draft := False\<rparr>) db = (Inr (r\<lparr>draft := False, updated_at := now e\<rparr>), t)"
        "wf_db t" "same_refs db t" by auto
      with step has Launching Cons show ?thesis
        using carries_kept [OF same_refs_kept, of db t "Launching rs'"]
        by (auto simp: act_simps start_test_run_def Let_def same_refs_kept)
    qed (use step Launching wf in \<open>auto simp: act_simps\<close>)
  next
    case (Committing ls rs)
    with step givesD [OF intact_commit [OF e(4)], of _ ls db] wf show ?thesis
      by (auto simp: act_simps intact_def split: prod.splits sum.splits)
  next
    case (Editing post r)
    with step has change_intact [OF e(1,2) wf, of r post] show ?thesis
      by (auto simp: act_simps split: prod.splits)
  qed (use step wf in \<open>auto simp: act_simps split: list.splits if_splits\<close>)
qed

interpretation sessions: sharing "act_of es" "\<lambda>i. env_ok (es ! i)" wf_db carries kept_refs for es
proof
  show "wf_db t \<and> kept_refs s t \<and> carries t p'"
    if "env_ok (es ! i)" "wf_db s" "carries s p" "act_of es i p s = (p', t)" for i s p p' t
    using act_keeps [OF that(1,2,3)] that(4) by (simp add: act_of_def)
qed (auto intro: kept_refs_trans carries_kept)

section \<open>One request alone\<close>

text \<open>An activity leads to an answer and a database when its accesses, taken in a row, do.\<close>

definition leads :: "env \<Rightarrow> activity \<Rightarrow> database \<Rightarrow> (exn + 'a) \<times> database \<Rightarrow> bool" where
  "leads e a db res \<longleftrightarrow> (\<exists>n. ((\<lambda>(a, s). act e a s) ^^ n) (a, db) = (served_with (fst res), snd res))"

lemma leads_served: "leads e (served_with r) db (r, db)"
  unfolding leads_def by (rule exI [of _ 0]) simp

lemma leads_step: "act e a db = (a', s) \<Longrightarrow> leads e a' s res \<Longrightarrow> leads e a db res"
  unfolding leads_def
proof (elim exE)
  fix n
  assume "act e a db = (a', s)" "((\<lambda>(a, s). act e a s) ^^ n) (a', s) = (served_with (fst res), snd res)"
  then show "\<exists>n. ((\<lambda>(a, s). act e a s) ^^ n) (a, db) = (served_with (fst res), snd res)"
    by (intro exI [of _ "Suc n"]) (simp add: funpow_swap1)
qed

lemma leads_answer: "act e a db = (served_with r, s) \<Longrightarrow> leads e a db (r, s)"
  using leads_step leads_served by blast

lemma served_with_id [simp]: "served_with (r :: exn + unit) = Served r"
  by (cases r) (simp_all add: served_with_def)

lemma leads_writing:
  "((\<lambda>(p, s). put_step e q d p s) ^^ n) (p, db) = (Answered r, s) \<Longrightarrow> leads e (writing q d p) db (r, s)"
proof (induction n arbitrary: p db)
  case 0
  then show ?case by (simp add: writing_def leads_served)
next
  case (Suc n)
  obtain p' t where step: "put_step e q d p db = (p', t)" by fastforce
  then have rest: "leads e (writing q d p') t (r, s)" using Suc by (simp add: funpow_swap1)
  show ?case
  proof (cases "\<exists>a. p = Answered a")
    case True
    then show ?thesis using step rest by (auto simp: put_step_def)
  next
    case False
    then have "writing q d p = Writing q d p" by (cases p) (simp_all add: writing_def)
    moreover have "act e (Writing q d p) db = (writing q d p', t)" using step by (simp add: act_simps)
    ultimately show ?thesis using rest by (metis leads_step)
  qed
qed

lemma leads_start: "leads e (Launching rs) db (start_loop e rs n db)"
proof (induction rs arbitrary: db n)
  case Nil
  have "act e (Launching []) db = (served_with (Inr n), db)" by (simp add: act_simps served_with_def)
  then show ?case by (simp add: ret_def leads_answer)
next
  case (Cons r rs)
  obtain res s where run: "start_test_run e True r db = (res, s)" by fastforce
  show ?case
  proof (cases res)
    case (Inl x)
    have "act e (Launching (r # rs)) db = (served_with (Inl x :: exn + nat), s)"
      using run Inl by (simp add: act_simps served_with_def)
    then show ?thesis using run Inl leads_answer by (auto simp: bindp_def)
  next
    case (Inr r')
    have "act e (Launching (r # rs)) db = (Launching rs, s)" using run Inr by (simp add: act_simps)
    then show ?thesis using run Inr Cons.IH [of s "n + 1"] by (auto simp: bindp_def intro: leads_step)
  qed
qed

lemma leads_cancel: "leads e (Counting rs) db (cancel_loop e rs n db)"
proof (induction rs arbitrary: db n)
  case Nil
  have "act e (Counting []) db = (served_with (Inr n), db)" by (simp add: act_simps served_with_def)
  then show ?case by (simp add: ret_def leads_answer)
next
  case (Cons r rs)
  let ?b = "status_count db r FAILED = 0 \<and> status_count db r COMPLETED \<noteq> status_total db r"
  let ?ls = "filter (\<lambda>l. status l \<notin> {COMPLETED, CANCELED, FAILED}) (locations_of (name r) db)"
  show ?case
  proof (cases ?b)
    case False
    then have "act e (Counting (r # rs)) db = (Counting rs, db)" by (auto simp: act_simps)
    moreover have "cancel_loop e (r # rs) n db = cancel_loop e rs n db"
      using False by (auto simp: bindp_def reads_def)
    ultimately show ?thesis using Cons.IH by (auto intro: leads_step)
  next
    case True
    obtain res s where run: "commit_cancel e (Some ''Test manually canceled'') ?ls db = (res, s)" by fastforce
    then have cancel: "cancel_run e (Some ''Test manually canceled'') r db = (res, s)"
      by (simp add: cancel_run_def commit_cancel_def atomic_def bindp_def reads_def)
    have "leads e (Committing ?ls rs) db (cancel_loop e (r # rs) n db)"
    proof (cases res)
      case (Inl x)
      have "act e (Committing ?ls rs) db = (served_with (Inl x :: exn + nat), s)"
        using run Inl by (simp add: act_simps served_with_def)
      then show ?thesis using True cancel Inl leads_answer by (auto simp: bindp_def reads_def)
    next
      case (Inr u)
      have "act e (Committing ?ls rs) db = (Counting rs, s)" using run Inr by (simp add: act_simps)
      then show ?thesis using True cancel Inr Cons.IH [of s "n + 1"] by (auto simp: bindp_def reads_def intro: leads_step)
    qed
    moreover have "act e (Stopping r rs) db = (Committing ?ls rs, db)" by (simp add: act_simps)
    moreover have "act e (Counting (r # rs)) db = (Stopping r rs, db)" using True by (simp add: act_simps)
    ultimately show ?thesis by (metis leads_step)
  qed
qed

lemma leads_forget:
  "leads e a db (m db) \<Longrightarrow> leads e a db (bindp m (\<lambda>_. ret ()) db)"
  by (cases "m db") (auto simp: leads_def bindp_def ret_def served_with_def split: sum.split)

lemma leads_handle:
  assumes "env_ok e" and wf: "wf_db db"
  shows "leads e (Asked rq) db (handle e rq db)"
proof -
  have fsm: "fsm_lists e" "fsm_moves e" using assms(1) by (simp_all add: env_ok_def)
  show ?thesis
  proof (cases rq)
    case (PutJob q d)
    obtain p s where step: "put_step e q d Arrived db = (p, s)" by fastforce
    have "((\<lambda>(p, s). put_step e q d p s) ^^ 6) (p, s) = ((\<lambda>(p, s). put_step e q d p s) ^^ Suc 6) (Arrived, db)"
      by (simp only: funpow_swap1 funpow.simps o_apply) (simp only: funpow_swap1 [symmetric] step prod.case)
    also have "\<dots> = (Answered (fst (put_job e q d db)), snd (put_job e q d db))"
      using solo_steps_are_put [OF fsm wf, of q d] by simp
    finally have "leads e (writing q d p) s (put_job e q d db)" using leads_writing by fastforce
    moreover have "act e (Asked rq) db = (writing q d p, s)" using step PutJob by (simp add: act_simps)
    ultimately have "leads e (Asked rq) db (put_job e q d db)" by (rule leads_step [rotated])
    with PutJob show ?thesis by (simp add: handle_def leads_forget)
  next
    case (AcceptJob q)
    obtain r s where "accept_job e q db = (r, s)" by fastforce
    then have "leads e (Asked rq) db (accept_job e q db)"
      using AcceptJob by (simp add: act_simps leads_answer)
    with AcceptJob show ?thesis by (simp add: handle_def leads_forget)
  next
    case (PingLocation loc)
    have "leads e (Asked rq) db (ping_create e loc db)"
    proof (cases "ping_get_object loc db")
      case None
      then have "act e (Asked rq) db = (served_with (Inr (Response 404)), db)"
        using PingLocation by (simp add: act_simps served_with_def)
      with None show ?thesis by (simp add: ping_create_def bindp_def reads_def ret_def leads_answer)
    next
      case (Some l)
      obtain r s where run: "save_location e (ping e l) db = (r, s)" by fastforce
      then have "act e (Checking_in l) db = (served_with (case r of Inl x \<Rightarrow> Inl x | Inr _ \<Rightarrow> Inr (Response 204)), s)"
        by (simp add: act_simps served_with_def split: sum.split)
      then have "leads e (Checking_in l) db (ping_create e loc db)"
        using Some run by (simp add: ping_create_def bindp_def reads_def ret_def leads_answer split: sum.splits)
      moreover have "act e (Asked rq) db = (Checking_in l, db)"
        using Some PingLocation by (simp add: act_simps)
      ultimately show ?thesis by (rule leads_step [rotated])
    qed
    with PingLocation show ?thesis by (simp add: handle_def leads_forget)
  next
    case (StartRuns sel)
    have "act e (Asked rq) db = (Launching (selected sel True db), db)"
      using StartRuns by (simp add: act_simps)
    then have "leads e (Asked rq) db (start_loop e (selected sel True db) 0 db)"
      using leads_start by (rule leads_step)
    then have "leads e (Asked rq) db (bindp (start_loop e (selected sel True db) 0) (\<lambda>_. ret ()) db)"
      by (rule leads_forget)
    with StartRuns show ?thesis
      by (auto simp: handle_def start_test_runs_def bindp_def reads_def ret_def split: prod.splits sum.splits)
  next
    case (CancelRuns sel)
    have "act e (Asked rq) db = (Counting (selected sel False db), db)"
      using CancelRuns by (simp add: act_simps)
    then have "leads e (Asked rq) db (cancel_loop e (selected sel False db) 0 db)"
      using leads_cancel by (rule leads_step)
    then have "leads e (Asked rq) db (bindp (cancel_loop e (selected sel False db) 0) (\<lambda>_. ret ()) db)"
      by (rule leads_forget)
    with CancelRuns show ?thesis
      by (auto simp: handle_def cancel_test_runs_def bindp_def reads_def ret_def split: prod.splits sum.splits)
  next
    case (ChangeRun post k)
    have "leads e (Asked rq) db (change_run e post k db)"
    proof (cases "look_run k db")
      case None
      then have "act e (Asked rq) db = (served_with (Inl Http404 :: exn + change_response), db)"
        using ChangeRun by (simp add: act_simps served_with_def)
      with None show ?thesis by (simp add: change_run_def leads_answer)
    next
      case (Some r)
      obtain res s where run: "response_change e post r db = (res, s)" by fastforce
      then have "leads e (Editing post r) db (change_run e post k db)"
        using Some by (simp add: act_simps change_run_def leads_answer)
      moreover have "act e (Asked rq) db = (Editing post r, db)"
        using Some ChangeRun by (simp add: act_simps)
      ultimately show ?thesis by (rule leads_step [rotated])
    qed
    with ChangeRun show ?thesis by (simp add: handle_def leads_forget)
  qed
qed

section \<open>Properties of concurrent requests\<close>








end
