(* ===== verification/Contract.thy ===== *)
theory Contract
  imports Lifecycle
begin

text \<open>
  What the application promises of a run, without tables, rows and requests: a run is a draft or
  not, has perhaps a start and an end, and a status per location. Reporting a status and
  canceling are operations on such views; the requests of the workers and
  \<open>TestRun.cancel\<close> implement them, for the run they are about, and leave the view of every
  other run alone.
\<close>

section \<open>The abstract run\<close>

record run_view =
  v_draft :: bool
  v_started :: "datetime option"
  v_completed :: "datetime option"
  v_status :: "string \<Rightarrow> status option"

text \<open>A failure cancels what is neither failed nor completed.\<close>

fun fail_other :: "status \<Rightarrow> status" where
  "fail_other FAILED = FAILED"
| "fail_other COMPLETED = COMPLETED"
| "fail_other _ = CANCELED"

definition every :: "status \<Rightarrow> run_view \<Rightarrow> bool" where
  "every s v \<longleftrightarrow> ran (v_status v) \<subseteq> {s}"

text \<open>
  The report of a status at a time: refused for a draft, for a location that does not take part
  and for a status that is not the current one or one edge away.
\<close>

definition report_spec :: "datetime \<Rightarrow> string \<Rightarrow> status \<Rightarrow> run_view \<Rightarrow> run_view option" where
  "report_spec t loc s v =
     (case v_status v loc of
        None \<Rightarrow> None
      | Some a \<Rightarrow>
          if v_draft v \<or> \<not> (s = a \<or> status_edge a s) then None
          else
            let v' = v\<lparr>v_status := (\<lambda>x. if x = loc then Some s
                  else if s = FAILED then map_option fail_other (v_status v x) else v_status v x)\<rparr>
            in Some
              (if s = READY \<and> every READY v' \<and> v_started v = None
               then v'\<lparr>v_started := Some (floor_second (t + seconds 30))\<rparr>
               else if s = COMPLETED \<and> every COMPLETED v' \<and> v_completed v = None
               then v'\<lparr>v_completed := Some (floor_second t)\<rparr>
               else v'))"

definition cancel_spec :: "run_view \<Rightarrow> run_view" where
  "cancel_spec v = v\<lparr>v_status := (\<lambda>x. map_option (\<lambda>s. if ended s then s else CANCELED) (v_status v x))\<rparr>"

section \<open>The view of a stored run\<close>

definition status_map :: "test_run_location list \<Rightarrow> string \<Rightarrow> status option" where
  "status_map ls = map_of (map (\<lambda>l. (location l, status l)) ls)"

definition view_of :: "test_run \<Rightarrow> test_run_location list \<Rightarrow> run_view" where
  "view_of r ls =
     \<lparr>v_draft = draft r, v_started = started_at r, v_completed = completed_at r, v_status = status_map ls\<rparr>"

definition view :: "string \<Rightarrow> database \<Rightarrow> run_view option" where
  "view n db = map_option (\<lambda>r. view_of r (locations_of n db)) (find_run n db)"

lemma status_map_map:
  assumes "\<And>l. l \<in> set ls \<Longrightarrow> location (g l) = location l \<and> status (g l) = h (location l) (status l)"
  shows "status_map (map g ls) x = map_option (h x) (status_map ls x)"
  using assms by (induction ls) (auto simp: status_map_def)

lemma status_map_Some:
  "distinct (map location ls) \<Longrightarrow> status_map ls x = Some a \<longleftrightarrow> (\<exists>l \<in> set ls. location l = x \<and> status l = a)"
  by (force simp: status_map_def comp_def intro: map_of_is_SomeI dest: map_of_SomeD)

lemma status_map_None: "status_map ls x = None \<longleftrightarrow> x \<notin> location ` set ls"
  by (auto simp: status_map_def map_of_eq_None_iff image_image)

lemma every_all_in:
  assumes "wf_db db" and "v_status v = status_map (locations_of n db)"
  shows "every s v \<longleftrightarrow> all_in s n db"
proof -
  have "ran (status_map (locations_of n db)) = status ` set (locations_of n db)"
    using status_map_Some [OF locations_distinct [OF assms(1), of n]] by (auto simp: ran_def)
  then show ?thesis by (simp add: every_def all_in_def assms(2) image_subset_iff)
qed

text \<open>A change of rows that only depends on location and status is a change of the view.\<close>

lemma locations_of_map:
  "tbl_run_location db' = map g (tbl_run_location db) \<Longrightarrow> (\<And>l. test_run (g l) = test_run l) \<Longrightarrow>
     locations_of n db' = map g (locations_of n db)"
  by (simp add: locations_of_def filter_map comp_def)

section \<open>The requests implement the contract\<close>

lemma view_Some:
  assumes "view n db = Some v"
  obtains r where "find_run n db = Some r" "v = view_of r (locations_of n db)"
  using assms by (auto simp: view_def)

lemma report_missing:
  assumes wf: "wf_db db" and n: "find_run n db = Some r"
    and none: "loc \<notin> location ` set (locations_of n db) \<or> draft r"
  shows "put_job e (report n loc) d db = (Inl Http404, db)"
proof -
  have "jobs_get_object (report n loc) db = (Inl Http404, db)"
  proof (rule jobs_get_object_cases [OF wf, of "report n loc"])
    fix l
    assume "l \<in> set (jobs_get_queryset (report n loc) db)" "q_name (report n loc) = Some (test_run l)"
    then have l: "l \<in> set (tbl_run_location db)" "location l = loc" "test_run l = n" "\<not> run_is_draft db l"
      by (simp_all add: jobs_get_queryset_iff report_def)
    then have "loc \<in> location ` set (locations_of n db)" by (auto simp: locations_of_def)
    moreover have "\<not> draft r" using l(3,4) find_run_row [OF n] by (auto simp: run_is_draft_def list_ex_iff)
    ultimately show ?thesis using none by blast
  qed
  then show ?thesis by (simp add: put_job_def bindp_def)
qed

text \<open>The view after the save of a location, row by row and for the run.\<close>

lemma view_after_save:
  assumes wf: "wf_db db" and l: "l \<in> set (tbl_run_location db)" "test_run l = n" and run: "find_run n db = Some r"
    and l': "pk l' = pk l" "test_run l' = n" "location l' = location l" "status l' = s"
  shows "view n (after_save t l' db) =
    Some (view_of (run_after t l' (after_save t l' db) r) (locations_of n (after_save t l' db)))"
    and "status_map (locations_of n (after_save t l' db)) x =
      (if x = location l then Some s
       else if s = FAILED then map_option fail_other (status_map (locations_of n db) x)
       else status_map (locations_of n db) x)"
    and "m \<noteq> n \<Longrightarrow> view m (after_save t l' db) = view m db"
proof -
  let ?db = "after_save t l' db"
  let ?g = "\<lambda>x. if pk x = pk l then l' else if s = FAILED then auto_cancel n (auto_cancel_message l') x else x"
  have rows: "tbl_run_location ?db = map ?g (tbl_run_location db)"
    using after_save_stored_rows [OF wf l(1) l'(1)] l' l(2) by simp
  have runs: "find_run m ?db = map_option (run_after t l' ?db) (find_run m db)" for m
    unfolding find_run_def after_save_runs [of t l' db] by (simp add: find_run_map)
  then show "view n ?db = Some (view_of (run_after t l' ?db r) (locations_of n ?db))"
    using run by (simp add: view_def)
  have kept: "test_run (?g x) = test_run x" if "x \<in> set (tbl_run_location db)" for x
    using row_identity(1) [OF wf that l(1)] l(2) l' by auto
  have locs: "locations_of m ?db = map ?g (locations_of m db)" for m
    unfolding locations_of_def rows filter_map comp_def using kept by (simp cong: filter_cong)
  have other: "fail_other (status y) = status (auto_cancel n msg y)" if "test_run y = n" for y msg
    using that by (cases "status y") (simp_all add: auto_cancel_def)
  have "location (?g y) = location y \<and>
      status (?g y) = (if location y = location l then s else if s = FAILED then fail_other (status y) else status y)"
    if "y \<in> set (locations_of n db)" for y
  proof -
    from that have y: "y \<in> set (tbl_run_location db)" "test_run y = n" by (simp_all add: locations_of_def)
    have "pk y = pk l \<longleftrightarrow> location y = location l"
      using row_identity [OF wf y(1) l(1)] y(2) l(2) by simp
    then show ?thesis using other [OF y(2)] l' by simp
  qed
  then have "status_map (locations_of n ?db) x = map_option
      (\<lambda>a. if x = location l then s else if s = FAILED then fail_other a else a) (status_map (locations_of n db) x)"
    unfolding locs by (rule status_map_map)
  moreover have "status_map (locations_of n db) (location l) \<noteq> None"
    using l by (auto simp: status_map_None locations_of_def)
  ultimately show "status_map (locations_of n ?db) x =
      (if x = location l then Some s
       else if s = FAILED then map_option fail_other (status_map (locations_of n db) x)
       else status_map (locations_of n db) x)"
    by (auto simp: option.map_ident)
  show "view m ?db = view m db" if "m \<noteq> n"
  proof -
    have "?g y = y" if "y \<in> set (locations_of m db)" for y
    proof -
      from that have y: "y \<in> set (tbl_run_location db)" "test_run y = m" by (simp_all add: locations_of_def)
      then have "pk y \<noteq> pk l" using row_identity(1) [OF wf y(1) l(1)] \<open>m \<noteq> n\<close> l(2) by auto
      then show ?thesis using y(2) \<open>m \<noteq> n\<close> by (simp add: auto_cancel_def)
    qed
    then have "locations_of m ?db = locations_of m db" unfolding locs by (intro map_idI) simp
    moreover have "find_run m ?db = find_run m db"
    proof (cases "find_run m db")
      case (Some x)
      then have "name x = m" by (auto dest: find_run_row)
      then have "run_after t l' ?db x = x" using \<open>m \<noteq> n\<close> l'(2) by (simp add: run_after_def)
      with Some show ?thesis by (simp add: runs)
    qed (simp add: runs)
    ultimately show ?thesis by (simp add: view_def)
  qed
qed

lemma view_of_status: "v = view_of r ls \<Longrightarrow> status_map ls' = f \<Longrightarrow> v\<lparr>v_status := f\<rparr> = view_of r ls'"
  by (simp add: view_of_def)

lemma view_run_after:
  "view_of (run_after t l db r) ls =
     (if name r = test_run l \<and> status l = READY \<and> all_in READY (test_run l) db \<and> started_at r = None
      then (view_of r ls)\<lparr>v_started := Some (floor_second (t + seconds 30))\<rparr>
      else if name r = test_run l \<and> status l = COMPLETED \<and> all_in COMPLETED (test_run l) db \<and> completed_at r = None
      then (view_of r ls)\<lparr>v_completed := Some (floor_second t)\<rparr>
      else view_of r ls)"
  by (auto simp: run_after_def view_of_def start_run_def complete_run_def start_delay_seconds_def)

text \<open>A report of a status, with any other fields but the location.\<close>

lemma report_refinement:
  assumes "fsm_lists e" and "fsm_moves e" and "wf_db db" and "view n db = Some v"
    and "d_status d = Some s" and "d_location d = None"
  shows "case report_spec (now e) loc s v of
      None \<Rightarrow> (\<exists>x. put_job e (report n loc) d db = (Inl x, db))
    | Some v' \<Rightarrow> (\<exists>l db'. put_job e (report n loc) d db = (Inr l, db') \<and> view n db' = Some v' \<and>
        (\<forall>m. m \<noteq> n \<longrightarrow> view m db' = view m db))"
proof -
  obtain r where run: "find_run n db = Some r" and v: "v = view_of r (locations_of n db)"
    using assms(4) by (rule view_Some)
  have st: "v_status v = status_map (locations_of n db)" and dr: "v_draft v = draft r" by (simp_all add: v view_of_def)
  show ?thesis
  proof (cases "v_status v loc = None \<or> v_draft v")
    case True
    then have "report_spec (now e) loc s v = None" by (auto simp: report_spec_def split: option.split)
    moreover have "put_job e (report n loc) d db = (Inl Http404, db)"
      using True report_missing [OF assms(3) run] st dr by (auto simp: status_map_None)
    ultimately show ?thesis by simp
  next
    case False
    then obtain a where a: "v_status v loc = Some a" and nd: "\<not> draft r" using dr by auto
    then obtain l where l: "l \<in> set (tbl_run_location db)" "test_run l = n" "location l = loc" "status l = a"
      using status_map_Some [OF locations_distinct [OF assms(3)], of n loc a] st by (auto simp: locations_of_def)
    have put: "put_job e (report n loc) d db =
        (if s = a \<or> status_edge a s then (Inr (assign_data d l), after_save (now e) (assign_data d l) db)
         else (Inl (ValidationError (invalid_status_message a s)), db))"
      using put_job_accepts_all [OF assms(1-3) find_visible [OF assms(3) l(1,2) run nd] assms(6)] assms(5) l(3,4)
      by simp
    show ?thesis
    proof (cases "s = a \<or> status_edge a s")
      case False
      with put a dr nd show ?thesis by (simp add: report_spec_def)
    next
      case True
      let ?l = "assign_data d l" and ?db = "after_save (now e) (assign_data d l) db"
      let ?f = "\<lambda>x. if x = loc then Some s
        else if s = FAILED then map_option fail_other (v_status v x) else v_status v x"
      have l': "pk ?l = pk l" "test_run ?l = n" "location ?l = location l" "status ?l = s"
        using l(2) assms(5,6) by simp_all
      note after = view_after_save [OF assms(3) l(1,2) run l', where t = "now e"]
      have f: "status_map (locations_of n ?db) = ?f" using after(2) l(3) st by (simp add: fun_eq_iff)
      have ok: "put_job e (report n loc) d db = (Inr ?l, ?db)" using put True by simp
      have wf': "wf_db ?db" using put_job_result [OF assms(1-3) ok] by blast
      have every: "every b (v\<lparr>v_status := ?f\<rparr>) \<longleftrightarrow> all_in b n ?db" for b
        using f by (intro every_all_in [OF wf']) simp
      have nr: "name r = n" using find_run_row [OF run] by simp
      let ?v = "v\<lparr>v_status := ?f\<rparr>"
      have "report_spec (now e) loc s v = Some
          (if s = READY \<and> every READY ?v \<and> v_started v = None
           then ?v\<lparr>v_started := Some (floor_second (now e + seconds 30))\<rparr>
           else if s = COMPLETED \<and> every COMPLETED ?v \<and> v_completed v = None
           then ?v\<lparr>v_completed := Some (floor_second (now e))\<rparr>
           else ?v)"
        using a dr nd True by (simp add: report_spec_def Let_def)
      also have "\<dots> = Some (view_of (run_after (now e) ?l ?db r) (locations_of n ?db))"
      proof -
        have "?v = view_of r (locations_of n ?db)" using v f by (rule view_of_status)
        moreover have "v_started v = started_at r" "v_completed v = completed_at r" by (simp_all add: v view_of_def)
        ultimately show ?thesis unfolding every using view_run_after l' nr by simp
      qed
      finally have "report_spec (now e) loc s v = Some (view_of (run_after (now e) ?l ?db r) (locations_of n ?db))" .
      with ok after(1,3) show ?thesis by simp
    qed
  qed
qed

text \<open>
  C5. The worker API implements the contract: for every stored run, location, status and time, a
  report of a status (with any other fields but the location) is refused by the code exactly
  when the contract refuses it, and then changes nothing; otherwise the run's view afterwards
  is the one the contract gives, and the views of all other runs are as before.
\<close>

theorem report_refines:
  assumes "fsm_lists e" and "fsm_moves e" and "wf_db db" and "view n db = Some v"
    and "d_status d = Some s" and "d_location d = None"
  shows "case report_spec (now e) loc s v of
      None \<Rightarrow> (\<exists>x. put_job e (report n loc) d db = (Inl x, db))
    | Some v' \<Rightarrow> (\<exists>l db'. put_job e (report n loc) d db = (Inr l, db') \<and> view n db' = Some v' \<and>
        (\<forall>m. m \<noteq> n \<longrightarrow> view m db' = view m db))"
  using assms by (rule report_refinement)

theorem report_refines_witness:
  "\<exists>l db'. put_job (sample_env 0) (report ''shop-a1'' ''us'') (status_only FAILED) (sample_db False COMPLETED RUNNING) = (Inr l, db') \<and>
    view ''shop-a1'' db' =
      report_spec 0 ''us'' FAILED (view_of (sample_run False) [sample_row 4 ''eu'' 2 COMPLETED, sample_row 5 ''us'' 3 RUNNING])"
proof -
  let ?v = "view_of (sample_run False) [sample_row 4 ''eu'' 2 COMPLETED, sample_row 5 ''us'' 3 RUNNING]"
  have "find_run ''shop-a1'' (sample_db False COMPLETED RUNNING) = Some (sample_run False)"
    "locations_of ''shop-a1'' (sample_db False COMPLETED RUNNING) =
      [sample_row 4 ''eu'' 2 COMPLETED, sample_row 5 ''us'' 3 RUNNING]"
    by code_simp+
  then have v: "view ''shop-a1'' (sample_db False COMPLETED RUNNING) = Some ?v" by (simp add: view_def)
  have "report_spec (now (sample_env 0)) ''us'' FAILED ?v \<noteq> None"
    by (simp add: report_spec_def view_of_def status_map_def sample_defs)
  moreover have "now (sample_env 0) = 0" by (simp add: sample_env_def)
  ultimately show ?thesis
    using report_refines [OF sample_env_laws(2) [of 0] sample_env_laws(3) [of 0] sample_db_wf v
        status_only_fields(2) [of FAILED] status_only_fields(1) [of FAILED], where loc = "''us''"]
    by (auto split: option.splits)
qed

text \<open>
  \<open>TestRun.cancel\<close> implements canceling: it cannot fail, whatever the message, the view of the
  run afterwards has canceled what had not ended, and all other views are as before.
\<close>

theorem cancel_refines:
  assumes "fsm_moves e" and "wf_db db"
  shows "\<exists>db'. cancel_run e message r db = (Inr (), db') \<and>
    view (name r) db' = map_option cancel_spec (view (name r) db) \<and>
    (\<forall>m. m \<noteq> name r \<longrightarrow> view m db' = view m db)"
proof -
  let ?g = "cancel_row (name r) message"
  let ?db = "update_run_locations ?g db"
  have locs: "locations_of m ?db = map ?g (locations_of m db)" for m
    by (rule locations_of_map) (simp_all add: update_run_locations_def)
  have runs: "find_run m ?db = find_run m db" for m by (simp add: find_run_def)
  have "status_map (locations_of (name r) ?db) x =
      map_option (\<lambda>s. if ended s then s else CANCELED) (status_map (locations_of (name r) db) x)" for x
    unfolding locs
    by (rule status_map_map [where h = "\<lambda>_ s. if ended s then s else CANCELED"])
      (simp add: cancel_row_def locations_of_def)
  then have "view (name r) ?db = map_option cancel_spec (view (name r) db)"
    by (cases "find_run (name r) db") (simp_all add: view_def runs view_of_def cancel_spec_def fun_eq_iff)
  moreover have "view m ?db = view m db" if "m \<noteq> name r" for m
  proof -
    have "map ?g (locations_of m db) = locations_of m db"
      using that by (intro map_idI) (simp add: cancel_row_def locations_of_def)
    then show ?thesis by (simp add: view_def locs runs)
  qed
  ultimately show ?thesis using cancel_run_eq [OF assms] by blast
qed

theorem cancel_refines_witness:
  "\<exists>db'. cancel_run (sample_env 0) None (sample_run False) (sample_db False COMPLETED RUNNING) = (Inr (), db') \<and>
    view ''shop-a1'' db' = map_option cancel_spec (view ''shop-a1'' (sample_db False COMPLETED RUNNING))"
proof -
  have "name (sample_run False) = ''shop-a1''" by (simp add: sample_run_def)
  with cancel_refines [OF sample_env_laws(3) [of 0] sample_db_wf [of False COMPLETED RUNNING], of None "sample_run False"]
  show ?thesis by auto
qed

section \<open>Sessions of reports\<close>

text \<open>
  The interface of a store of objects that are acted on one at a time: acting on one object
  does to it what the specification says (which may refuse) and nothing to the others. A
  session then does to each object what its own actions do.
\<close>

locale acting =
  fixes ok :: "'s \<Rightarrow> bool" and good :: "'r \<Rightarrow> bool" and look :: "'k \<Rightarrow> 's \<Rightarrow> 'v option"
    and act :: "'r \<Rightarrow> 'k \<Rightarrow> 's \<Rightarrow> 's" and spec :: "'r \<Rightarrow> 'v \<Rightarrow> 'v option"
  assumes act_ok: "ok s \<Longrightarrow> good r \<Longrightarrow> ok (act r k s)"
    and act_same: "ok s \<Longrightarrow> good r \<Longrightarrow> look k s = Some v \<Longrightarrow> look k (act r k s) = Some (the_default v (spec r v))"
    and act_other: "ok s \<Longrightarrow> good r \<Longrightarrow> m \<noteq> k \<Longrightarrow> look m (act r k s) = look m s"
begin

lemma session_ok: "ok s \<Longrightarrow> list_all (\<lambda>(r, k). good r) xs \<Longrightarrow> ok (fold (\<lambda>(r, k). act r k) xs s)"
  by (induction xs arbitrary: s) (auto simp: act_ok)

lemma session_simulates:
  "ok s \<Longrightarrow> list_all (\<lambda>(r, k). good r) xs \<Longrightarrow> look n s = Some v \<Longrightarrow>
     look n (fold (\<lambda>(r, k). act r k) xs s) =
       Some (fold (\<lambda>(r, k) v. the_default v (spec r v)) (filter (\<lambda>(r, k). k = n) xs) v)"
proof (induction xs arbitrary: s v)
  case (Cons x xs)
  obtain r k where x: "x = (r, k)" by (cases x)
  have s': "ok (act r k s)" using Cons.prems by (simp add: act_ok x)
  show ?case
  proof (cases "k = n")
    case True
    with Cons.prems have "look n (act r k s) = Some (the_default v (spec r v))" by (simp add: act_same x)
    from Cons.IH [OF s' _ this] Cons.prems True show ?thesis by (simp add: x)
  next
    case False
    with Cons.prems have "look n (act r k s) = Some v" by (simp add: act_other x)
    from Cons.IH [OF s' _ this] Cons.prems False show ?thesis by (simp add: x)
  qed
qed simp

lemma session_untouched:
  "ok s \<Longrightarrow> list_all (\<lambda>(r, k). good r \<and> k \<noteq> n) xs \<Longrightarrow> look n (fold (\<lambda>(r, k). act r k) xs s) = look n s"
  by (induction xs arbitrary: s) (auto simp: act_ok act_other)

end

text \<open>A worker's report: its world, the location and the status.\<close>

type_synonym status_report = "env \<times> string \<times> status"

definition lawful :: "status_report \<Rightarrow> bool" where
  "lawful rp = (case rp of (e, _, _) \<Rightarrow> fsm_lists e \<and> fsm_moves e)"

definition send :: "status_report \<Rightarrow> string \<Rightarrow> database \<Rightarrow> database" where
  "send rp n db = (case rp of (e, loc, s) \<Rightarrow> snd (put_job e (report n loc) (status_only s) db))"

definition sent_spec :: "status_report \<Rightarrow> run_view \<Rightarrow> run_view option" where
  "sent_spec rp v = (case rp of (e, loc, s) \<Rightarrow> report_spec (now e) loc s v)"

lemma send_ok:
  assumes "wf_db db" and "lawful rp"
  shows "wf_db (send rp n db)"
proof -
  obtain e loc s where rp: "rp = (e, loc, s)" by (cases rp)
  then have fsm: "fsm_lists e" "fsm_moves e" using assms(2) by (simp_all add: lawful_def)
  show ?thesis
  proof (rule put_job_cases [OF fsm assms(1), of "report n loc" "status_only s"])
    fix l
    assume "put_job e (report n loc) (status_only s) db = save_run_location e (assign_data (status_only s) l) db"
    then show ?thesis
      using wf_save_run_location [OF assms(1) prod.collapse [symmetric]] by (simp add: send_def rp)
  qed (simp_all add: send_def rp assms(1))
qed

lemma send_unknown:
  assumes "wf_db db" and "find_run n db = None"
  shows "send rp n db = db"
proof -
  have "\<not> has_name n (tbl_test_run db)" using assms(2) by (simp add: find_run_exists)
  then have "locations_of n db = []" by (rule wf_dangling(1) [OF assms(1)])
  then have "jobs_get_object (report n loc) db = (Inl Http404, db)" for loc
    by (auto simp: jobs_get_object_def report_def filter_empty_conv locations_of_def jobs_get_queryset_iff
        split: list.split)
  then show ?thesis by (simp add: send_def put_job_def bindp_def split: prod.split)
qed

interpretation rep: acting wf_db lawful view send sent_spec
proof
  fix db rp n v m
  assume wf: "wf_db db" and "lawful rp"
  then show "wf_db (send rp n db)" by (rule send_ok)
  obtain e loc s where rp: "rp = (e, loc, s)" by (cases rp)
  then have fsm: "fsm_lists e" "fsm_moves e" using \<open>lawful rp\<close> by (simp_all add: lawful_def)
  note refines = report_refinement [OF fsm wf _ status_only_fields(2) [of s] status_only_fields(1) [of s], of n _ loc]
  show "view n (send rp n db) = Some (the_default v (sent_spec rp v))" if "view n db = Some v"
    using refines [OF that] that by (auto simp: send_def sent_spec_def rp split: option.splits)
  show "view m (send rp n db) = view m db" if "m \<noteq> n"
  proof (cases "find_run n db")
    case None
    with send_unknown [OF wf] show ?thesis by simp
  next
    case (Some r)
    then have "view n db = Some (view_of r (locations_of n db))" by (simp add: view_def)
    from refines [OF this] \<open>m \<noteq> n\<close> show ?thesis
      by (auto simp: send_def rp split: option.splits)
  qed
qed

text \<open>
  C9. Sessions of reports refine the contract: after any list of reports, about any runs and
  locations, at any times, accepted or refused, the view of a run is the one the contract
  gives for the reports about that run alone, in their order.
\<close>

theorem report_sessions_refine:
  assumes "wf_db db" and "view n db = Some v" and "list_all (\<lambda>(rp, m). lawful rp) xs"
  shows "view n (fold (\<lambda>(rp, m). send rp m) xs db) =
    Some (fold (\<lambda>(rp, m) v. the_default v (sent_spec rp v)) (filter (\<lambda>(rp, m). m = n) xs) v)"
  using assms(1,3,2) by (rule rep.session_simulates)

theorem report_sessions_refine_witness:
  "view ''shop-a1'' (fold (\<lambda>(rp, m). send rp m)
      [((sample_env 0, ''eu'', READY), ''shop-a1''), ((sample_env 5, ''us'', READY), ''blog-b2''),
       ((sample_env 7, ''us'', READY), ''shop-a1'')] (sample_db False QUEUED QUEUED)) =
    Some \<lparr>v_draft = False, v_started = Some 30000000, v_completed = None,
      v_status = (\<lambda>x. if x = ''us'' then Some READY else if x = ''eu'' then Some READY else None)\<rparr>"
proof -
  let ?xs = "[((sample_env 0, ''eu'', READY), ''shop-a1''), ((sample_env 5, ''us'', READY), ''blog-b2''),
       ((sample_env 7, ''us'', READY), ''shop-a1'')]"
  let ?v = "view_of (sample_run False) [sample_row 4 ''eu'' 2 QUEUED, sample_row 5 ''us'' 3 QUEUED]"
  have "find_run ''shop-a1'' (sample_db False QUEUED QUEUED) = Some (sample_run False)"
    "locations_of ''shop-a1'' (sample_db False QUEUED QUEUED) =
      [sample_row 4 ''eu'' 2 QUEUED, sample_row 5 ''us'' 3 QUEUED]"
    by code_simp+
  then have v: "view ''shop-a1'' (sample_db False QUEUED QUEUED) = Some ?v" by (simp add: view_def)
  have ok: "list_all (\<lambda>(rp, m). lawful rp) ?xs" by (simp add: lawful_def sample_env_laws)
  show ?thesis
    unfolding report_sessions_refine [OF sample_db_wf v ok]
    by (auto simp: sent_spec_def report_spec_def view_of_def status_map_def every_def ran_def sample_defs
        sample_env_def clock_defs fun_eq_iff Let_def split: if_splits)
qed

end
