(* ===== verification/Schema.thy ===== *)
theory Schema
  imports PyText
begin

text \<open>
  Migration files as data, and what running them means. A field is its class with its keyword
  arguments, an operation one entry of a file's \<open>operations\<close>, a migration the class in the file.
  The operations are Django's: the locale \<open>schema_editor\<close> states what its documentation says
  they do to the columns, and \<open>dict_editor\<close> is one editor for which all of it holds.
\<close>

section \<open>Migration files\<close>

datatype field_class =
  AutoField | DateTimeField | SlugField | CharField | URLField | TextField | BooleanField
  | PositiveSmallIntegerField | FSMField | ForeignKey

text \<open>
  The value of a keyword argument: a constant, the pairs of \<open>choices\<close>, the sets of
  \<open>unique_together\<close>, or a reference to a function or constant of Python by its name.
\<close>

datatype arg =
  Flag bool | Num nat | Str string | Choices "(string \<times> string) list"
  | Together "string list list" | Ref string

type_synonym kwargs = "(string \<times> arg) list"

datatype field = Field (f_class: field_class) (f_args: kwargs)

type_synonym columns = "string \<rightharpoonup> field"

datatype operation =
  CreateModel string "(string \<times> field) list" kwargs
  | AddField string string field
  | AlterField string string field
  | RenameField string string string
  | RunPython string

record migration =
  m_name :: string
  m_initial :: bool
  m_replaces :: "(string \<times> string) list"
  m_dependencies :: "(string \<times> string) list"
  m_operations :: "operation list"

text \<open>The name of a model is not case-sensitive in an operation that refers to it.\<close>

definition lower_char :: "char \<Rightarrow> char" where
  "lower_char c = (let n = of_char c :: nat in if 65 \<le> n \<and> n \<le> 90 then char_of (n + 32) else c)"

definition lower :: "string \<Rightarrow> string" where
  "lower = map lower_char"

section \<open>The editor of the schema\<close>

record 's editor =
  e_empty :: 's
  e_create_model :: "string \<Rightarrow> (string \<times> field) list \<Rightarrow> kwargs \<Rightarrow> 's \<Rightarrow> 's"
  e_add_field :: "string \<Rightarrow> string \<Rightarrow> field \<Rightarrow> 's \<Rightarrow> 's"
  e_alter_field :: "string \<Rightarrow> string \<Rightarrow> field \<Rightarrow> 's \<Rightarrow> 's"
  e_rename_field :: "string \<Rightarrow> string \<Rightarrow> string \<Rightarrow> 's \<Rightarrow> 's"
  e_run_python :: "string \<Rightarrow> 's \<Rightarrow> 's"

fun apply_op :: "'s editor \<Rightarrow> operation \<Rightarrow> 's \<Rightarrow> 's" where
  "apply_op ed (CreateModel m fs opts) s = e_create_model ed m fs opts s"
| "apply_op ed (AddField m f d) s = e_add_field ed m f d s"
| "apply_op ed (AlterField m f d) s = e_alter_field ed m f d s"
| "apply_op ed (RenameField m old new) s = e_rename_field ed m old new s"
| "apply_op ed (RunPython p) s = e_run_python ed p s"

definition migrate :: "'s editor \<Rightarrow> operation list \<Rightarrow> 's \<Rightarrow> 's" where
  "migrate ed ops s = fold (apply_op ed) ops s"

lemma migrate_simps [simp]:
  "migrate ed [] s = s" "migrate ed (x # xs) s = migrate ed xs (apply_op ed x s)"
  by (simp_all add: migrate_def)

lemma migrate_append: "migrate ed (xs @ ys) s = migrate ed ys (migrate ed xs s)"
  by (simp add: migrate_def)

text \<open>
  When an operation applies. A foreign key refers to a unique field of a model that exists, a
  new model or field is new, a changed or renamed field exists.
\<close>

definition refers_to :: "(string \<Rightarrow> columns option) \<Rightarrow> field \<Rightarrow> bool" where
  "refers_to cols d \<longleftrightarrow> f_class d \<noteq> ForeignKey \<or>
     (case (map_of (f_args d) ''to'', map_of (f_args d) ''to_field'') of
        (Some (Str m), Some (Str f)) \<Rightarrow>
          take 9 m = ''loadtest.'' \<and>
          (case cols (drop 9 m) of None \<Rightarrow> False
           | Some c \<Rightarrow> (case c f of None \<Rightarrow> False | Some t \<Rightarrow> map_of (f_args t) ''unique'' = Some (Flag True)))
      | _ \<Rightarrow> False)"

fun op_ok :: "(string \<Rightarrow> columns option) \<Rightarrow> operation \<Rightarrow> bool" where
  "op_ok cols (CreateModel m fs opts) =
     (cols m = None \<and> distinct (map fst fs) \<and> list_all (\<lambda>(_, d). refers_to cols d) fs)"
| "op_ok cols (AddField m f d) =
     (case cols m of None \<Rightarrow> False | Some c \<Rightarrow> c f = None \<and> refers_to cols d)"
| "op_ok cols (AlterField m f d) =
     (case cols m of None \<Rightarrow> False | Some c \<Rightarrow> c f \<noteq> None \<and> refers_to cols d)"
| "op_ok cols (RenameField m old new) =
     (case cols m of None \<Rightarrow> False | Some c \<Rightarrow> c old \<noteq> None \<and> c new = None)"
| "op_ok cols (RunPython p) = True"

fun ops_ok :: "'s editor \<Rightarrow> ('s \<Rightarrow> string \<Rightarrow> columns option) \<Rightarrow> operation list \<Rightarrow> 's \<Rightarrow> bool" where
  "ops_ok ed cols [] s = True"
| "ops_ok ed cols (x # xs) s = (op_ok (cols s) x \<and> ops_ok ed cols xs (apply_op ed x s))"

text \<open>What an operation that applies does to the columns.\<close>

fun op_effect :: "operation \<Rightarrow> (string \<Rightarrow> columns option) \<Rightarrow> string \<Rightarrow> columns option" where
  "op_effect (CreateModel m fs opts) cols =
     (\<lambda>x. if lower x = lower m then Some (map_of fs) else cols x)"
| "op_effect (AddField m f d) cols =
     (\<lambda>x. if lower x = lower m then map_option (\<lambda>c. c(f \<mapsto> d)) (cols x) else cols x)"
| "op_effect (AlterField m f d) cols =
     (\<lambda>x. if lower x = lower m then map_option (\<lambda>c. c(f \<mapsto> d)) (cols x) else cols x)"
| "op_effect (RenameField m old new) cols =
     (\<lambda>x. if lower x = lower m then map_option (\<lambda>c. (c(new := c old))(old := None)) (cols x) else cols x)"
| "op_effect (RunPython p) cols = cols"

locale schema_editor =
  fixes ed :: "'s editor"
    and cols :: "'s \<Rightarrow> string \<Rightarrow> columns option"
  assumes start: "cols (e_empty ed) x = None"
    and created: "op_ok (cols s) (CreateModel m fs opts) \<Longrightarrow>
      cols (e_create_model ed m fs opts s) = op_effect (CreateModel m fs opts) (cols s)"
    and added: "op_ok (cols s) (AddField m f d) \<Longrightarrow>
      cols (e_add_field ed m f d s) = op_effect (AddField m f d) (cols s)"
    and altered: "op_ok (cols s) (AlterField m f d) \<Longrightarrow>
      cols (e_alter_field ed m f d s) = op_effect (AlterField m f d) (cols s)"
    and renamed: "op_ok (cols s) (RenameField m old new) \<Longrightarrow>
      cols (e_rename_field ed m old new s) = op_effect (RenameField m old new) (cols s)"
    and python_run: "cols (e_run_python ed p s) = cols s"
begin

lemma apply_op_effect: "op_ok (cols s) x \<Longrightarrow> cols (apply_op ed x s) = op_effect x (cols s)"
  using created added altered renamed python_run by (cases x) simp_all

lemma ops_ok_append: "ops_ok ed cols (xs @ ys) s \<longleftrightarrow> ops_ok ed cols xs s \<and> ops_ok ed cols ys (migrate ed xs s)"
  by (induction xs arbitrary: s) simp_all

lemma migrate_effect:
  "ops_ok ed cols xs s \<Longrightarrow> cols (migrate ed xs s) = fold op_effect xs (cols s)"
  by (induction xs arbitrary: s) (simp_all add: apply_op_effect)

end

text \<open>The condition and the effect depend on the columns only, so any two editors agree.\<close>

lemma editors_agree:
  assumes "schema_editor ed cols" and "schema_editor ed' cols'" and "cols s = cols' s'"
    and "ops_ok ed' cols' xs s'"
  shows "ops_ok ed cols xs s \<and> cols (migrate ed xs s) = cols' (migrate ed' xs s')"
  using assms(3,4)
proof (induction xs arbitrary: s s')
  case (Cons x xs)
  then have "op_ok (cols s) x" "op_ok (cols' s') x" by simp_all
  then have "cols (apply_op ed x s) = cols' (apply_op ed' x s')"
    using schema_editor.apply_op_effect [OF assms(1)] schema_editor.apply_op_effect [OF assms(2)]
      Cons.prems(1) by simp
  with Cons show ?case by simp
qed simp

section \<open>An editor on lists\<close>

type_synonym dict = "(string \<times> (string \<times> field) list) list"

definition dict_columns :: "dict \<Rightarrow> string \<Rightarrow> columns option" where
  "dict_columns s m = map_option map_of (map_of s (lower m))"

definition set_key :: "string \<Rightarrow> 'a \<Rightarrow> (string \<times> 'a) list \<Rightarrow> (string \<times> 'a) list" where
  "set_key k v xs =
     (if k \<in> set (map fst xs) then map (\<lambda>(a, b). (a, if a = k then v else b)) xs else xs @ [(k, v)])"

definition change_model ::
  "string \<Rightarrow> ((string \<times> field) list \<Rightarrow> (string \<times> field) list) \<Rightarrow> dict \<Rightarrow> dict" where
  "change_model m g s = map (\<lambda>(a, b). (a, if a = lower m then g b else b)) s"

definition rename_key :: "string \<Rightarrow> string \<Rightarrow> (string \<times> 'a) list \<Rightarrow> (string \<times> 'a) list" where
  "rename_key old new xs = map (\<lambda>(a, b). (if a = old then new else a, b)) xs"

definition dict_editor :: "dict editor" where
  "dict_editor = \<lparr>
     e_empty = [],
     e_create_model = (\<lambda>m fs _ s. s @ [(lower m, fs)]),
     e_add_field = (\<lambda>m f d. change_model m (set_key f d)),
     e_alter_field = (\<lambda>m f d. change_model m (set_key f d)),
     e_rename_field = (\<lambda>m old new. change_model m (rename_key old new)),
     e_run_python = (\<lambda>_ s. s)\<rparr>"

lemma map_of_set_key: "map_of (set_key k v xs) = (map_of xs)(k \<mapsto> v)"
proof -
  have "map_of (map (\<lambda>(a, b). (a, if a = k then v else b)) xs) =
      (if k \<in> set (map fst xs) then (map_of xs)(k \<mapsto> v) else map_of xs)"
    by (induction xs) (auto simp: fun_eq_iff)
  moreover have "k \<notin> set (map fst xs) \<Longrightarrow> map_of (xs @ [(k, v)]) = (map_of xs)(k \<mapsto> v)"
    by (induction xs) (auto simp: fun_eq_iff)
  ultimately show ?thesis by (simp add: set_key_def)
qed

lemma map_of_rename_key:
  "map_of xs new = None \<Longrightarrow> old \<noteq> new \<Longrightarrow>
    map_of (rename_key old new xs) = ((map_of xs)(new := map_of xs old))(old := None)"
proof (induction xs)
  case Nil
  then show ?case by (simp add: rename_key_def fun_eq_iff)
next
  case (Cons p xs)
  obtain a b where p: "p = (a, b)" by (cases p)
  with Cons.prems have "a \<noteq> new" and "map_of xs new = None" by (simp_all split: if_splits)
  with Cons show ?case by (cases "a = old") (auto simp: p rename_key_def fun_eq_iff)
qed

lemma map_of_change_model:
  "map_of (change_model m g s) x = (if x = lower m then map_option g (map_of s x) else map_of s x)"
  by (induction s) (auto simp: change_model_def)

interpretation dict_ed: schema_editor dict_editor dict_columns
proof unfold_locales
  fix s m f old new d and fs :: "(string \<times> field) list" and opts :: kwargs and p x
  show "dict_columns (e_empty dict_editor) x = None"
    by (simp add: dict_editor_def dict_columns_def)
  show "dict_columns (e_run_python dict_editor p s) = dict_columns s"
    by (simp add: dict_editor_def)
  show "dict_columns (e_add_field dict_editor m f d s) = op_effect (AddField m f d) (dict_columns s)"
    "dict_columns (e_alter_field dict_editor m f d s) = op_effect (AlterField m f d) (dict_columns s)"
    by (auto simp: dict_editor_def dict_columns_def fun_eq_iff map_of_change_model map_of_set_key option.map_comp o_def)
  show "dict_columns (e_create_model dict_editor m fs opts s) = op_effect (CreateModel m fs opts) (dict_columns s)"
    if "op_ok (dict_columns s) (CreateModel m fs opts)"
    using that by (auto simp: dict_editor_def dict_columns_def fun_eq_iff map_add_def split: option.split)
  show "dict_columns (e_rename_field dict_editor m old new s) = op_effect (RenameField m old new) (dict_columns s)"
    if ok: "op_ok (dict_columns s) (RenameField m old new)"
  proof -
    have "old \<noteq> new" and "map_of fs new = None" if "map_of s (lower m) = Some fs" for fs
      using ok that by (auto simp: dict_columns_def)
    then have "map_of (rename_key old new fs) = ((map_of fs)(new := map_of fs old))(old := None)"
      if "map_of s (lower m) = Some fs" for fs
      using that by (intro map_of_rename_key) blast+
    then show ?thesis
      by (cases "map_of s (lower m)")
        (auto simp: dict_editor_def dict_columns_def map_of_change_model intro!: ext)
  qed
qed

end
