(* ===== verification/History.thy ===== *)
theory History
  imports Schema
begin

text \<open>
  The migrations of the application, one definition per file of loadtest/migrations: the first
  seven in the order they were written, the file that replaces them all for new installations
  (0001_initial_squashed_0007), and the one after it.
\<close>

text \<open>File 0001_initial.py.\<close>

definition m0001 :: migration where
  "m0001 = \<lparr>
     m_name = ''0001_initial'',
     m_initial = True,
     m_replaces = [],
     m_dependencies = [],
     m_operations = [
      CreateModel ''TestLocation''
       [(''id'', Field AutoField
          [(''editable'', Flag False), (''primary_key'', Flag True), (''serialize'', Flag False),
           (''unique'', Flag True)]),
        (''created_at'', Field DateTimeField
          [(''auto_now_add'', Flag True), (''db_default'', Ref ''Now''),
           (''verbose_name'', Str ''Created at'')]),
        (''updated_at'', Field DateTimeField
          [(''auto_now'', Flag True), (''db_default'', Ref ''Now''),
           (''verbose_name'', Str ''Updated at'')]),
        (''name'', Field SlugField [(''unique'', Flag True)]),
        (''display_name'', Field CharField [(''max_length'', Num 200)])]
       [(''verbose_name'', Str ''Test Location''), (''verbose_name_plural'', Str ''Test Locations''),
        (''db_table'', Str ''loadtest_location'')],
      CreateModel ''TestRun''
       [(''id'', Field AutoField
          [(''editable'', Flag False), (''primary_key'', Flag True), (''serialize'', Flag False),
           (''unique'', Flag True)]),
        (''created_at'', Field DateTimeField
          [(''auto_now_add'', Flag True), (''db_default'', Ref ''Now''),
           (''verbose_name'', Str ''Created at'')]),
        (''updated_at'', Field DateTimeField
          [(''auto_now'', Flag True), (''db_default'', Ref ''Now''),
           (''verbose_name'', Str ''Updated at'')]),
        (''name'', Field SlugField [(''unique'', Flag True)]),
        (''target'', Field URLField []),
        (''source_repo'', Field CharField
          [(''default'', Str ''github.com/ReviewSignal/k6-WordPress-benchmarks''),
           (''max_length'', Num 200), (''verbose_name'', Str ''Git repository'')]),
        (''source_ref'', Field CharField
          [(''default'', Str ''main''), (''max_length'', Num 200),
           (''verbose_name'', Str ''Git Reference'')]),
        (''source_script'', Field CharField
          [(''default'', Str ''loadtest.js''), (''max_length'', Num 200),
           (''verbose_name'', Str ''Test script file'')]),
        (''start_test_at'', Field DateTimeField
          [(''blank'', Flag True), (''editable'', Flag False), (''null'', Flag True),
           (''verbose_name'', Str ''Start test at'')]),
        (''resources_cpu'', Field CharField
          [(''default'', Str ''1''), (''max_length'', Num 16), (''verbose_name'', Str ''Per-worker CPU'')]),
        (''resources_memory'', Field CharField
          [(''default'', Str ''2G''), (''max_length'', Num 16),
           (''verbose_name'', Str ''Per-worker memory'')]),
        (''dedicated_nodes'', Field BooleanField [(''default'', Flag True), (''verbose_name'', Str ''Run each worker on a separate node'')]),
        (''node_selector'', Field CharField
          [(''blank'', Flag True),
           (''help_text'', Str ''Kubernetes node selector to use for worker pods (eg. 'cloud.google.com/gke-spot=true')''),
           (''max_length'', Num 200), (''verbose_name'', Str ''Node selector'')]),
        (''job_deadline'', Field CharField
          [(''default'', Str ''1h''),
           (''help_text'', Str ''This should take into test fetching docker images, synctonization time, and actual test run time.''),
           (''max_length'', Num 16), (''verbose_name'', Str ''Job deadline'')])]
       [(''verbose_name'', Str ''Test Run''), (''verbose_name_plural'', Str ''Test Runs''),
        (''db_table'', Str ''loadtest_test_run'')],
      CreateModel ''TestRunLocation''
       [(''id'', Field AutoField
          [(''editable'', Flag False), (''primary_key'', Flag True), (''serialize'', Flag False),
           (''unique'', Flag True)]),
        (''num_workers'', Field PositiveSmallIntegerField [(''default'', Num 1)]),
        (''online_workers'', Field PositiveSmallIntegerField [(''default'', Num 0)]),
        (''status'', Field FSMField
          [(''choices'', Choices [(''pending'', ''Pending''), (''queued'', ''Queued''), (''ready'', ''Ready''),
                (''running'', ''Running''), (''completed'', ''Completed''), (''failed'', ''Failed'')]),
           (''default'', Str ''pending''), (''max_length'', Num 50)]),
        (''status_description'', Field TextField [(''blank'', Flag True)]),
        (''location'', Field ForeignKey
          [(''db_column'', Str ''location''), (''on_delete'', Ref ''PROTECT''),
           (''related_name'', Str ''+''), (''to'', Str ''loadtest.testlocation''),
           (''to_field'', Str ''name'')]),
        (''test_run'', Field ForeignKey
          [(''db_column'', Str ''test_run''), (''on_delete'', Ref ''CASCADE''),
           (''related_name'', Str ''locations''), (''to'', Str ''loadtest.testrun''),
           (''to_field'', Str ''name'')])]
       [(''verbose_name'', Str ''Test Run Location''),
        (''verbose_name_plural'', Str ''Test Run Locations''),
        (''db_table'', Str ''loadtest_test_run_location''),
        (''unique_together'', Together [[''test_run'', ''location'']])]]\<rparr>"

text \<open>File 0002_testrun_draft_alter_testrun_dedicated_nodes_and_more.py.\<close>

definition m0002 :: migration where
  "m0002 = \<lparr>
     m_name = ''0002_testrun_draft_alter_testrun_dedicated_nodes_and_more'',
     m_initial = False,
     m_replaces = [],
     m_dependencies = [(''loadtest'', ''0001_initial'')],
     m_operations = [
      AddField ''testrun'' ''draft''
       (Field BooleanField [(''default'', Flag True), (''verbose_name'', Str ''Draft'')]),
      AlterField ''testrun'' ''dedicated_nodes''
       (Field BooleanField
          [(''default'', Flag True),
           (''help_text'', Str ''If enabled, each worker will run on a separate node (eg. separate VM). It's recommended to enable this option for more consistent results.''),
           (''verbose_name'', Str ''Run each worker on a separate node'')]),
      AlterField ''testrun'' ''job_deadline''
       (Field CharField
          [(''default'', Str ''1h''),
           (''help_text'', Str ''Time to allow workers to run. This should take into test fetching docker images, synctonization time, and actual test run time.''),
           (''max_length'', Num 16), (''verbose_name'', Str ''Job deadline'')]),
      AlterField ''testrun'' ''resources_cpu''
       (Field CharField
          [(''default'', Str ''1''),
           (''help_text'', Str ''Number of CPU cores to allocate for each worker.''),
           (''max_length'', Num 16), (''verbose_name'', Str ''Per-worker CPU'')]),
      AlterField ''testrun'' ''resources_memory''
       (Field CharField
          [(''default'', Str ''2G''), (''help_text'', Str ''Memory to allocate for each worker.''),
           (''max_length'', Num 16), (''verbose_name'', Str ''Per-worker memory'')]),
      AlterField ''testrun'' ''source_ref''
       (Field CharField
          [(''default'', Str ''main''),
           (''help_text'', Str ''Git reference to use when fetching the test script. It can be either a branch, a tag, or a commit hash.''),
           (''max_length'', Num 200), (''verbose_name'', Str ''Git Reference'')]),
      AlterField ''testrun'' ''source_repo''
       (Field CharField
          [(''default'', Str ''github.com/ReviewSignal/k6-WordPress-benchmarks''),
           (''help_text'', Str ''Git source repository to fetch the test script from.''),
           (''max_length'', Num 200), (''verbose_name'', Str ''Git repository'')]),
      AlterField ''testrun'' ''source_script''
       (Field CharField
          [(''default'', Str ''loadtest.js''),
           (''help_text'', Str ''Test script file, relative to the repository root.''),
           (''max_length'', Num 200), (''verbose_name'', Str ''Test script file'')]),
      AlterField ''testrun'' ''target''
       (Field URLField [(''help_text'', Str ''URL to test. It is passed to the test script as <code>TARGET</code> environment variable.'')])]\<rparr>"

text \<open>File 0003_testrunenvvar_testrunlabel.py.\<close>

definition m0003 :: migration where
  "m0003 = \<lparr>
     m_name = ''0003_testrunenvvar_testrunlabel'',
     m_initial = False,
     m_replaces = [],
     m_dependencies = [(''loadtest'', ''0002_testrun_draft_alter_testrun_dedicated_nodes_and_more'')],
     m_operations = [
      CreateModel ''TestRunEnvVar''
       [(''id'', Field AutoField
          [(''editable'', Flag False), (''primary_key'', Flag True), (''serialize'', Flag False),
           (''unique'', Flag True)]),
        (''name'', Field SlugField [(''help_text'', Str ''Environment variable name''), (''verbose_name'', Str ''Name'')]),
        (''value'', Field TextField [(''help_text'', Str ''Environment variable value''), (''verbose_name'', Str ''Value'')]),
        (''test_run'', Field ForeignKey
          [(''db_column'', Str ''test_run''), (''on_delete'', Ref ''CASCADE''),
           (''related_name'', Str ''env_vars''), (''to'', Str ''loadtest.testrun''),
           (''to_field'', Str ''name'')])]
       [(''abstract'', Flag False)],
      CreateModel ''TestRunLabel''
       [(''id'', Field AutoField
          [(''editable'', Flag False), (''primary_key'', Flag True), (''serialize'', Flag False),
           (''unique'', Flag True)]),
        (''name'', Field SlugField [(''help_text'', Str ''Environment variable name''), (''verbose_name'', Str ''Name'')]),
        (''value'', Field SlugField
          [(''help_text'', Str ''Environment variable value''), (''max_length'', Num 200),
           (''verbose_name'', Str ''Value'')]),
        (''test_run'', Field ForeignKey
          [(''db_column'', Str ''test_run''), (''on_delete'', Ref ''CASCADE''),
           (''related_name'', Str ''labels''), (''to'', Str ''loadtest.testrun''),
           (''to_field'', Str ''name'')])]
       [(''abstract'', Flag False)]]\<rparr>"

text \<open>File 0004_alter_testrunenvvar_value_and_more.py.\<close>

definition m0004 :: migration where
  "m0004 = \<lparr>
     m_name = ''0004_alter_testrunenvvar_value_and_more'',
     m_initial = False,
     m_replaces = [],
     m_dependencies = [(''loadtest'', ''0003_testrunenvvar_testrunlabel'')],
     m_operations = [
      AlterField ''testrunenvvar'' ''value''
       (Field TextField
          [(''blank'', Flag True), (''help_text'', Str ''Environment variable value''),
           (''verbose_name'', Str ''Value'')]),
      AlterField ''testrunlocation'' ''status''
       (Field FSMField
          [(''choices'', Choices [(''pending'', ''Pending''), (''queued'', ''Queued''), (''ready'', ''Ready''),
                (''running'', ''Running''), (''canceled'', ''Canceled''), (''completed'', ''Completed''),
                (''failed'', ''Failed'')]),
           (''default'', Str ''pending''), (''max_length'', Num 50)])]\<rparr>"

text \<open>File 0005_testoutputconfig_testrun_test_output.py.\<close>

definition m0005 :: migration where
  "m0005 = \<lparr>
     m_name = ''0005_testoutputconfig_testrun_test_output'',
     m_initial = False,
     m_replaces = [],
     m_dependencies = [(''loadtest'', ''0004_alter_testrunenvvar_value_and_more'')],
     m_operations = [
      CreateModel ''TestOutputConfig''
       [(''id'', Field AutoField
          [(''editable'', Flag False), (''primary_key'', Flag True), (''serialize'', Flag False),
           (''unique'', Flag True)]),
        (''created_at'', Field DateTimeField
          [(''auto_now_add'', Flag True), (''db_default'', Ref ''Now''),
           (''verbose_name'', Str ''Created at'')]),
        (''updated_at'', Field DateTimeField
          [(''auto_now'', Flag True), (''db_default'', Ref ''Now''),
           (''verbose_name'', Str ''Updated at'')]),
        (''name'', Field SlugField [(''unique'', Flag True)]),
        (''influxdb_url'', Field URLField [(''verbose_name'', Str ''InfluxDB Server URL'')]),
        (''influxdb_token'', Field CharField [(''max_length'', Num 200), (''verbose_name'', Str ''InfluxDB Token'')]),
        (''influxdb_org'', Field CharField
          [(''default'', Str ''default''), (''max_length'', Num 200),
           (''verbose_name'', Str ''InfluxDB Organization'')]),
        (''influxdb_bucket'', Field CharField
          [(''default'', Str ''default''), (''max_length'', Num 200),
           (''verbose_name'', Str ''InfluxDB Bucket'')]),
        (''insecure_skip_verify'', Field BooleanField
          [(''default'', Flag False),
           (''help_text'', Str ''Use TLS but skip chain & host verification''),
           (''verbose_name'', Str ''Skip TLS verification'')])]
       [(''verbose_name'', Str ''Test Output''), (''verbose_name_plural'', Str ''Test Outputs''),
        (''db_table'', Str ''loadtest_output'')],
      RunPython ''create_default_output'',
      AddField ''testrun'' ''test_output''
       (Field ForeignKey
          [(''db_column'', Str ''test_output''), (''default'', Ref ''TestOutputConfig.default''),
           (''help_text'', Str ''Influxdb configuration for storing test results.''),
           (''on_delete'', Ref ''PROTECT''), (''related_name'', Str ''+''),
           (''to'', Str ''loadtest.testoutputconfig''), (''to_field'', Str ''name''),
           (''verbose_name'', Str ''Test Output'')])]\<rparr>"

text \<open>File 0006_testlocation_last_ping.py.\<close>

definition m0006 :: migration where
  "m0006 = \<lparr>
     m_name = ''0006_testlocation_last_ping'',
     m_initial = False,
     m_replaces = [],
     m_dependencies = [(''loadtest'', ''0005_testoutputconfig_testrun_test_output'')],
     m_operations = [
      AddField ''testlocation'' ''last_ping''
       (Field DateTimeField
          [(''editable'', Flag False), (''null'', Flag True),
           (''verbose_name'', Str ''Location last checkin'')])]\<rparr>"

text \<open>File 0007_rename_testrun_start_test_at_testrun_completed_at_and_more.py.\<close>

definition m0007 :: migration where
  "m0007 = \<lparr>
     m_name = ''0007_rename_testrun_start_test_at_testrun_completed_at_and_more'',
     m_initial = False,
     m_replaces = [],
     m_dependencies = [(''loadtest'', ''0006_testlocation_last_ping'')],
     m_operations = [
      RenameField ''testrun'' ''start_test_at'' ''started_at'',
      AlterField ''testrun'' ''started_at''
       (Field DateTimeField
          [(''blank'', Flag True), (''editable'', Flag False), (''null'', Flag True),
           (''verbose_name'', Str ''Test started time'')]),
      AddField ''testrun'' ''completed_at''
       (Field DateTimeField
          [(''blank'', Flag True), (''editable'', Flag False), (''null'', Flag True),
           (''verbose_name'', Str ''Test completed time'')])]\<rparr>"

text \<open>
  File 0001_initial_squashed_0007_rename_testrun_start_test_at_testrun_completed_at_and_more.py.
\<close>

definition m0001_squashed :: migration where
  "m0001_squashed = \<lparr>
     m_name = ''0001_initial_squashed_0007_rename_testrun_start_test_at_testrun_completed_at_and_more'',
     m_initial = False,
     m_replaces = [(''loadtest'', ''0001_initial''),
                   (''loadtest'', ''0002_testrun_draft_alter_testrun_dedicated_nodes_and_more''),
                   (''loadtest'', ''0003_testrunenvvar_testrunlabel''),
                   (''loadtest'', ''0004_alter_testrunenvvar_value_and_more''),
                   (''loadtest'', ''0005_testoutputconfig_testrun_test_output''),
                   (''loadtest'', ''0006_testlocation_last_ping''),
                   (''loadtest'', ''0007_rename_testrun_start_test_at_testrun_completed_at_and_more'')],
     m_dependencies = [],
     m_operations = [
      CreateModel ''TestLocation''
       [(''id'', Field AutoField
          [(''editable'', Flag False), (''primary_key'', Flag True), (''serialize'', Flag False),
           (''unique'', Flag True)]),
        (''created_at'', Field DateTimeField
          [(''auto_now_add'', Flag True), (''db_default'', Ref ''Now''),
           (''verbose_name'', Str ''Created at'')]),
        (''updated_at'', Field DateTimeField
          [(''auto_now'', Flag True), (''db_default'', Ref ''Now''),
           (''verbose_name'', Str ''Updated at'')]),
        (''name'', Field SlugField [(''unique'', Flag True)]),
        (''display_name'', Field CharField [(''max_length'', Num 200)])]
       [(''verbose_name'', Str ''Test Location''), (''verbose_name_plural'', Str ''Test Locations''),
        (''db_table'', Str ''loadtest_location'')],
      CreateModel ''TestRun''
       [(''id'', Field AutoField
          [(''editable'', Flag False), (''primary_key'', Flag True), (''serialize'', Flag False),
           (''unique'', Flag True)]),
        (''created_at'', Field DateTimeField
          [(''auto_now_add'', Flag True), (''db_default'', Ref ''Now''),
           (''verbose_name'', Str ''Created at'')]),
        (''updated_at'', Field DateTimeField
          [(''auto_now'', Flag True), (''db_default'', Ref ''Now''),
           (''verbose_name'', Str ''Updated at'')]),
        (''name'', Field SlugField [(''unique'', Flag True)]),
        (''target'', Field URLField [(''help_text'', Str ''URL to test. It is passed to the test script as <code>TARGET</code> environment variable.'')]),
        (''source_repo'', Field CharField
          [(''default'', Str ''github.com/ReviewSignal/k6-WordPress-benchmarks''),
           (''help_text'', Str ''Git source repository to fetch the test script from.''),
           (''max_length'', Num 200), (''verbose_name'', Str ''Git repository'')]),
        (''source_ref'', Field CharField
          [(''default'', Str ''main''),
           (''help_text'', Str ''Git reference to use when fetching the test script. It can be either a branch, a tag, or a commit hash.''),
           (''max_length'', Num 200), (''verbose_name'', Str ''Git Reference'')]),
        (''source_script'', Field CharField
          [(''default'', Str ''loadtest.js''),
           (''help_text'', Str ''Test script file, relative to the repository root.''),
           (''max_length'', Num 200), (''verbose_name'', Str ''Test script file'')]),
        (''start_test_at'', Field DateTimeField
          [(''blank'', Flag True), (''editable'', Flag False), (''null'', Flag True),
           (''verbose_name'', Str ''Start test at'')]),
        (''resources_cpu'', Field CharField
          [(''default'', Str ''1''),
           (''help_text'', Str ''Number of CPU cores to allocate for each worker.''),
           (''max_length'', Num 16), (''verbose_name'', Str ''Per-worker CPU'')]),
        (''resources_memory'', Field CharField
          [(''default'', Str ''2G''), (''help_text'', Str ''Memory to allocate for each worker.''),
           (''max_length'', Num 16), (''verbose_name'', Str ''Per-worker memory'')]),
        (''dedicated_nodes'', Field BooleanField
          [(''default'', Flag True),
           (''help_text'', Str ''If enabled, each worker will run on a separate node (eg. separate VM). It's recommended to enable this option for more consistent results.''),
           (''verbose_name'', Str ''Run each worker on a separate node'')]),
        (''node_selector'', Field CharField
          [(''blank'', Flag True),
           (''help_text'', Str ''Kubernetes node selector to use for worker pods (eg. 'cloud.google.com/gke-spot=true')''),
           (''max_length'', Num 200), (''verbose_name'', Str ''Node selector'')]),
        (''job_deadline'', Field CharField
          [(''default'', Str ''1h''),
           (''help_text'', Str ''Time to allow workers to run. This should take into test fetching docker images, synctonization time, and actual test run time.''),
           (''max_length'', Num 16), (''verbose_name'', Str ''Job deadline'')]),
        (''draft'', Field BooleanField [(''default'', Flag True), (''verbose_name'', Str ''Draft'')])]
       [(''verbose_name'', Str ''Test Run''), (''verbose_name_plural'', Str ''Test Runs''),
        (''db_table'', Str ''loadtest_test_run'')],
      CreateModel ''TestRunLabel''
       [(''id'', Field AutoField
          [(''editable'', Flag False), (''primary_key'', Flag True), (''serialize'', Flag False),
           (''unique'', Flag True)]),
        (''name'', Field SlugField [(''help_text'', Str ''Environment variable name''), (''verbose_name'', Str ''Name'')]),
        (''value'', Field SlugField
          [(''help_text'', Str ''Environment variable value''), (''max_length'', Num 200),
           (''verbose_name'', Str ''Value'')]),
        (''test_run'', Field ForeignKey
          [(''db_column'', Str ''test_run''), (''on_delete'', Ref ''CASCADE''),
           (''related_name'', Str ''labels''), (''to'', Str ''loadtest.testrun''),
           (''to_field'', Str ''name'')])]
       [(''abstract'', Flag False)],
      CreateModel ''TestRunEnvVar''
       [(''id'', Field AutoField
          [(''editable'', Flag False), (''primary_key'', Flag True), (''serialize'', Flag False),
           (''unique'', Flag True)]),
        (''name'', Field SlugField [(''help_text'', Str ''Environment variable name''), (''verbose_name'', Str ''Name'')]),
        (''value'', Field TextField
          [(''blank'', Flag True), (''help_text'', Str ''Environment variable value''),
           (''verbose_name'', Str ''Value'')]),
        (''test_run'', Field ForeignKey
          [(''db_column'', Str ''test_run''), (''on_delete'', Ref ''CASCADE''),
           (''related_name'', Str ''env_vars''), (''to'', Str ''loadtest.testrun''),
           (''to_field'', Str ''name'')])]
       [(''abstract'', Flag False)],
      CreateModel ''TestRunLocation''
       [(''id'', Field AutoField
          [(''editable'', Flag False), (''primary_key'', Flag True), (''serialize'', Flag False),
           (''unique'', Flag True)]),
        (''num_workers'', Field PositiveSmallIntegerField [(''default'', Num 1)]),
        (''online_workers'', Field PositiveSmallIntegerField [(''default'', Num 0)]),
        (''status'', Field FSMField
          [(''choices'', Choices [(''pending'', ''Pending''), (''queued'', ''Queued''), (''ready'', ''Ready''),
                (''running'', ''Running''), (''canceled'', ''Canceled''), (''completed'', ''Completed''),
                (''failed'', ''Failed'')]),
           (''default'', Str ''pending''), (''max_length'', Num 50)]),
        (''status_description'', Field TextField [(''blank'', Flag True)]),
        (''location'', Field ForeignKey
          [(''db_column'', Str ''location''), (''on_delete'', Ref ''PROTECT''),
           (''related_name'', Str ''+''), (''to'', Str ''loadtest.testlocation''),
           (''to_field'', Str ''name'')]),
        (''test_run'', Field ForeignKey
          [(''db_column'', Str ''test_run''), (''on_delete'', Ref ''CASCADE''),
           (''related_name'', Str ''locations''), (''to'', Str ''loadtest.testrun''),
           (''to_field'', Str ''name'')])]
       [(''verbose_name'', Str ''Test Run Location''),
        (''verbose_name_plural'', Str ''Test Run Locations''),
        (''db_table'', Str ''loadtest_test_run_location''),
        (''unique_together'', Together [[''test_run'', ''location'']])],
      CreateModel ''TestOutputConfig''
       [(''id'', Field AutoField
          [(''editable'', Flag False), (''primary_key'', Flag True), (''serialize'', Flag False),
           (''unique'', Flag True)]),
        (''created_at'', Field DateTimeField
          [(''auto_now_add'', Flag True), (''db_default'', Ref ''Now''),
           (''verbose_name'', Str ''Created at'')]),
        (''updated_at'', Field DateTimeField
          [(''auto_now'', Flag True), (''db_default'', Ref ''Now''),
           (''verbose_name'', Str ''Updated at'')]),
        (''name'', Field SlugField [(''unique'', Flag True)]),
        (''influxdb_url'', Field URLField [(''verbose_name'', Str ''InfluxDB Server URL'')]),
        (''influxdb_token'', Field CharField [(''max_length'', Num 200), (''verbose_name'', Str ''InfluxDB Token'')]),
        (''influxdb_org'', Field CharField
          [(''default'', Str ''default''), (''max_length'', Num 200),
           (''verbose_name'', Str ''InfluxDB Organization'')]),
        (''influxdb_bucket'', Field CharField
          [(''default'', Str ''default''), (''max_length'', Num 200),
           (''verbose_name'', Str ''InfluxDB Bucket'')]),
        (''insecure_skip_verify'', Field BooleanField
          [(''default'', Flag False),
           (''help_text'', Str ''Use TLS but skip chain & host verification''),
           (''verbose_name'', Str ''Skip TLS verification'')])]
       [(''verbose_name'', Str ''Test Output''), (''verbose_name_plural'', Str ''Test Outputs''),
        (''db_table'', Str ''loadtest_output'')],
      AddField ''testrun'' ''test_output''
       (Field ForeignKey
          [(''db_column'', Str ''test_output''), (''default'', Ref ''TestOutputConfig.default''),
           (''help_text'', Str ''Influxdb configuration for storing test results.''),
           (''on_delete'', Ref ''PROTECT''), (''related_name'', Str ''+''),
           (''to'', Str ''loadtest.testoutputconfig''), (''to_field'', Str ''name''),
           (''verbose_name'', Str ''Test Output'')]),
      AddField ''testlocation'' ''last_ping''
       (Field DateTimeField
          [(''editable'', Flag False), (''null'', Flag True),
           (''verbose_name'', Str ''Location last checkin'')]),
      RenameField ''testrun'' ''start_test_at'' ''started_at'',
      AlterField ''testrun'' ''started_at''
       (Field DateTimeField
          [(''blank'', Flag True), (''editable'', Flag False), (''null'', Flag True),
           (''verbose_name'', Str ''Test started time'')]),
      AddField ''testrun'' ''completed_at''
       (Field DateTimeField
          [(''blank'', Flag True), (''editable'', Flag False), (''null'', Flag True),
           (''verbose_name'', Str ''Test completed time'')])]\<rparr>"

text \<open>File 0008_auto_20241202_1722.py.\<close>

definition m0008 :: migration where
  "m0008 = \<lparr>
     m_name = ''0008_auto_20241202_1722'',
     m_initial = False,
     m_replaces = [],
     m_dependencies = [(''loadtest'', ''0001_initial_squashed_0007_rename_testrun_start_test_at_testrun_completed_at_and_more''),
                       (''contenttypes'', ''__latest__'')],
     m_operations = [
      RunPython ''add_role_permissions'']\<rparr>"

text \<open>The original files.\<close>

definition history :: "migration list" where
  "history = [m0001, m0002, m0003, m0004, m0005, m0006, m0007]"

end
