(* ===== verification/Declared.thy ===== *)
theory Declared
  imports Schema Models
begin

text \<open>
  The columns as loadtest/models.py declares them: per class the fields with their keyword
  arguments as written there (translated texts without the call of \<open>gettext_lazy\<close>, adjacent literals
  joined), the abstract base classes first.
\<close>

definition status_choices :: "(string \<times> string) list" where
  "status_choices = map (\<lambda>s. (status_value s, status_label s))
     [PENDING, QUEUED, READY, RUNNING, CANCELED, COMPLETED, FAILED]"

definition base_bare_fields :: "(string \<times> field) list" where
  "base_bare_fields =
     [(''id'', Field AutoField
        [(''primary_key'', Flag True), (''unique'', Flag True), (''editable'', Flag False)])]"

definition base_timestamped_fields :: "(string \<times> field) list" where
  "base_timestamped_fields =
     [(''created_at'', Field DateTimeField
        [(''auto_now_add'', Flag True), (''verbose_name'', Str ''Created at''),
         (''db_default'', Ref ''Now'')]),
      (''updated_at'', Field DateTimeField
        [(''auto_now'', Flag True), (''verbose_name'', Str ''Updated at''), (''db_default'', Ref ''Now'')])]"

definition base_named_fields :: "(string \<times> field) list" where
  "base_named_fields = base_bare_fields @ base_timestamped_fields @
     [(''name'', Field SlugField [(''unique'', Flag True)])]"

definition test_location_fields :: "(string \<times> field) list" where
  "test_location_fields = base_named_fields @
     [(''display_name'', Field CharField [(''max_length'', Num 200)]),
      (''last_ping'', Field DateTimeField
        [(''verbose_name'', Str ''Location last checkin''), (''editable'', Flag False),
         (''null'', Flag True)])]"

definition test_output_config_fields :: "(string \<times> field) list" where
  "test_output_config_fields = base_named_fields @
     [(''influxdb_url'', Field URLField [(''verbose_name'', Str ''InfluxDB Server URL'')]),
      (''influxdb_token'', Field CharField [(''max_length'', Num 200), (''verbose_name'', Str ''InfluxDB Token'')]),
      (''influxdb_org'', Field CharField
        [(''max_length'', Num 200), (''default'', Str ''default''),
         (''verbose_name'', Str ''InfluxDB Organization'')]),
      (''influxdb_bucket'', Field CharField
        [(''max_length'', Num 200), (''default'', Str ''default''),
         (''verbose_name'', Str ''InfluxDB Bucket'')]),
      (''insecure_skip_verify'', Field BooleanField
        [(''default'', Flag False), (''verbose_name'', Str ''Skip TLS verification''),
         (''help_text'', Str ''Use TLS but skip chain & host verification'')])]"

definition test_run_fields :: "(string \<times> field) list" where
  "test_run_fields = base_named_fields @
     [(''target'', Field URLField [(''help_text'', Str ''URL to test. It is passed to the test script as <code>TARGET</code> environment variable.'')]),
      (''test_output'', Field ForeignKey
        [(''to'', Str ''loadtest.testoutputconfig''), (''null'', Flag False),
         (''default'', Ref ''TestOutputConfig.default''), (''to_field'', Str ''name''),
         (''on_delete'', Ref ''PROTECT''), (''related_name'', Str ''+''),
         (''db_column'', Str ''test_output''), (''verbose_name'', Str ''Test Output''),
         (''help_text'', Str ''Influxdb configuration for storing test results.'')]),
      (''source_repo'', Field CharField
        [(''default'', Str default_repo), (''max_length'', Num 200),
         (''verbose_name'', Str ''Git repository''),
         (''help_text'', Str ''Git source repository to fetch the test script from.'')]),
      (''source_ref'', Field CharField
        [(''default'', Str ''main''), (''max_length'', Num 200),
         (''verbose_name'', Str ''Git Reference''),
         (''help_text'', Str ''Git reference to use when fetching the test script. It can be either a branch, a tag, or a commit hash.'')]),
      (''source_script'', Field CharField
        [(''default'', Str ''loadtest.js''), (''max_length'', Num 200),
         (''verbose_name'', Str ''Test script file''),
         (''help_text'', Str ''Test script file, relative to the repository root.'')]),
      (''started_at'', Field DateTimeField
        [(''null'', Flag True), (''blank'', Flag True), (''verbose_name'', Str ''Test started time''),
         (''editable'', Flag False)]),
      (''completed_at'', Field DateTimeField
        [(''null'', Flag True), (''blank'', Flag True), (''verbose_name'', Str ''Test completed time''),
         (''editable'', Flag False)]),
      (''resources_cpu'', Field CharField
        [(''default'', Str ''1''), (''max_length'', Num 16), (''verbose_name'', Str ''Per-worker CPU''),
         (''help_text'', Str ''Number of CPU cores to allocate for each worker.'')]),
      (''resources_memory'', Field CharField
        [(''default'', Str ''2G''), (''max_length'', Num 16),
         (''verbose_name'', Str ''Per-worker memory''),
         (''help_text'', Str ''Memory to allocate for each worker.'')]),
      (''dedicated_nodes'', Field BooleanField
        [(''default'', Flag True), (''verbose_name'', Str ''Run each worker on a separate node''),
         (''help_text'', Str ''If enabled, each worker will run on a separate node (eg. separate VM). It's recommended to enable this option for more consistent results.'')]),
      (''node_selector'', Field CharField
        [(''blank'', Flag True), (''max_length'', Num 200), (''verbose_name'', Str ''Node selector''),
         (''help_text'', Str ''Kubernetes node selector to use for worker pods (eg. 'cloud.google.com/gke-spot=true')'')]),
      (''job_deadline'', Field CharField
        [(''default'', Str ''1h''), (''max_length'', Num 16), (''verbose_name'', Str ''Job deadline''),
         (''help_text'', Str ''Time to allow workers to run. This should take into test fetching docker images, synctonization time, and actual test run time. Use Golang duration format (https://pkg.go.dev/time#Duration).''),
         (''validators'', Ref ''validate_duration'')]),
      (''draft'', Field BooleanField [(''default'', Flag True), (''verbose_name'', Str ''Draft'')])]"

definition test_run_label_fields :: "(string \<times> field) list" where
  "test_run_label_fields = base_bare_fields @
     [(''name'', Field SlugField [(''verbose_name'', Str ''Name''), (''help_text'', Str ''Environment variable name'')]),
      (''value'', Field SlugField
        [(''max_length'', Num 200), (''verbose_name'', Str ''Value''),
         (''help_text'', Str ''Environment variable value'')]),
      (''test_run'', Field ForeignKey
        [(''to'', Str ''loadtest.testrun''), (''to_field'', Str ''name''),
         (''on_delete'', Ref ''CASCADE''), (''related_name'', Str ''labels''),
         (''db_column'', Str ''test_run'')])]"

definition test_run_env_var_fields :: "(string \<times> field) list" where
  "test_run_env_var_fields = base_bare_fields @
     [(''name'', Field SlugField [(''verbose_name'', Str ''Name''), (''help_text'', Str ''Environment variable name'')]),
      (''value'', Field TextField
        [(''blank'', Flag True), (''verbose_name'', Str ''Value''),
         (''help_text'', Str ''Environment variable value'')]),
      (''test_run'', Field ForeignKey
        [(''to'', Str ''loadtest.testrun''), (''to_field'', Str ''name''),
         (''on_delete'', Ref ''CASCADE''), (''related_name'', Str ''env_vars''),
         (''db_column'', Str ''test_run'')])]"

definition test_run_location_fields :: "(string \<times> field) list" where
  "test_run_location_fields = base_bare_fields @
     [(''test_run'', Field ForeignKey
        [(''to'', Str ''loadtest.testrun''), (''to_field'', Str ''name''),
         (''on_delete'', Ref ''CASCADE''), (''related_name'', Str ''locations''),
         (''db_column'', Str ''test_run'')]),
      (''location'', Field ForeignKey
        [(''to'', Str ''loadtest.testlocation''), (''to_field'', Str ''name''),
         (''on_delete'', Ref ''PROTECT''), (''related_name'', Str ''+''),
         (''db_column'', Str ''location'')]),
      (''num_workers'', Field PositiveSmallIntegerField [(''default'', Num 1)]),
      (''online_workers'', Field PositiveSmallIntegerField [(''default'', Num 0)]),
      (''status'', Field FSMField [(''default'', Str (status_value PENDING)), (''choices'', Choices status_choices)]),
      (''status_description'', Field TextField [(''blank'', Flag True)])]"

definition declared_models :: dict where
  "declared_models =
     [(''testlocation'', test_location_fields), (''testoutputconfig'', test_output_config_fields),
      (''testrun'', test_run_fields), (''testrunlabel'', test_run_label_fields),
      (''testrunenvvar'', test_run_env_var_fields), (''testrunlocation'', test_run_location_fields)]"

section \<open>Comparing a declared field with a migrated one\<close>

text \<open>
  Keyword arguments are compared without their order. An argument that only repeats Django's
  default does not count, nor do the two that Django and django-fsm add by themselves:
  \<open>serialize\<close> of a primary key and the length of a state field.
\<close>

definition counts :: "field_class \<Rightarrow> string \<times> arg \<Rightarrow> bool" where
  "counts c a \<longleftrightarrow> fst a \<noteq> ''serialize'' \<and> a \<notin> {(''null'', Flag False), (''blank'', Flag False)} \<and>
     \<not> (c = FSMField \<and> fst a = ''max_length'')"

definition same_field :: "field \<Rightarrow> field \<Rightarrow> bool" where
  "same_field a b \<longleftrightarrow> f_class a = f_class b \<and>
     set (filter (counts (f_class a)) (f_args a)) = set (filter (counts (f_class b)) (f_args b))"

definition field_of :: "columns option \<Rightarrow> string \<Rightarrow> field option" where
  "field_of c f = (case c of None \<Rightarrow> None | Some d \<Rightarrow> d f)"

text \<open>A field the next run of \<open>makemigrations\<close> would find added, removed or changed.\<close>

definition differs :: "field option \<Rightarrow> field option \<Rightarrow> bool" where
  "differs x y = (case (x, y) of
     (None, None) \<Rightarrow> False | (Some a, Some b) \<Rightarrow> \<not> same_field a b | _ \<Rightarrow> True)"

definition drifted :: "(string \<Rightarrow> columns option) \<Rightarrow> (string \<Rightarrow> columns option) \<Rightarrow> string \<Rightarrow> string \<Rightarrow> bool" where
  "drifted cols decl m f = differs (field_of (cols m) f) (field_of (decl m) f)"

text \<open>On lists the drifted fields can be listed.\<close>

fun drift_fields :: "(string \<times> field) list \<Rightarrow> (string \<times> field) list \<Rightarrow> string list" where
  "drift_fields [] gs = map fst gs"
| "drift_fields ((f, d) # fs) gs =
     (if differs (Some d) (map_of gs f) then [f] else []) @ drift_fields fs (filter (\<lambda>g. fst g \<noteq> f) gs)"

fun drift :: "dict \<Rightarrow> dict \<Rightarrow> (string \<times> string) list" where
  "drift [] t = concat (map (\<lambda>(m, gs). map (\<lambda>g. (m, fst g)) gs) t)"
| "drift ((m, fs) # s) t =
     map (Pair m) (drift_fields fs (case map_of t m of None \<Rightarrow> [] | Some gs \<Rightarrow> gs)) @
     drift s (filter (\<lambda>x. fst x \<noteq> m) t)"

definition plain :: "dict \<Rightarrow> bool" where
  "plain s \<longleftrightarrow> distinct (map fst s) \<and> list_all (\<lambda>(_, fs). distinct (map fst fs)) s"

lemma map_of_without: "map_of (filter (\<lambda>g. fst g \<noteq> k) xs) x = (if x = k then None else map_of xs x)"
  by (induction xs) auto

lemma differs_None [simp]: "differs None y \<longleftrightarrow> y \<noteq> None" "differs x None \<longleftrightarrow> x \<noteq> None"
  by (auto simp: differs_def split: option.split)

lemma drift_fields_iff:
  "distinct (map fst fs) \<Longrightarrow> f \<in> set (drift_fields fs gs) \<longleftrightarrow> differs (map_of fs f) (map_of gs f)"
proof (induction fs arbitrary: gs)
  case Nil
  then show ?case by (auto simp: map_of_eq_None_iff)
next
  case (Cons p fs)
  obtain g d where p: "p = (g, d)" by (cases p)
  with Cons.prems have "map_of fs g = None" by (simp add: map_of_eq_None_iff)
  with Cons p show ?case by (auto simp: map_of_without)
qed

lemma in_drift_iff:
  "plain s \<Longrightarrow> distinct (map fst t) \<Longrightarrow> (m, f) \<in> set (drift s t) \<longleftrightarrow>
    differs (field_of (map_option map_of (map_of s m)) f) (field_of (map_option map_of (map_of t m)) f)"
proof (induction s arbitrary: t)
  case Nil
  have "(m, f) \<in> set (drift [] t) \<longleftrightarrow> (\<exists>gs. (m, gs) \<in> set t \<and> f \<in> set (map fst gs))"
    by force
  also have "\<dots> \<longleftrightarrow> (\<exists>gs. map_of t m = Some gs \<and> map_of gs f \<noteq> None)"
    using Nil(2) by (simp add: map_of_eq_Some_iff map_of_eq_None_iff)
  finally show ?case by (cases "map_of t m") (simp_all add: field_of_def)
next
  case (Cons p s)
  obtain n fs where p: "p = (n, fs)" by (cases p)
  have s: "plain s" and fs: "distinct (map fst fs)" and n: "map_of s n = None"
    using Cons.prems(1) by (auto simp: plain_def p map_of_eq_None_iff)
  have t: "distinct (map fst (filter (\<lambda>x. fst x \<noteq> n) t))"
    using Cons.prems(2) by (simp add: distinct_map inj_on_def)
  show ?case
    using Cons.IH [OF s t] n drift_fields_iff [OF fs, of f]
    by (auto simp: p map_of_without field_of_def split: option.splits)
qed

lemma drift_iff:
  assumes "plain s" and "distinct (map fst t)"
  shows "drifted (dict_columns s) (dict_columns t) m f \<longleftrightarrow> (lower m, f) \<in> set (drift s t)"
  by (simp add: in_drift_iff [OF assms] drifted_def dict_columns_def)

end
