(* ===== verification/Migrations.thy ===== *)
theory Migrations
  imports History Declared Runs
begin

text \<open>
  What the migration files do together: the seven original files can run in one order only, they
  and the file that replaces them lead to the same columns, and how these compare with the
  declarations of the models. Last the data step of 0005.
\<close>

section \<open>The order of the files\<close>

definition all_ops :: "migration list \<Rightarrow> operation list" where
  "all_ops ms = concat (map m_operations ms)"

text \<open>A migration may run when the migrations of the application it depends on have run.\<close>

definition ready_to_run :: "string list \<Rightarrow> migration \<Rightarrow> bool" where
  "ready_to_run past m \<longleftrightarrow> list_all (\<lambda>(app, d). app = ''loadtest'' \<longrightarrow> d \<in> set past) (m_dependencies m)"

fun in_order :: "string list \<Rightarrow> migration list \<Rightarrow> bool" where
  "in_order past [] = True"
| "in_order past (m # ms) = (ready_to_run past m \<and> in_order (past @ [m_name m]) ms)"

text \<open>At every point only the next migration of a chain may run.\<close>

fun chain :: "string list \<Rightarrow> migration list \<Rightarrow> bool" where
  "chain past [] = True"
| "chain past (m # ms) = (list_all (\<lambda>x. \<not> ready_to_run past x) ms \<and> chain (past @ [m_name m]) ms)"

lemma chain_unique: "chain past hs \<Longrightarrow> in_order past ms \<Longrightarrow> mset ms = mset hs \<Longrightarrow> ms = hs"
proof (induction hs arbitrary: past ms)
  case (Cons h hs)
  from Cons.prems(3) obtain m ms' where ms: "ms = m # ms'" by (cases ms) auto
  then have "m \<in> set (h # hs)" using Cons.prems(3) by (metis list.set_intros(1) set_mset_mset)
  moreover have "ready_to_run past m" using Cons.prems(2) ms by simp
  ultimately have "m = h" using Cons.prems(1) by (auto simp: list_all_iff)
  with Cons.IH [of "past @ [m_name h]" ms'] Cons.prems ms show ?case by simp
qed simp

lemma chain_history: "chain [] history"
  by code_simp

section \<open>Where the files lead\<close>

lemma history_ops_ok: "ops_ok dict_editor dict_columns (all_ops history) (e_empty dict_editor)"
  by code_simp

lemma squashed_ops_ok: "ops_ok dict_editor dict_columns (m_operations m0001_squashed) (e_empty dict_editor)"
  by code_simp

lemma same_tables:
  "set (migrate dict_editor (all_ops history) (e_empty dict_editor)) =
   set (migrate dict_editor (m_operations m0001_squashed) (e_empty dict_editor))"
  by code_simp

lemma distinct_tables:
  "distinct (map fst (migrate dict_editor (all_ops history) (e_empty dict_editor)))"
  "plain (migrate dict_editor (m_operations m0001_squashed) (e_empty dict_editor))"
  "distinct (map fst declared_models)"
  by code_simp+

lemma dict_same_columns:
  "dict_columns (migrate dict_editor (all_ops history) (e_empty dict_editor)) =
   dict_columns (migrate dict_editor (m_operations m0001_squashed) (e_empty dict_editor))"
proof -
  let ?s = "migrate dict_editor (all_ops history) (e_empty dict_editor)"
    and ?t = "migrate dict_editor (m_operations m0001_squashed) (e_empty dict_editor)"
  have "distinct (map fst ?s)" "distinct (map fst ?t)"
    using distinct_tables(1,2) by (simp_all add: plain_def)
  then have "map_of ?s = map_of ?t" using same_tables by (simp only: map_of_inject_set)
  then show ?thesis by (simp add: dict_columns_def fun_eq_iff)
qed

lemma empty_columns: "schema_editor ed cols \<Longrightarrow> cols (e_empty ed) = dict_columns (e_empty dict_editor)"
  by (rule ext) (simp add: schema_editor.start dict_ed.start)

text \<open>
  C32. However the seven original migrations are run, provided each runs after those it depends on,
  all their operations apply (a new model or field is new, a changed or renamed one exists, a
  foreign key points at a unique field that exists), all operations of the squashed migration
  apply as well, and both ways end with the same columns: an installation that upgraded step by
  step and a new one have the same tables. This holds for any schema editor that does what
  Django documents.
\<close>

theorem squashed_equivalent:
  assumes "schema_editor ed cols" and "in_order [] ms" and "mset ms = mset history"
  shows "ops_ok ed cols (all_ops ms) (e_empty ed) \<and>
    ops_ok ed cols (m_operations m0001_squashed) (e_empty ed) \<and>
    cols (migrate ed (all_ops ms) (e_empty ed)) =
      cols (migrate ed (m_operations m0001_squashed) (e_empty ed))"
proof -
  have ms: "ms = history" by (rule chain_unique [OF chain_history assms(2,3)])
  note agree = editors_agree [OF assms(1) dict_ed.schema_editor_axioms empty_columns [OF assms(1)]]
  show ?thesis
    using agree [OF history_ops_ok] agree [OF squashed_ops_ok] ms dict_same_columns by simp
qed

theorem squashed_equivalent_witness:
  "dict_columns (migrate dict_editor (all_ops history) []) ''TestRun'' =
   dict_columns (migrate dict_editor (m_operations m0001_squashed) []) ''TestRun''"
proof -
  have "in_order [] history" by code_simp
  from squashed_equivalent [OF dict_ed.schema_editor_axioms this refl]
  show ?thesis by (simp add: dict_editor_def)
qed

lemma drift_squashed:
  "drift (migrate dict_editor (m_operations m0001_squashed) (e_empty dict_editor)) declared_models =
   [(''testrun'', ''job_deadline''), (''testrunlocation'', ''status'')]"
  by code_simp

text \<open>
  C33. After the migrations the columns are those the models declare, for every model and field,
  with two exceptions that no migration records: the choices of the status of a location (the
  label of "ready" has become "Initializing") and the help text and validator of the job
  deadline.
\<close>

theorem schema_matches_models:
  assumes "schema_editor ed cols"
  shows "drifted (cols (migrate ed (m_operations m0001_squashed) (e_empty ed))) (dict_columns declared_models) m f \<longleftrightarrow>
    (lower m, f) \<in> {(''testrun'', ''job_deadline''), (''testrunlocation'', ''status'')}"
proof -
  have "cols (migrate ed (m_operations m0001_squashed) (e_empty ed)) =
      dict_columns (migrate dict_editor (m_operations m0001_squashed) (e_empty dict_editor))"
    using editors_agree [OF assms dict_ed.schema_editor_axioms empty_columns [OF assms] squashed_ops_ok] by simp
  then show ?thesis by (simp add: drift_iff [OF distinct_tables(2,3)] drift_squashed)
qed

theorem schema_matches_models_witness:
  "\<not> drifted (dict_columns (migrate dict_editor (m_operations m0001_squashed) []))
     (dict_columns declared_models) ''TestRun'' ''started_at''"
proof -
  have "lower ''TestRun'' = ''testrun''" by code_simp
  with schema_matches_models [OF dict_ed.schema_editor_axioms, of "''TestRun''" "''started_at''"]
  show ?thesis by (simp add: dict_editor_def)
qed

section \<open>The data step of 0005\<close>

text \<open>Between the creation of the table and the new foreign key of the runs.\<close>

definition create_default_output :: "env \<Rightarrow> unit web" where
  "create_default_output e = bindp
     (save_output e ((new_output ''default'')\<lparr>influxdb_url := ''http://influxdb.example.com'',
        influxdb_token := '''', influxdb_org := ''default''\<rparr>))
     (\<lambda>_. ret ())"

text \<open>
  The migration 0005, which runs when the table of outputs has just been created, stores one
  output named "default", and that is the output the runs get from then on, without another
  write. The squashed migration leaves the step out: on a new installation the first run
  creates the default output, which is the same row but for its empty URL.
\<close>

theorem default_output_migrated:
  assumes "tbl_output db = []"
  shows "\<exists>x y.
    create_default_output e db = (Inr (), db\<lparr>tbl_output := [x]\<rparr>) \<and>
    name x = ''default'' \<and> influxdb_url x = ''http://influxdb.example.com'' \<and>
    default_output e' (db\<lparr>tbl_output := [x]\<rparr>) = (Inr x, db\<lparr>tbl_output := [x]\<rparr>) \<and>
    default_output e db = (Inr y, db\<lparr>tbl_output := [y]\<rparr>) \<and>
    name y = ''default'' \<and> influxdb_url y = '''' \<and> y\<lparr>influxdb_url := influxdb_url x\<rparr> = x"
proof -
  let ?url = "''http://influxdb.example.com''"
  let ?y = "stamp e [] (assign_pk e [] (new_output ''default''))"
  let ?x = "?y\<lparr>influxdb_url := ?url\<rparr>"
  have x: "stamp e [] (assign_pk e [] ((new_output ''default'')\<lparr>influxdb_url := ?url,
        influxdb_token := '''', influxdb_org := ''default''\<rparr>)) = ?x"
    by (simp add: stamp_def assign_pk_def new_output_def has_row_def)
  have n: "name ?y = ''default''" "influxdb_url ?y = ''''"
    by (simp_all add: stamp_def assign_pk_def new_output_def has_row_def)
  have "create_default_output e db = (Inr (), db\<lparr>tbl_output := [?x]\<rparr>)"
    by (simp add: create_default_output_def save_output_def assms Let_def x bindp_def ret_def name_taken_def
        put_output_def upsert_def)
  moreover have "default_output e db = (Inr ?y, db\<lparr>tbl_output := [?y]\<rparr>)"
    by (simp add: default_output_def first_row_def save_output_def assms Let_def name_taken_def put_output_def
        upsert_def)
  moreover have "default_output e' (db\<lparr>tbl_output := [?x]\<rparr>) = (Inr ?x, db\<lparr>tbl_output := [?x]\<rparr>)"
    using n by (simp add: default_output_def first_row_def)
  ultimately show ?thesis using n by (intro exI [of _ ?x] exI [of _ ?y]) simp
qed

theorem default_output_migrated_witness:
  "\<exists>x. snd (create_default_output (sample_env 0) ((sample_db True PENDING PENDING)\<lparr>tbl_output := []\<rparr>)) =
      (sample_db True PENDING PENDING)\<lparr>tbl_output := [x]\<rparr>"
proof -
  have "tbl_output ((sample_db True PENDING PENDING)\<lparr>tbl_output := []\<rparr>) = []" by simp
  from default_output_migrated [OF this, of "sample_env 0" "sample_env 0"] show ?thesis by auto
qed

end
