(* ===== verification/Roles.thy ===== *)
theory Roles
  imports Models
begin

text \<open>
  The role of the workers: what the migration 0008 grants, as a program over the tables of groups
  and permissions of \<open>django.contrib.auth\<close>, and whether it is what the worker API asks for.
\<close>

section \<open>Groups and permissions\<close>

record permission =
  perm_id :: nat
  codename :: string

record group =
  group_name :: string
  group_permissions :: "nat list"

record auth =
  permissions :: "permission list"
  groups :: "group list"

type_synonym 'a auth_prog = "(auth, exn, 'a) prog"

text \<open>
  \<open>get_or_create\<close> of a group. Of a permission it is called with the codename only: two permissions
  of that name (of different applications) are an error, and so is creating one, for want of
  its content type.
\<close>

definition get_or_create_group :: "string \<Rightarrow> group auth_prog" where
  "get_or_create_group r = (\<lambda>s. case find (\<lambda>g. group_name g = r) (groups s) of
     Some g \<Rightarrow> (Inr g, s)
   | None \<Rightarrow> (let g = \<lparr>group_name = r, group_permissions = []\<rparr> in (Inr g, s\<lparr>groups := groups s @ [g]\<rparr>)))"

definition get_or_create_permission :: "string \<Rightarrow> permission auth_prog" where
  "get_or_create_permission p = (\<lambda>s. case filter (\<lambda>x. codename x = p) (permissions s) of
     [] \<Rightarrow> (Inl (IntegrityError ''content_type''), s)
   | [x] \<Rightarrow> (Inr x, s)
   | _ \<Rightarrow> (Inl MultipleObjectsReturned, s))"

definition add_permission :: "string \<Rightarrow> nat \<Rightarrow> auth \<Rightarrow> auth" where
  "add_permission r k s = s\<lparr>groups := map (\<lambda>g.
     if group_name g = r then g\<lparr>group_permissions := List.insert k (group_permissions g)\<rparr> else g) (groups s)\<rparr>"

section \<open>Migration 0008\<close>

definition role_permissions :: "(string \<times> string list) list" where
  "role_permissions =
     [(''Worker'',
       [''add_testlocation'', ''view_testlocation'', ''change_testrun'', ''view_testrun'',
        ''add_testrunlocation'', ''change_testrunlocation'', ''view_testrunlocation''])]"

text \<open>
  \<open>emit\<close> stands for \<open>emit_post_migrate_signal\<close>. \<open>role.save()\<close> at the end writes the unchanged name of
  the group.
\<close>

definition permit_role :: "string \<Rightarrow> string list \<Rightarrow> unit auth_prog" where
  "permit_role r ps = bindp (get_or_create_group r) (\<lambda>role.
     for_each ps (\<lambda>p. bindp (get_or_create_permission p) (\<lambda>perm.
       writes (add_permission (group_name role) (perm_id perm)))))"

definition add_role_permissions :: "(auth \<Rightarrow> auth) \<Rightarrow> unit auth_prog" where
  "add_role_permissions emit = bindp (writes emit) (\<lambda>_.
     for_each role_permissions (\<lambda>(r, ps). permit_role r ps))"

section \<open>What it grants\<close>

definition granted :: "string \<Rightarrow> string \<Rightarrow> auth \<Rightarrow> bool" where
  "granted r p s \<longleftrightarrow> list_ex (\<lambda>g. group_name g = r \<and>
     list_ex (\<lambda>x. codename x = p \<and> perm_id x \<in> set (group_permissions g)) (permissions s)) (groups s)"

definition codename_count :: "string \<Rightarrow> auth \<Rightarrow> nat" where
  "codename_count p s = length (filter (\<lambda>x. codename x = p) (permissions s))"

definition app_models :: "string list" where
  "app_models = [''testlocation'', ''testoutputconfig'', ''testrun'', ''testrunlabel'', ''testrunenvvar'',
     ''testrunlocation'']"

definition app_permissions :: "string list" where
  "app_permissions = concat (map (\<lambda>m. map (\<lambda>a. a @ ''_'' @ m) [''add'', ''change'', ''delete'', ''view'']) app_models)"

text \<open>
  What Django documents of the signal: it creates the four permissions of every model where
  they are missing, and changes no existing permission and no group.
\<close>

definition creates_permissions :: "(auth \<Rightarrow> auth) \<Rightarrow> bool" where
  "creates_permissions emit \<longleftrightarrow> (\<forall>s. groups (emit s) = groups s \<and>
     set (permissions s) \<subseteq> set (permissions (emit s)) \<and>
     (distinct (map perm_id (permissions s)) \<longrightarrow> distinct (map perm_id (permissions (emit s)))) \<and>
     (\<forall>p \<in> set app_permissions. codename_count p (emit s) = max 1 (codename_count p s)))"

text \<open>The permissions of the groups exist.\<close>

definition known :: "auth \<Rightarrow> bool" where
  "known s \<longleftrightarrow> (\<forall>g \<in> set (groups s). set (group_permissions g) \<subseteq> perm_id ` set (permissions s))"

text \<open>Integrity of the two tables; no other application has permissions of these names.\<close>

definition wf_auth :: "auth \<Rightarrow> bool" where
  "wf_auth s \<longleftrightarrow> distinct (map group_name (groups s)) \<and> distinct (map perm_id (permissions s)) \<and>
     known s \<and> (\<forall>p \<in> set app_permissions. codename_count p s \<le> 1)"

lemma granted_iff: "granted r p s \<longleftrightarrow>
    (\<exists>g \<in> set (groups s). \<exists>x \<in> set (permissions s).
       group_name g = r \<and> codename x = p \<and> perm_id x \<in> set (group_permissions g))"
  by (auto simp: granted_def list_ex_iff)

lemma permission_found:
  assumes "codename_count p s = 1"
  obtains x where "get_or_create_permission p s = (Inr x, s)" and "x \<in> set (permissions s)" and "codename x = p"
proof -
  from assms obtain x where x: "filter (\<lambda>x. codename x = p) (permissions s) = [x]"
    by (auto simp: codename_count_def length_Suc_conv)
  then have "x \<in> set (permissions s)" "codename x = p" by (auto simp: filter_eq_Cons_iff)
  with x that show ?thesis by (simp add: get_or_create_permission_def)
qed

lemma add_permission_simps [simp]:
  "permissions (add_permission r k s) = permissions s"
  "map group_name (groups (add_permission r k s)) = map group_name (groups s)"
  by (simp_all add: add_permission_def)

lemma granted_add:
  assumes "distinct (map perm_id (permissions s))" and "x \<in> set (permissions s)"
    and "r \<in> group_name ` set (groups s)"
  shows "granted g c (add_permission r (perm_id x) s) \<longleftrightarrow> granted g c s \<or> (g = r \<and> c = codename x)"
proof -
  let ?f = "\<lambda>h. if group_name h = r
     then h\<lparr>group_permissions := List.insert (perm_id x) (group_permissions h)\<rparr> else h"
  have uniq: "perm_id y = perm_id x \<longleftrightarrow> y = x" if "y \<in> set (permissions s)" for y
    using assms(1,2) that by (auto simp: distinct_map dest: inj_onD)
  have groups: "set (groups (add_permission r (perm_id x) s)) = ?f ` set (groups s)"
    by (simp add: add_permission_def)
  have "granted g c (add_permission r (perm_id x) s) \<longleftrightarrow>
      (\<exists>h \<in> set (groups s). \<exists>y \<in> set (permissions s). group_name (?f h) = g \<and> codename y = c \<and>
        perm_id y \<in> set (group_permissions (?f h)))"
    unfolding granted_iff groups bex_simps(7) add_permission_simps(1) by blast
  also have "\<dots> \<longleftrightarrow> (\<exists>h \<in> set (groups s). \<exists>y \<in> set (permissions s). group_name h = g \<and> codename y = c \<and>
        (perm_id y \<in> set (group_permissions h) \<or> group_name h = r \<and> y = x))"
    by (intro bex_cong refl) (auto simp: uniq)
  also have "\<dots> \<longleftrightarrow> granted g c s \<or> (g = r \<and> c = codename x)"
    using assms(2,3) unfolding granted_iff by blast
  finally show ?thesis .
qed

lemma known_add:
  "known s \<Longrightarrow> x \<in> set (permissions s) \<Longrightarrow> known (add_permission r (perm_id x) s)"
  by (auto simp: known_def add_permission_def) blast+

lemma permit_loop:
  assumes "distinct (map perm_id (permissions s))" and "r \<in> group_name ` set (groups s)"
    and "\<forall>p \<in> set ps. codename_count p s = 1" and "known s"
  shows "\<exists>t. for_each ps (\<lambda>p. bindp (get_or_create_permission p) (\<lambda>perm.
       writes (add_permission r (perm_id perm)))) s = (Inr (), t) \<and>
    known t \<and> permissions t = permissions s \<and> map group_name (groups t) = map group_name (groups s) \<and>
    (\<forall>g c. granted g c t \<longleftrightarrow> granted g c s \<or> (g = r \<and> c \<in> set ps))"
  using assms
proof (induction ps arbitrary: s)
  case Nil
  then show ?case by (simp add: ret_def)
next
  case (Cons p ps)
  from Cons.prems(3) have "codename_count p s = 1" by simp
  then obtain x where x: "get_or_create_permission p s = (Inr x, s)" "x \<in> set (permissions s)" "codename x = p"
    by (rule permission_found)
  let ?t = "add_permission r (perm_id x) s"
  have "group_name ` set (groups ?t) = group_name ` set (groups s)"
    by (metis add_permission_simps(2) list.set_map)
  with Cons.prems have "distinct (map perm_id (permissions ?t))" "r \<in> group_name ` set (groups ?t)"
    "\<forall>q \<in> set ps. codename_count q ?t = 1" "known ?t"
    by (simp_all add: codename_count_def known_add x(2))
  from Cons.IH [OF this] granted_add [OF Cons.prems(1) x(2) Cons.prems(2)] x(1,3)
  show ?case by (auto simp: bindp_Inr writes_def)
qed

lemma role_permissions_known: "list_all (\<lambda>(r, ps). set ps \<subseteq> set app_permissions) role_permissions"
  by code_simp

text \<open>The state after the signal and the lookup of the group, from which the loop starts.\<close>

lemma granted_after_signal:
  assumes emit: "creates_permissions emit" and wf: "wf_auth s"
  shows "wf_auth (emit s)" and "granted g c (emit s) \<longleftrightarrow> granted g c s"
    and "p \<in> set app_permissions \<Longrightarrow> codename_count p (emit s) = 1"
proof -
  have gs: "groups (emit s) = groups s" and old: "set (permissions s) \<subseteq> set (permissions (emit s))"
    and ids: "distinct (map perm_id (permissions (emit s)))"
    and one: "\<forall>p \<in> set app_permissions. codename_count p (emit s) = 1"
    using emit wf by (simp_all add: creates_permissions_def wf_auth_def)
  have k: "known s" using wf by (simp add: wf_auth_def)
  with gs old have "known (emit s)" by (auto simp: known_def) blast
  with wf gs ids one show "wf_auth (emit s)" by (simp add: wf_auth_def)
  have "y \<in> set (permissions s)"
    if "y \<in> set (permissions (emit s))" "perm_id y \<in> perm_id ` set (permissions s)" for y
    using that old ids by (auto simp: distinct_map dest: inj_onD)
  with k old show "granted g c (emit s) \<longleftrightarrow> granted g c s"
    unfolding granted_iff gs known_def by blast
  show "p \<in> set app_permissions \<Longrightarrow> codename_count p (emit s) = 1" using one by simp
qed

lemma group_created:
  assumes "wf_auth s"
  obtains g t where "get_or_create_group r s = (Inr g, t)" and "group_name g = r" and "wf_auth t"
    and "r \<in> group_name ` set (groups t)" and "permissions t = permissions s"
    and "\<And>g c. granted g c t \<longleftrightarrow> granted g c s"
proof (cases "find (\<lambda>g. group_name g = r) (groups s)")
  case None
  let ?t = "s\<lparr>groups := groups s @ [\<lparr>group_name = r, group_permissions = []\<rparr>]\<rparr>"
  have "r \<notin> group_name ` set (groups s)" using None by (auto simp: find_None_iff)
  then have "wf_auth ?t" using assms by (auto simp: wf_auth_def known_def codename_count_def)
  with None show ?thesis
    by (intro that [of "\<lparr>group_name = r, group_permissions = []\<rparr>" ?t])
      (auto simp: get_or_create_group_def granted_iff Let_def)
next
  case (Some g)
  then have "g \<in> set (groups s)" "group_name g = r" by (auto simp: find_Some_iff)
  with Some assms show ?thesis by (intro that [of g s]) (auto simp: get_or_create_group_def)
qed

lemma worker_run:
  assumes "creates_permissions emit" and "wf_auth s"
  shows "\<exists>t. add_role_permissions emit s = (Inr (), t) \<and> wf_auth t \<and>
      (\<forall>g c. granted g c t \<longleftrightarrow> granted g c s \<or> list_ex (\<lambda>(r, ps). r = g \<and> c \<in> set ps) role_permissions)"
proof -
  obtain r ps where rp: "role_permissions = [(r, ps)]" by (simp add: role_permissions_def)
  have ps: "set ps \<subseteq> set app_permissions" using role_permissions_known unfolding rp by simp
  note after = granted_after_signal [OF assms]
  obtain g t where g: "get_or_create_group r (emit s) = (Inr g, t)" "group_name g = r" "wf_auth t"
    "r \<in> group_name ` set (groups t)" "permissions t = permissions (emit s)"
    "\<And>g c. granted g c t \<longleftrightarrow> granted g c (emit s)"
    using group_created [OF after(1), of r] by blast
  have "\<forall>p \<in> set ps. codename_count p t = 1"
    using after(3) ps g(5) by (auto simp: codename_count_def)
  then obtain u where u: "for_each ps (\<lambda>p. bindp (get_or_create_permission p) (\<lambda>perm.
        writes (add_permission r (perm_id perm)))) t = (Inr (), u)" "known u" "permissions u = permissions t"
      "map group_name (groups u) = map group_name (groups t)"
      "\<forall>g c. granted g c u \<longleftrightarrow> granted g c t \<or> (g = r \<and> c \<in> set ps)"
    using permit_loop [of t r ps] g(3,4) by (auto simp: wf_auth_def)
  have "wf_auth u" using g(3) u(2-4) by (simp add: wf_auth_def codename_count_def)
  moreover have "add_role_permissions emit s = (Inr (), u)"
  proof -
    have "permit_role r ps (emit s) = (Inr (), u)"
      using g(1,2) u(1) by (simp add: permit_role_def bindp_Inr)
    then show ?thesis by (simp add: add_role_permissions_def rp bindp_def writes_def ret_def)
  qed
  ultimately show ?thesis
    using u(5) g(6) after(2) by (intro exI [of _ u]) (auto simp: rp)
qed

lemma worker_grants:
  assumes "creates_permissions emit" and "wf_auth s" and "add_role_permissions emit s = (Inr (), t)"
  shows "\<forall>g c. granted g c t \<longleftrightarrow> granted g c s \<or> list_ex (\<lambda>(r, ps). r = g \<and> c \<in> set ps) role_permissions"
  using worker_run [OF assms(1,2)] assms(3) by auto

text \<open>
  The migration 0008 cannot fail: it gives the group Worker, created when it is missing, exactly
  the listed permissions on top of what it had, and no other group gains or loses any. Run a
  second time it changes nothing of that.
\<close>

theorem worker_role_granted:
  assumes "creates_permissions emit" and "wf_auth s"
  shows "\<exists>t u. add_role_permissions emit s = (Inr (), t) \<and> wf_auth t \<and>
    (\<forall>g c. granted g c t \<longleftrightarrow> granted g c s \<or> list_ex (\<lambda>(r, ps). r = g \<and> c \<in> set ps) role_permissions) \<and>
    add_role_permissions emit t = (Inr (), u) \<and> (\<forall>g c. granted g c u \<longleftrightarrow> granted g c t)"
proof -
  obtain t where t: "add_role_permissions emit s = (Inr (), t)" "wf_auth t"
    "\<forall>g c. granted g c t \<longleftrightarrow> granted g c s \<or> list_ex (\<lambda>(r, ps). r = g \<and> c \<in> set ps) role_permissions"
    using worker_run [OF assms] by blast
  from worker_run [OF assms(1) t(2)] t show ?thesis by metis
qed

text \<open>A signal that does what Django documents, for the examples.\<close>

definition add_missing :: "string \<Rightarrow> auth \<Rightarrow> auth" where
  "add_missing p s =
     (if codename_count p s = 0
      then s\<lparr>permissions := permissions s @ [\<lparr>perm_id = max_pk (map perm_id (permissions s)), codename = p\<rparr>]\<rparr>
      else s)"

definition sample_emit :: "auth \<Rightarrow> auth" where
  "sample_emit = fold add_missing app_permissions"

lemma add_missing_simps:
  "groups (add_missing p s) = groups s"
  "set (permissions s) \<subseteq> set (permissions (add_missing p s))"
  "distinct (map perm_id (permissions s)) \<Longrightarrow> distinct (map perm_id (permissions (add_missing p s)))"
  "codename_count q (add_missing p s) = (if q = p then max 1 (codename_count q s) else codename_count q s)"
proof -
  have "max_pk (map perm_id (permissions s)) \<notin> perm_id ` set (permissions s)"
    using fold_max_ge [of 0 "map perm_id (permissions s)"] by (force simp: max_pk_def)
  then show "distinct (map perm_id (permissions s)) \<Longrightarrow> distinct (map perm_id (permissions (add_missing p s)))"
    by (auto simp: add_missing_def)
qed (auto simp: add_missing_def codename_count_def max_def Suc_le_eq)

lemma fold_add_missing:
  "groups (fold add_missing ps s) = groups s \<and>
   set (permissions s) \<subseteq> set (permissions (fold add_missing ps s)) \<and>
   (distinct (map perm_id (permissions s)) \<longrightarrow> distinct (map perm_id (permissions (fold add_missing ps s)))) \<and>
   (\<forall>p. codename_count p (fold add_missing ps s) =
      (if p \<in> set ps then max 1 (codename_count p s) else codename_count p s))"
proof (induction ps arbitrary: s)
  case (Cons q ps)
  from Cons.IH [of "add_missing q s"] show ?case
    using add_missing_simps(2) [of s q]
    by (auto simp: add_missing_simps(1,3,4) simp del: fold_simps(1) split: if_splits)
qed simp

lemma sample_emit_creates: "creates_permissions sample_emit"
  unfolding creates_permissions_def sample_emit_def using fold_add_missing [of app_permissions] by simp

theorem worker_role_granted_witness:
  "granted ''Worker'' ''change_testrunlocation'' (snd (add_role_permissions sample_emit \<lparr>permissions = [], groups = []\<rparr>))"
proof -
  have wf: "wf_auth \<lparr>permissions = [], groups = []\<rparr>" by (simp add: wf_auth_def known_def codename_count_def)
  have "list_ex (\<lambda>(r, ps). r = ''Worker'' \<and> ''change_testrunlocation'' \<in> set ps) role_permissions" by code_simp
  then show ?thesis using worker_role_granted [OF sample_emit_creates wf] by auto
qed

section \<open>What the worker API asks for\<close>

text \<open>
  The endpoints of the API with their method and the model of their queryset: the ping, the list
  and the single job, its update (full and partial), and the action \<open>accept\<close>.
\<close>

definition api_endpoints :: "(string \<times> string) list" where
  "api_endpoints =
     [(''POST'', ''testlocation''), (''GET'', ''testrunlocation''), (''PUT'', ''testrunlocation''),
      (''PATCH'', ''testrunlocation''), (''POST'', ''testrunlocation'')]"

text \<open>
  The permission class in the settings is \<open>DjangoModelPermissions\<close> of the REST framework: as it
  documents, POST needs the add permission of the model, PUT and PATCH the change permission,
  DELETE the delete permission, and reading none.
\<close>

definition model_permissions :: "(string \<Rightarrow> string \<Rightarrow> string list) \<Rightarrow> bool" where
  "model_permissions needed \<longleftrightarrow> (\<forall>m. needed ''GET'' m = [] \<and> needed ''POST'' m = [''add_'' @ m] \<and>
     needed ''PUT'' m = [''change_'' @ m] \<and> needed ''PATCH'' m = [''change_'' @ m] \<and>
     needed ''DELETE'' m = [''delete_'' @ m])"

text \<open>
  C34. After the migration 0008 a user whose only group is Worker may use every endpoint of the
  worker API, and may delete nothing: of a new group no deletion of any model is granted.
\<close>

theorem worker_role_suffices:
  assumes "creates_permissions emit" and "wf_auth s" and "model_permissions needed"
    and "add_role_permissions emit s = (Inr (), t)"
  shows "list_all (\<lambda>(method, m). list_all (\<lambda>p. granted ''Worker'' p t) (needed method m)) api_endpoints \<and>
    (''Worker'' \<notin> group_name ` set (groups s) \<longrightarrow> \<not> granted ''Worker'' (''delete_'' @ m) t)"
proof -
  from worker_grants [OF assms(1,2,4)] have t: "granted ''Worker'' c t \<longleftrightarrow>
      granted ''Worker'' c s \<or> list_ex (\<lambda>(r, ps). r = ''Worker'' \<and> c \<in> set ps) role_permissions" for c
    by blast
  have "list_ex (\<lambda>(r, ps). r = ''Worker'' \<and> ''add_testlocation'' \<in> set ps) role_permissions"
    "list_ex (\<lambda>(r, ps). r = ''Worker'' \<and> ''change_testrunlocation'' \<in> set ps) role_permissions"
    "list_ex (\<lambda>(r, ps). r = ''Worker'' \<and> ''add_testrunlocation'' \<in> set ps) role_permissions"
    by code_simp+
  then have "list_all (\<lambda>(method, m). list_all (\<lambda>p. granted ''Worker'' p t) (needed method m)) api_endpoints"
    using assms(3) by (simp add: api_endpoints_def model_permissions_def t)
  moreover have "\<not> granted ''Worker'' (''delete_'' @ m) t" if "''Worker'' \<notin> group_name ` set (groups s)"
  proof -
    have "\<not> granted ''Worker'' (''delete_'' @ m) s" using that by (force simp: granted_iff)
    moreover have "\<not> list_ex (\<lambda>(r, ps). r = ''Worker'' \<and> ''delete_'' @ m \<in> set ps) role_permissions"
      by (auto simp: role_permissions_def)
    ultimately show ?thesis by (simp add: t)
  qed
  ultimately show ?thesis by simp
qed

definition sample_needed :: "string \<Rightarrow> string \<Rightarrow> string list" where
  "sample_needed method m =
     (if method = ''POST'' then [''add_'' @ m]
      else if method = ''PUT'' \<or> method = ''PATCH'' then [''change_'' @ m]
      else if method = ''DELETE'' then [''delete_'' @ m] else [])"

theorem worker_role_suffices_witness:
  "\<not> granted ''Worker'' ''delete_testrun'' (snd (add_role_permissions sample_emit \<lparr>permissions = [], groups = []\<rparr>))"
proof -
  let ?s = "\<lparr>permissions = [], groups = []\<rparr>"
  have wf: "wf_auth ?s" by (simp add: wf_auth_def known_def codename_count_def)
  have n: "model_permissions sample_needed" by (simp add: model_permissions_def sample_needed_def)
  obtain t where t: "add_role_permissions sample_emit ?s = (Inr (), t)"
    using worker_run [OF sample_emit_creates wf] by blast
  show ?thesis using worker_role_suffices [OF sample_emit_creates wf n t, of "''testrun''"] t by simp
qed

end
