(* ===== verification/Settings.thy ===== *)
theory Settings
  imports Models
begin

text \<open>
  Starting the application: webapp/settings.py as a function of the environment, the routes of
  webapp/urls.py that depend on it, and the entry points (manage.py, wsgi.py, asgi.py) and app
  configurations. django-environ is a parameter, the record \<open>environ\<close> of its typed readers; a
  path is read and written as \<open>pathlib\<close> does.
\<close>

section \<open>The environment\<close>

datatype json = JText string | JNumber int | JBool bool | JNull | JList "json list"

type_synonym options = "string \<rightharpoonup> json"

record environ =
  env_bool :: "string \<Rightarrow> bool \<Rightarrow> bool"
  env_str :: "string \<Rightarrow> string \<Rightarrow> string"
  env_list :: "string \<Rightarrow> string list \<Rightarrow> string list"
  env_db :: "string \<Rightarrow> string \<Rightarrow> string"
  env_json :: "string \<Rightarrow> options \<Rightarrow> options"

text \<open>What it documents of a variable that is not set: the reader returns the default.\<close>

definition unset :: "environ \<Rightarrow> string \<Rightarrow> bool" where
  "unset env v \<longleftrightarrow> (\<forall>b. env_bool env v b = b) \<and> (\<forall>s. env_str env v s = s) \<and>
     (\<forall>xs. env_list env v xs = xs) \<and> (\<forall>s. env_db env v s = s) \<and> (\<forall>d. env_json env v d = d)"

text \<open>
  \<open>pathlib\<close>: a path is its root and its parts. Empty parts and dots are dropped when a text is
  read; two leading slashes, but not three, are a root of their own.
\<close>

type_synonym path = "string \<times> string list"

fun split_slash :: "string \<Rightarrow> string \<Rightarrow> string list" where
  "split_slash acc [] = [rev acc]"
| "split_slash acc (c # cs) =
     (if c = CHR ''/'' then rev acc # split_slash [] cs else split_slash (c # acc) cs)"

definition path_root :: "string \<Rightarrow> string" where
  "path_root s =
     (if py_startswith s ''//'' \<and> \<not> py_startswith s ''///'' then ''//''
      else if py_startswith s ''/'' then ''/'' else '''')"

definition path_of :: "string \<Rightarrow> path" where
  "path_of s = (path_root s, filter (\<lambda>x. x \<noteq> '''' \<and> x \<noteq> ''.'') (split_slash [] s))"

definition path_text :: "path \<Rightarrow> string" where
  "path_text p = (case p of (r, xs) \<Rightarrow> if r = '''' \<and> xs = [] then ''.'' else r @ py_join ''/'' xs)"

definition path_join :: "path \<Rightarrow> string \<Rightarrow> path" where
  "path_join p x = (fst p, snd p @ [x])"

section \<open>The values\<close>

definition installed_apps :: "bool \<Rightarrow> string list" where
  "installed_apps debug =
     [''webapp.apps.LoadtestingAdminConfig'', ''django.contrib.auth'', ''django.contrib.contenttypes'',
      ''django.contrib.sessions'', ''django.contrib.messages'', ''django.contrib.staticfiles'', ''dal'',
      ''dal_select2'', ''django_fsm'', ''rest_framework'', ''loadtest''] @
     (if debug then [''debug_toolbar''] else [])"

definition middleware :: "bool \<Rightarrow> string list" where
  "middleware debug =
     [''django.middleware.security.SecurityMiddleware'', ''whitenoise.middleware.WhiteNoiseMiddleware'',
      ''django.contrib.sessions.middleware.SessionMiddleware'', ''django.middleware.common.CommonMiddleware'',
      ''django.middleware.csrf.CsrfViewMiddleware'',
      ''django.contrib.auth.middleware.AuthenticationMiddleware'',
      ''django.contrib.messages.middleware.MessageMiddleware'',
      ''django.middleware.clickjacking.XFrameOptionsMiddleware''] @
     (if debug then [''debug_toolbar.middleware.DebugToolbarMiddleware''] else [])"

record template_engine =
  tpl_backend :: string
  tpl_dirs :: "string list"
  tpl_app_dirs :: bool
  tpl_context_processors :: "string list"

definition templates :: "path \<Rightarrow> template_engine list" where
  "templates base_dir =
     [\<lparr>tpl_backend = ''django.template.backends.django.DjangoTemplates'',
       tpl_dirs = [path_text (path_join base_dir ''templates'')], tpl_app_dirs = True,
       tpl_context_processors =
        [''django.template.context_processors.debug'', ''django.template.context_processors.request'',
         ''django.contrib.auth.context_processors.auth'',
         ''django.contrib.messages.context_processors.messages'']\<rparr>]"

definition databases :: "environ \<Rightarrow> path \<Rightarrow> (string \<times> string) list" where
  "databases env base_dir =
     [(''default'', env_db env ''DATABASE_URL'' (''sqlite:///'' @ path_text (path_join base_dir ''db.sqlite3'')))]"

definition caches :: "(string \<times> (string \<times> string) list) list" where
  "caches =
     [(''default'', [(''BACKEND'', ''django.core.cache.backends.locmem.LocMemCache'')]),
      (''transient'', [(''BACKEND'', ''django.core.cache.backends.db.DatabaseCache''),
         (''LOCATION'', ''cache_transient'')])]"

definition password_validators :: "string list" where
  "password_validators =
     [''django.contrib.auth.password_validation.UserAttributeSimilarityValidator'',
      ''django.contrib.auth.password_validation.MinimumLengthValidator'',
      ''django.contrib.auth.password_validation.CommonPasswordValidator'',
      ''django.contrib.auth.password_validation.NumericPasswordValidator'']"

definition all_hashers :: "string list" where
  "all_hashers =
     [''django.contrib.auth.hashers.Argon2PasswordHasher'',
      ''django.contrib.auth.hashers.PBKDF2PasswordHasher'',
      ''django.contrib.auth.hashers.PBKDF2SHA1PasswordHasher'',
      ''django.contrib.auth.hashers.BCryptSHA256PasswordHasher'',
      ''django.contrib.auth.hashers.ScryptPasswordHasher'']"

text \<open>\<open>remove\<close> raises when the element is missing, and removes its first occurrence.\<close>

definition password_hashers :: "string \<Rightarrow> exn + string list" where
  "password_hashers chosen =
     (if chosen = '''' then Inr all_hashers
      else if chosen \<notin> set all_hashers then Inl (ValueError ''list.remove(x): x not in list'')
      else Inr (chosen # remove1 chosen all_hashers))"

definition logging_level :: "(string \<times> string list \<times> string) list" where
  "logging_level = [('''', [''console''], ''DEBUG'')]"

definition default_grafana_url :: string where
  "default_grafana_url = ''http://localhost:3000/d/1/orderly-ape-summary?orgId=1''"

text \<open>With an address the options given in the environment get it and Sentry starts with them.\<close>

definition sentry_start :: "string \<Rightarrow> options \<Rightarrow> options option" where
  "sentry_start dsn opts = (if dsn \<noteq> '''' then Some (opts(''dsn'' \<mapsto> JText dsn)) else None)"

section \<open>The module\<close>

record settings =
  SECRET_KEY :: string
  DEBUG :: bool
  ALLOWED_HOSTS :: "string list"
  INTERNAL_IPS :: "string list"
  INSTALLED_APPS :: "string list"
  MIDDLEWARE :: "string list"
  ROOT_URLCONF :: string
  TEMPLATES :: "template_engine list"
  WSGI_APPLICATION :: string
  DATABASES :: "(string \<times> string) list"
  CACHES :: "(string \<times> (string \<times> string) list) list"
  AUTH_PASSWORD_VALIDATORS :: "string list"
  LANGUAGE_CODE :: string
  TIME_ZONE :: string
  USE_I18N :: bool
  USE_TZ :: bool
  STATIC_ROOT :: string
  STATIC_URL :: string
  STATICFILES_DIRS :: "string list"
  STATICFILES_FINDERS :: "string list"
  PASSWORD_HASHERS :: "string list"
  MEDIA_ROOT :: string
  MEDIA_URL :: string
  LOGGERS :: "(string \<times> string list \<times> string) list"
  USE_X_FORWARDED_HOST :: bool
  USE_X_FORWARDED_PORT :: bool
  CSRF_TRUSTED_ORIGINS :: "string list"
  DEFAULT_AUTO_FIELD :: string
  PERMISSION_CLASSES :: "string list"
  GRAFANA_DASHBOARD_URL :: string
  SENTRY :: "options option"

definition load_settings :: "environ \<Rightarrow> path \<Rightarrow> exn + settings" where
  "load_settings env base_dir =
     (let debug = env_bool env ''DEBUG'' False;
          webroot = path_of (env_str env ''WEBROOT'' (path_text (path_join base_dir ''webroot'')))
      in case password_hashers (env_str env ''PASSWORD_HASHER''
             ''django.contrib.auth.hashers.Argon2PasswordHasher'') of
        Inl e \<Rightarrow> Inl e
      | Inr hashers \<Rightarrow> Inr \<lparr>
          SECRET_KEY = env_str env ''SECRET_KEY''
            ''django-insecure-pop^(ij1ml%a-b1h$-9f)7b0+7c#6_stu-6j-5slru8il57zs9'',
          DEBUG = debug,
          ALLOWED_HOSTS = env_list env ''ALLOWED_HOSTS'' (if debug then [''*''] else []),
          INTERNAL_IPS = env_list env ''INTERNAL_IPS'' (if debug then [''127.0.0.1''] else []),
          INSTALLED_APPS = installed_apps debug,
          MIDDLEWARE = middleware debug,
          ROOT_URLCONF = ''webapp.urls'',
          TEMPLATES = templates base_dir,
          WSGI_APPLICATION = ''webapp.wsgi.application'',
          DATABASES = databases env base_dir,
          CACHES = caches,
          AUTH_PASSWORD_VALIDATORS = password_validators,
          LANGUAGE_CODE = ''en-us'',
          TIME_ZONE = ''UTC'',
          USE_I18N = True,
          USE_TZ = True,
          STATIC_ROOT = env_str env ''STATIC_ROOT'' (path_text (path_join webroot ''static'')),
          STATIC_URL = env_str env ''STATIC_URL'' ''/static/'',
          STATICFILES_DIRS = [path_text (path_join base_dir ''static'')],
          STATICFILES_FINDERS = [''django.contrib.staticfiles.finders.FileSystemFinder'',
            ''django.contrib.staticfiles.finders.AppDirectoriesFinder''],
          PASSWORD_HASHERS = hashers,
          MEDIA_ROOT = env_str env ''MEDIA_ROOT'' (path_text (path_join webroot ''uploads'')),
          MEDIA_URL = env_str env ''MEDIA_URL'' ''/uploads/'',
          LOGGERS = logging_level,
          USE_X_FORWARDED_HOST = True,
          USE_X_FORWARDED_PORT = True,
          CSRF_TRUSTED_ORIGINS = env_list env ''CSRF_TRUSTED_ORIGINS''
            (if debug then [''https://*.ngrok-free.app''] else []),
          DEFAULT_AUTO_FIELD = ''django.db.models.BigAutoField'',
          PERMISSION_CLASSES = [''rest_framework.permissions.DjangoModelPermissions''],
          GRAFANA_DASHBOARD_URL = env_str env ''GRAFANA_DASHBOARD_URL'' default_grafana_url,
          SENTRY = sentry_start (env_str env ''SENTRY_DSN'' '''') (env_json env ''SENTRY_INIT_OPTIONS'' Map.empty)\<rparr>)"

section \<open>Routes and entry points\<close>

text \<open>\<open>static\<close> is Django's; the routes are given by their prefixes.\<close>

definition url_prefixes :: "(string \<Rightarrow> string \<Rightarrow> string list) \<Rightarrow> settings \<Rightarrow> string list" where
  "url_prefixes static s =
     ['''', ''admin/'', ''api-auth/'', ''api/''] @
     (if DEBUG s then [''__debug__/''] @ static (MEDIA_URL s) (MEDIA_ROOT s) else [])"

type_synonym process_env = "string \<rightharpoonup> string"

definition set_default :: "string \<Rightarrow> string \<Rightarrow> process_env \<Rightarrow> process_env" where
  "set_default k v m = (if m k = None then m(k \<mapsto> v) else m)"

text \<open>The environment in which Django starts, the same from all three entry points.\<close>

definition start_environment :: "process_env \<Rightarrow> process_env" where
  "start_environment = set_default ''DJANGO_SETTINGS_MODULE'' ''webapp.settings''"

text \<open>\<open>manage.py\<close> hands its arguments on, or tells that Django is missing.\<close>

definition manage_main :: "bool \<Rightarrow> string list \<Rightarrow> process_env \<Rightarrow> string + string list \<times> process_env" where
  "manage_main django_installed argv m =
     (let m' = start_environment m
      in if django_installed then Inr (argv, m')
         else Inl (''Couldn't import Django. Are you sure it's installed and '' @
           ''available on your PYTHONPATH environment variable? Did you '' @
           ''forget to activate a virtual environment?''))"

text \<open>\<open>LoadtestConfig.ready\<close> imports the module of the receivers, which connects them.\<close>

definition connected_receivers :: "settings \<Rightarrow> string list" where
  "connected_receivers s =
     (if ''loadtest'' \<in> set (INSTALLED_APPS s)
      then [''set_test_started_at'', ''set_test_completed_at'', ''cancel_on_failure''] else [])"

section \<open>What the settings are good for\<close>

text \<open>Reading back the text of a path: its parts have no slash, are not empty and not a dot.\<close>

definition plain_path :: "path \<Rightarrow> bool" where
  "plain_path p \<longleftrightarrow> fst p \<in> {'''', ''/'', ''//''} \<and>
     list_all (\<lambda>x. x \<noteq> '''' \<and> x \<noteq> ''.'' \<and> CHR ''/'' \<notin> set x) (snd p)"

lemma split_slash_plain: "CHR ''/'' \<notin> set x \<Longrightarrow> split_slash acc x = [rev acc @ x]"
  by (induction x arbitrary: acc) auto

lemma split_slash_append:
  "CHR ''/'' \<notin> set x \<Longrightarrow> split_slash acc (x @ CHR ''/'' # s) = (rev acc @ x) # split_slash [] s"
  by (induction x arbitrary: acc) auto

lemma split_slash_join:
  "xs \<noteq> [] \<Longrightarrow> list_all (\<lambda>x. CHR ''/'' \<notin> set x) xs \<Longrightarrow> split_slash [] (py_join ''/'' xs) = xs"
proof (induction "''/''" xs rule: py_join.induct)
  case (3 x y ys)
  then show ?case using split_slash_append [of x "[]"] by simp
qed (simp_all add: split_slash_plain)

lemma path_of_text:
  assumes "plain_path p"
  shows "path_of (path_text p) = p"
proof -
  obtain r xs where p: "p = (r, xs)" by (cases p)
  from assms have r: "r \<in> {'''', ''/'', ''//''}"
    and xs: "list_all (\<lambda>x. x \<noteq> '''' \<and> x \<noteq> ''.'' \<and> CHR ''/'' \<notin> set x) xs"
    by (simp_all add: plain_path_def p)
  have flt: "filter (\<lambda>x. x \<noteq> '''' \<and> x \<noteq> ''.'') xs = xs"
    using xs by (auto simp: filter_id_conv list_all_iff)
  have slash: "list_all (\<lambda>x. CHR ''/'' \<notin> set x) xs" using xs by (auto simp: list_all_iff)
  show ?thesis
  proof (cases xs)
    case Nil
    with r show ?thesis by (auto simp: p path_of_def path_text_def path_root_def py_startswith_def)
  next
    case (Cons x ys)
    then obtain c cs where x: "py_join ''/'' xs = c # cs" "c \<noteq> CHR ''/''"
      using xs by (cases x; cases ys) auto
    have "path_root (r @ py_join ''/'' xs) = r"
      using r x by (auto simp: path_root_def py_startswith_def)
    moreover have "filter (\<lambda>x. x \<noteq> '''' \<and> x \<noteq> ''.'') (split_slash [] (r @ py_join ''/'' xs)) = xs"
      using r split_slash_join [OF _ slash] Cons flt by auto
    ultimately show ?thesis using Cons by (simp add: p path_of_def path_text_def)
  qed
qed

text \<open>An environment given by the texts of some variables, for the examples.\<close>

definition sample_environ :: "(string \<times> string) list \<Rightarrow> environ" where
  "sample_environ vars = \<lparr>
     env_bool = (\<lambda>v d. case map_of vars v of None \<Rightarrow> d | Some s \<Rightarrow> s = ''on''),
     env_str = (\<lambda>v d. case map_of vars v of None \<Rightarrow> d | Some s \<Rightarrow> s),
     env_list = (\<lambda>v d. case map_of vars v of None \<Rightarrow> d | Some s \<Rightarrow> [s]),
     env_db = (\<lambda>v d. case map_of vars v of None \<Rightarrow> d | Some s \<Rightarrow> s),
     env_json = (\<lambda>v d. d)\<rparr>"

lemma load_settings_cases:
  "load_settings env base_dir = Inr s \<Longrightarrow>
     DEBUG s = env_bool env ''DEBUG'' False \<and> INSTALLED_APPS s = installed_apps (DEBUG s) \<and>
     MIDDLEWARE s = middleware (DEBUG s) \<and>
     password_hashers (env_str env ''PASSWORD_HASHER''
       ''django.contrib.auth.hashers.Argon2PasswordHasher'') = Inr (PASSWORD_HASHERS s)"
  by (auto simp: load_settings_def Let_def split: sum.splits)

text \<open>
  The debugging aids come and go together: the debug toolbar is an installed application, a
  middleware and a route exactly when DEBUG is on, and without DEBUG the only routes are the
  four of the application; whatever the environment says, the application of the models is
  installed, so that its three receivers are connected.
\<close>

theorem debug_aids_together:
  assumes "load_settings env base_dir = Inr s"
  shows "(''debug_toolbar'' \<in> set (INSTALLED_APPS s) \<longleftrightarrow> DEBUG s) \<and>
    (''debug_toolbar.middleware.DebugToolbarMiddleware'' \<in> set (MIDDLEWARE s) \<longleftrightarrow> DEBUG s) \<and>
    (DEBUG s \<longrightarrow> ''__debug__/'' \<in> set (url_prefixes static s)) \<and>
    (\<not> DEBUG s \<longrightarrow> url_prefixes static s = ['''', ''admin/'', ''api-auth/'', ''api/'']) \<and>
    connected_receivers s = [''set_test_started_at'', ''set_test_completed_at'', ''cancel_on_failure'']"
  using load_settings_cases [OF assms]
  by (simp add: installed_apps_def middleware_def url_prefixes_def connected_receivers_def)

theorem debug_aids_together_witness:
  "\<exists>s. load_settings (sample_environ [(''DEBUG'', ''on'')]) (''/'', [''app'']) = Inr s \<and>
    ''__debug__/'' \<in> set (url_prefixes (\<lambda>_ _. []) s)"
proof -
  obtain s where s: "load_settings (sample_environ [(''DEBUG'', ''on'')]) (''/'', [''app'']) = Inr s"
    by (simp add: load_settings_def password_hashers_def all_hashers_def sample_environ_def Let_def)
  moreover have "DEBUG s" using load_settings_cases [OF s] by (simp add: sample_environ_def)
  ultimately show ?thesis using debug_aids_together [OF s, of "\<lambda>_ _. []"] by blast
qed

text \<open>
  The settings can be loaded exactly when PASSWORD_HASHER is empty or one of the five known
  hashers, and fail with a \<open>ValueError\<close> otherwise. Loaded, they have the five hashers, a chosen
  one first and the others in their order, so that every old password can still be checked.
\<close>

theorem settings_hashers:
  fixes env :: environ
  defines "h \<equiv> env_str env ''PASSWORD_HASHER'' ''django.contrib.auth.hashers.Argon2PasswordHasher''"
  shows "if h = '''' \<or> h \<in> set all_hashers
    then (\<exists>s. load_settings env base_dir = Inr s \<and> mset (PASSWORD_HASHERS s) = mset all_hashers \<and>
      remove1 h (PASSWORD_HASHERS s) = remove1 h all_hashers \<and> (h \<noteq> '''' \<longrightarrow> hd (PASSWORD_HASHERS s) = h))
    else load_settings env base_dir = Inl (ValueError ''list.remove(x): x not in list'')"
proof -
  have load: "load_settings env base_dir = Inl e"
    if "password_hashers h = Inl e" for e
    using that by (simp add: load_settings_def h_def Let_def)
  have hs: "\<exists>s. load_settings env base_dir = Inr s \<and> PASSWORD_HASHERS s = xs"
    if "password_hashers h = Inr xs" for xs
    using that by (simp add: load_settings_def h_def Let_def)
  show ?thesis
  proof (cases "h = '''' \<or> h \<in> set all_hashers")
    case False
    then have "password_hashers h = Inl (ValueError ''list.remove(x): x not in list'')"
      by (simp add: password_hashers_def)
    with load False show ?thesis by simp
  next
    case True
    let ?xs = "if h = '''' then all_hashers else h # remove1 h all_hashers"
    have "password_hashers h = Inr ?xs" using True by (auto simp: password_hashers_def)
    moreover have "mset ?xs = mset all_hashers" "remove1 h ?xs = remove1 h all_hashers"
      "h \<noteq> '''' \<longrightarrow> hd ?xs = h" using True by auto
    ultimately show ?thesis using hs [of ?xs] True by metis
  qed
qed

theorem settings_hashers_witness:
  "load_settings (sample_environ [(''PASSWORD_HASHER'', ''md5'')]) (''/'', [''app'']) =
    Inl (ValueError ''list.remove(x): x not in list'')"
proof -
  have "env_str (sample_environ [(''PASSWORD_HASHER'', ''md5'')]) ''PASSWORD_HASHER''
      ''django.contrib.auth.hashers.Argon2PasswordHasher'' = ''md5''" by (simp add: sample_environ_def)
  moreover have "''md5'' \<notin> set all_hashers" by code_simp
  ultimately show ?thesis
    using settings_hashers [of "sample_environ [(''PASSWORD_HASHER'', ''md5'')]" "(''/'', [''app''])"] by simp
qed

text \<open>
  In an environment that sets nothing the application runs without DEBUG, answers no host but
  those Django allows by itself, trusts no other origin, does not report to Sentry and keeps its
  files below its own directory; yet its secret key is the one in the repository.
\<close>

lemma settings_defaults:
  assumes "\<And>v. unset env v" and "plain_path base_dir"
  shows "\<exists>s. load_settings env base_dir = Inr s \<and> \<not> DEBUG s \<and> ALLOWED_HOSTS s = [] \<and>
    CSRF_TRUSTED_ORIGINS s = [] \<and> SENTRY s = None \<and> PASSWORD_HASHERS s = all_hashers \<and>
    SECRET_KEY s = ''django-insecure-pop^(ij1ml%a-b1h$-9f)7b0+7c#6_stu-6j-5slru8il57zs9'' \<and>
    path_of (STATIC_ROOT s) = path_join (path_join base_dir ''webroot'') ''static''"
proof -
  have env: "env_bool env v b = b" "env_str env v t = t" "env_list env v xs = xs" "env_db env v t = t"
    "env_json env v d = d" for v b t xs d
    using assms(1) by (auto simp: unset_def)
  have "plain_path (path_join base_dir ''webroot'')"
    "plain_path (path_join (path_join base_dir ''webroot'') ''static'')"
    using assms(2) by (simp_all add: plain_path_def path_join_def)
  note paths = this [THEN path_of_text]
  show ?thesis
    by (simp add: load_settings_def env Let_def password_hashers_def paths sentry_start_def)
      (simp add: all_hashers_def)
qed

end
