(* ===== verification/AdminForms.thy ===== *)
theory AdminForms
  imports Admin Declared
begin

text \<open>
  The rest of webapp/loadtest/admin.py: the classes of the site as data, with the names of fields
  and methods they refer to, the inlines of labels and locations, the widgets of the forms
  and the completion of repositories.
\<close>

section \<open>The inlines of labels and locations\<close>

definition label_has_delete_permission :: "test_run option \<Rightarrow> bool" where
  "label_has_delete_permission obj = (case obj of None \<Rightarrow> False | Some r \<Rightarrow> draft r)"

definition label_has_change_permission :: "test_run option \<Rightarrow> bool" where
  "label_has_change_permission obj = (case obj of None \<Rightarrow> True | Some r \<Rightarrow> draft r)"

definition label_get_max_num :: "nat option \<Rightarrow> test_run option \<Rightarrow> nat option" where
  "label_get_max_num max_num obj =
     (case obj of None \<Rightarrow> max_num | Some r \<Rightarrow> if \<not> draft r then Some 0 else max_num)"

definition location_has_delete_permission :: "test_run option \<Rightarrow> bool" where
  "location_has_delete_permission obj = (case obj of None \<Rightarrow> False | Some r \<Rightarrow> draft r)"

definition location_has_change_permission :: "test_run option \<Rightarrow> bool" where
  "location_has_change_permission obj = (case obj of None \<Rightarrow> True | Some r \<Rightarrow> draft r)"

section \<open>Widgets\<close>

type_synonym attrs = "(string \<times> string) list"

text \<open>
  \<open>ReadOnlyWidget\<close>: whatever value the form has, the widget shows its own. \<open>build_attrs\<close>,
  \<open>flatatt\<close> and the escaping of \<open>format_html\<close> are Django's.
\<close>

record html =
  h_build_attrs :: "attrs \<Rightarrow> attrs \<Rightarrow> attrs"
  h_flatatt :: "attrs \<Rightarrow> string"
  h_escape :: "string \<Rightarrow> string"

definition readonly_render :: "html \<Rightarrow> string \<Rightarrow> string \<Rightarrow> string \<Rightarrow> attrs option \<Rightarrow> string" where
  "readonly_render h own fname val attrs =
     (let final = h_build_attrs h (the_default [] attrs)
            [(''name'', fname), (''value'', own), (''type'', ''hidden'')]
      in ''<input '' @ h_flatatt h final @ ''>'' @ h_escape h own)"

text \<open>
  The field \<open>location\<close> of a row: no links to other forms, and for a stored row the read-only
  widget with its location.
\<close>

record location_widget =
  can_add_related :: bool
  can_change_related :: bool
  can_delete_related :: bool
  can_view_related :: bool

datatype field_widget = RelatedWidget location_widget | ReadOnly string

definition location_form_widget :: "location_widget \<Rightarrow> test_run_location \<Rightarrow> field_widget" where
  "location_form_widget w inst =
     (let w' = w\<lparr>can_add_related := False, can_change_related := False, can_delete_related := False,
            can_view_related := False\<rparr>
      in if pk_true (pk inst) then ReadOnly (location inst) else RelatedWidget w')"

text \<open>Widgets chosen by class: a text area of two rows, a password field.\<close>

definition env_var_widgets :: "(string \<times> string \<times> (string \<times> string) list) list" where
  "env_var_widgets = [(''value'', ''Textarea'', [(''rows'', ''2'')])]"

definition output_widgets :: "(string \<times> string \<times> (string \<times> string) list) list" where
  "output_widgets =
     [(''influxdb_token'', ''PasswordInput'', [(''autocomplete'', ''off''), (''class'', ''vTextField'')])]"

section \<open>Completion of repositories\<close>

definition autocomplete_list :: "database \<Rightarrow> string list" where
  "autocomplete_list db = get_repo_choices db"

definition autocomplete_create :: "string \<Rightarrow> string" where
  "autocomplete_create text = text"

text \<open>The address of the view comes before those of the site, which end with a catch-all.\<close>

definition get_urls :: "(string \<times> string) list \<Rightarrow> (string \<times> string) list" where
  "get_urls site_urls =
     [(''_autocomplete/source-repo'', ''autocomplete_loadtest_source_repo'')] @ site_urls"

section \<open>The classes of the site\<close>

record admin_class =
  ad_fields :: "(string \<times> field) list"
  ad_methods :: "string list"
  ad_list_display :: "string list"
  ad_date_hierarchy :: "string option"
  ad_search_fields :: "string list"
  ad_readonly_fields :: "string list"
  ad_prepopulated :: "(string \<times> string list) list"
  ad_widgets :: "(string \<times> string \<times> (string \<times> string) list) list"
  ad_actions :: "string list"

definition test_run_admin :: admin_class where
  "test_run_admin = \<lparr>
     ad_fields = test_run_fields,
     ad_methods = [''script'', ''results_link'', ''completed'', ''start_test_runs'', ''cancel_test_runs'', ''status''],
     ad_list_display = [''name'', ''target'', ''results_link'', ''script'', ''completed'', ''status'',
       ''created_at'', ''started_at'', ''completed_at''],
     ad_date_hierarchy = Some ''created_at'',
     ad_search_fields = [''target'', ''name'', ''source_repo'', ''source_script''],
     ad_readonly_fields = class_readonly_fields,
     ad_prepopulated = [], ad_widgets = [],
     ad_actions = [''start_test_runs'', ''cancel_test_runs'']\<rparr>"

definition test_location_admin :: admin_class where
  "test_location_admin = \<lparr>
     ad_fields = test_location_fields, ad_methods = [''status''],
     ad_list_display = [''name'', ''display_name'', ''status'', ''last_ping''],
     ad_date_hierarchy = None, ad_search_fields = [], ad_readonly_fields = [],
     ad_prepopulated = [(''name'', [''display_name''])], ad_widgets = [], ad_actions = []\<rparr>"

definition test_output_admin :: admin_class where
  "test_output_admin = \<lparr>
     ad_fields = test_output_config_fields, ad_methods = [],
     ad_list_display = [''name'', ''influxdb_url'', ''influxdb_org'', ''influxdb_bucket''],
     ad_date_hierarchy = None, ad_search_fields = [], ad_readonly_fields = [], ad_prepopulated = [],
     ad_widgets = output_widgets, ad_actions = []\<rparr>"

definition env_var_inline :: admin_class where
  "env_var_inline = \<lparr>
     ad_fields = test_run_env_var_fields, ad_methods = [], ad_list_display = [], ad_date_hierarchy = None,
     ad_search_fields = [], ad_readonly_fields = [], ad_prepopulated = [], ad_widgets = env_var_widgets,
     ad_actions = []\<rparr>"

definition location_inline :: admin_class where
  "location_inline = \<lparr>
     ad_fields = test_run_location_fields, ad_methods = [], ad_list_display = [], ad_date_hierarchy = None,
     ad_search_fields = [], ad_readonly_fields = [''online_workers'', ''status'', ''status_description''],
     ad_prepopulated = [], ad_widgets = [], ad_actions = []\<rparr>"

text \<open>
  Every name refers to something: columns and read-only fields are fields or methods, search and
  prepopulation concern fields, the date hierarchy a date, widgets fields, actions methods.
\<close>

definition admin_names_ok :: "admin_class \<Rightarrow> bool" where
  "admin_names_ok a \<longleftrightarrow>
     (let fields = map fst (ad_fields a); names = fields @ ad_methods a
      in list_all (\<lambda>n. n \<in> set names) (ad_list_display a @ ad_readonly_fields a) \<and>
         list_all (\<lambda>n. n \<in> set fields) (ad_search_fields a @ map fst (ad_widgets a)) \<and>
         list_all (\<lambda>(n, ns). n \<in> set fields \<and> list_all (\<lambda>x. x \<in> set fields) ns) (ad_prepopulated a) \<and>
         (case ad_date_hierarchy a of None \<Rightarrow> True
          | Some n \<Rightarrow> map_option f_class (map_of (ad_fields a) n) = Some DateTimeField) \<and>
         list_all (\<lambda>n. n \<in> set (ad_methods a)) (ad_actions a))"

text \<open>A field a form may have: not excluded by \<open>editable\<close> or by an automatic date.\<close>

definition editable :: "field \<Rightarrow> bool" where
  "editable d \<longleftrightarrow> map_of (f_args d) ''editable'' \<noteq> Some (Flag False) \<and>
     map_of (f_args d) ''auto_now'' \<noteq> Some (Flag True) \<and> map_of (f_args d) ''auto_now_add'' \<noteq> Some (Flag True)"


text \<open>
  C31. A started run can still get locations: its inline refuses changes and deletions, but, unlike
  those of variables and labels, its maximum is the number of all locations, so there is room
  for each one that does not take part. Saving such a row succeeds, and it changes every
  segment assigned to every location of the run, though these may be running theirs.
\<close>

theorem late_location_moves_segments:
  assumes "fresh_pk e" and "wf_db db" and "r \<in> set (tbl_test_run db)" and "\<not> draft r"
    and "has_name loc (tbl_location db)" and "loc \<notin> location ` set (locations_of (name r) db)" and "0 < n"
  shows "\<not> location_has_change_permission (Some r) \<and>
    length (locations_of (name r) db) < location_get_max_num db \<and>
    (\<exists>x db'. save_run_location e ((new_test_run_location (name r) loc)\<lparr>num_workers := n\<rparr>) db = (Inr x, db') \<and>
      (\<forall>l \<in> set (locations_of (name r) db).
        l \<in> set (locations_of (name r) db') \<and> set (pieces db l) \<inter> set (pieces db' l) = {}))"
proof -
  let ?x = "(new_test_run_location (name r) loc)\<lparr>num_workers := n\<rparr>"
  have x: "pk ?x = None" "test_run ?x = name r" "location ?x = loc" "status ?x = PENDING"
    by (simp_all add: new_test_run_location_def)
  have "placed ?x \<notin> placed ` set (tbl_run_location db)"
    using assms(6) x(2,3) by (auto simp: placed_def locations_of_def)
  moreover have "has_name (test_run ?x) (tbl_test_run db)" using assms(3) x(2) by (auto simp: has_name_iff)
  moreover have "has_name (location ?x) (tbl_location db)" using assms(5) x(3) by simp
  ultimately obtain y where y: "unkeyed y = ?x" "save_run_location_row e ?x db = (Inr y, add_run_locations [y] db)"
    by (rule save_new_row [OF assms(1,2) x(1)])
  let ?db = "add_run_locations [y] db"
  have at: "test_run y = name r" "status y = PENDING" "num_workers y = n"
    using unkeyed_fields [OF y(1)] x arg_cong [OF y(1), of num_workers] by (simp_all add: unkeyed_def)
  have "save_run_location e ?x db = (Inr y, ?db)"
    using at(2) save_row_result(1) [OF assms(2) y(2)]
    by (simp add: save_run_location_eq [OF assms(2)] y(2) after_save_plain)
  moreover have more: "locations_of (name r) ?db = locations_of (name r) db @ [y]"
    using at(1) by (simp add: locations_of_def add_run_locations_def)
  then have total: "total_workers (name r) ?db = total_workers (name r) db + n"
    using at(3) by (simp add: total_workers_def)
  have "set (pieces db l) \<inter> set (pieces ?db l) = {}" if "l \<in> set (locations_of (name r) db)" for l
  proof -
    have l: "l \<in> set (tbl_run_location db)" "test_run l = name r" using that by (simp_all add: locations_of_def)
    have p: "pieces d l = map (piece (total_workers (name r) d)) (block (offset d l) (num_workers l))" for d
      using pieces_block [OF wf_location_refs(3) [OF assms(2) l(1)]] l(2) by simp
    have "offset db l + num_workers l \<le> total_workers (name r) db"
      using offset_bound [OF wf_rows(4) [OF assms(2)] l(1)] l(2) by simp
    then have "0 < i \<and> i \<le> total_workers (name r) db" if "i \<in> set (block (offset db l) (num_workers l))" for i
      using that by (auto simp: block_def)
    then show ?thesis
      using piece_total [of _ "total_workers (name r) db" "total_workers (name r) ?db"] assms(7) total
      by (auto simp: p)
  qed
  moreover have "length (locations_of (name r) db) < location_get_max_num db"
  proof -
    have sub: "location ` set (locations_of (name r) db) \<subset> name ` set (tbl_location db)"
      using assms(2,5,6) wf_location_refs(2) [OF assms(2)] by (auto simp: has_name_iff locations_of_def)
    have "length (locations_of (name r) db) = card (location ` set (locations_of (name r) db))"
      using locations_distinct [OF assms(2), of "name r"] by (metis distinct_card length_map list.set_map)
    also have "\<dots> < card (name ` set (tbl_location db))" using sub by (intro psubset_card_mono) simp_all
    also have "\<dots> \<le> location_get_max_num db"
      by (metis card_length length_map list.set_map location_get_max_num_def)
    finally show ?thesis .
  qed
  ultimately show ?thesis using assms(4) more
    by (intro conjI exI [of _ y] exI [of _ ?db]) (simp_all add: location_has_change_permission_def)
qed

theorem late_location_moves_segments_witness:
  "\<exists>x db'. save_run_location (sample_env 0) ((new_test_run_location ''shop-a1'' ''ap'')\<lparr>num_workers := 1\<rparr>)
      ((sample_db False RUNNING RUNNING)\<lparr>tbl_location := tbl_location (sample_db False RUNNING RUNNING) @ [sample_location 3 ''ap'']\<rparr>) =
      (Inr x, db') \<and> location_get_max_num
      ((sample_db False RUNNING RUNNING)\<lparr>tbl_location := tbl_location (sample_db False RUNNING RUNNING) @ [sample_location 3 ''ap'']\<rparr>) > 2"
proof -
  let ?db = "(sample_db False RUNNING RUNNING)\<lparr>tbl_location := tbl_location (sample_db False RUNNING RUNNING) @ [sample_location 3 ''ap'']\<rparr>"
  have wf: "wf_db ?db" by code_simp
  have run: "sample_run False \<in> set (tbl_test_run ?db)" "\<not> draft (sample_run False)" by code_simp+
  have loc: "has_name ''ap'' (tbl_location ?db)" "''ap'' \<notin> location ` set (locations_of (name (sample_run False)) ?db)"
    by code_simp+
  have facts: "name (sample_run False) = ''shop-a1''" "length (locations_of ''shop-a1'' ?db) = 2" by code_simp+
  from late_location_moves_segments [OF sample_env_laws(1) wf run loc zero_less_one, of 0] show ?thesis
    unfolding facts by auto
qed

end
