(* ===== verification/Spec2Isabelle.thy ===== *)
theory Spec2Isabelle
  imports Operators Rounds Endpoints Interleaving Concurrent Contract Migrations Roles Settings AdminForms
begin

text \<open>
  A model of orderly-ape: of its web application (src/webapp), which coordinates distributed k6
  load tests, and of the Kubernetes operator (src/k6-operator) that carries them out. Users define
  test runs on an admin site; in each location an operator polls a small API for its jobs, makes
  the pods of a test in its cluster, reports the status of its part of the run and starts the
  test at the common start time it reads.

  Parts and theories, in the order they build on each other.

  Prelude: programs over a database state that may raise, with \<open>transaction.atomic\<close> as the
  combinator \<open>atomic\<close>; the locale \<open>guarantee\<close> of two-state guarantees of such programs; tables
  as lists of rows with a key, and the locale \<open>keyed_table\<close> of their interface. PyText and
  Clock: the text operations and dates the code uses. A text is a list of characters, an
  integer of Python an \<open>int\<close> or, where it counts or is a key, a \<open>nat\<close>; a date is the number of
  microseconds since the epoch (the settings have \<open>USE_TZ\<close> and UTC).

  Models (loadtest/models.py): one record per model, the abstract base models as record
  extension; the status choices; \<open>status_transitions\<close>, one entry per \<open>@transition\<close>
  decorator, and its edges as the step relation \<open>status_edge\<close>; the exceptions; the database as
  the record of its tables; the world of a request, \<open>env\<close>. Store: \<open>Model.save\<close> of each model
  with the declared constraints, and \<open>wf_db\<close>, the integrity of the database: keys and names
  unique, one row per run and location, no dangling foreign key, no run without a name.
  \<open>keyed_table\<close> is interpreted there for three tables.

  Segments: \<open>TestRun.segments\<close> and \<open>TestRunLocation.assigned_segments\<close>. Signals (models.py and
  loadtest/signals.py): the bodies of the transition methods, a save of a location with its
  three receivers in the order of registration, and the effect of such a save as a function,
  \<open>after_save\<close>. Runs: the remaining methods of the models. Grafana (models.py and
  loadtest/validators.py): the dashboard link with the float arithmetic of
  \<open>timestamp()\<close>, and the validator of deadlines. Duplicate: what \<open>duplicate_test_run\<close> does.
  Jobs (loadtest/serializers.py): validation and update of a job, and its representation.
  Views (loadtest/views.py under webapp/urls.py): the requests of the workers. Admin
  (loadtest/admin.py): permissions of the inline forms, proposals of the form set, read-only
  fields, list columns, the actions and the buttons of the edit page. AdminForms (the rest of
  admin.py): the classes of the site as data with every name they refer to, the inlines, the
  widgets and the completion of repositories.

  System: a dispatcher \<open>handle\<close> of all requests that write, and \<open>reachable\<close>, the states any
  sequence of requests leads to, each request with its own clock and its own choices of the
  third-party code. The locale \<open>guarantee\<close> is interpreted twice, for integrity with progress
  of the runs and for failing fast, and carries both from the requests to sessions. Lifecycle:
  a run from pending to completed, driven by its workers. Contract: the abstract run, a status
  per location with a start and an end, its operations \<open>report_spec\<close> and \<open>cancel_spec\<close>, and the
  proofs that the requests implement them.

  Schedules: processes on a shared state that take their steps in any order, with the locale
  \<open>sharing\<close> (an invariant, what each process holds, and what all steps keep for the others) and the
  locale \<open>working\<close> (a measure of the work that is left). Races: writes of jobs as sequences of
  accesses of the database, which interleave. Interleaving: the start of a run by ready reports that
  interleave. Concurrent: all requests, of workers and of the admin site, as sequences of accesses,
  which alone are \<open>handle\<close>. Both locales are interpreted on the steps of these theories.

  Schema, History, Declared and Migrations (loadtest/migrations): a migration file is data, a list
  of operations with the arguments as written; the locale \<open>schema_editor\<close> has the laws Django
  documents for the operations on columns, and is interpreted on a dictionary of columns. History has
  one definition per file, Declared the columns of models.py; Migrations compares the seven
  original files, the file that replaces them and the models, and has the data step of 0005.
  Roles (migration 0008): the groups and permissions it writes, against what the API asks for.
  Settings (webapp/settings.py, webapp/urls.py, manage.py, wsgi.py, asgi.py, the app
  configurations): the settings as a function of the environment.

  GoApi (src/k6-operator/internal/loadtesting: api/types.go, client/status.go): the structures of
  the operator, their decoding and the errors. Cluster (internal/controller/testrun_controller.go):
  the objects it keeps for a job, the Job with its pods, the Telegraf secret and the disruption
  budget, as functions of the job. Reconcile (testrun_controller.go, igniter.go, loadtesting/worker.go,
  ping.go): \<open>Reconcile\<close> with its stages and early returns, the igniters, the poll and the
  check-in, over records of the calls to the web application and to Kubernetes. Workers
  (client/uncached.go): the client, an operator calling the requests of Views; \<open>site\<close> is what an
  operator is configured with and lives in, \<open>served\<close> the rows it can act on, \<open>reports\<close> what a
  reconciliation does to the database. Stages: the locale \<open>stages\<close>, a guarantee that the four things
  a reconciliation can do keep to, with its lemmas for every stage; it is interpreted twice, for the
  reports of the own row and for leaving other runs alone. Operation: the rules a reconciliation keeps, what is
  accepted of it, and single situations. Fleet: the pods of all operators of a run, and the
  check-ins over time. Drive: the life of a run under its operator, and a creation that stops
  half-way. Rounds: the life of a run under the operators of all its locations, round by round.
  Operators: \<open>fleet\<close>, the operators of any locations with their igniters
  between the requests of other clients; what they do to the database is a session of requests,
  and all igniters of a run wait for one start. Endpoints (loadtesting/runtime/scheme.go,
  client/uncached.go, cmd/main.go): the paths of the calls against the routes of webapp/urls.py, and
  the options an operator starts with.

  How requests and code correspond. A view or action is a program \<open>'a web\<close>: it takes the
  database and gives a result or an exception and the database after it; an exception leaves
  the writes made before it unless the code is atomic. \<open>put_job\<close> is the update of
  \<open>WorkersJobsViewSet\<close>: the row is found by \<open>jobs_get_object\<close> in the query of
  \<open>get_queryset\<close>, \<open>validate_data\<close> checks the status, \<open>update_job\<close> runs the transition methods and
  saves the row with its receivers.

  A stage of \<open>Reconcile\<close> is a function of the operator, the job, the Job and the state, and gives
  the error or nil and the state after it; the code that follows an \<open>if\<close> is the next function,
  called by each branch that goes on. The state is the world (the database and the cluster) with the
  map of igniters. The goroutine of an igniter is two steps, \<open>igniter_start\<close> and
  \<open>igniter_wait\<close>, which a reconciliation may come between. Reconciliations of one operator do not
  overlap (the controller has one worker), and the clock is read once in each.

  What the model assumes. Code that is not in the repository is a parameter: the fields of
  \<open>env\<close> (Django's choice of a key and its \<open>slugify\<close> and \<open>get_random_string\<close>, the list and the
  target of django-fsm transitions, \<open>durationpy.from_str\<close>), the function that reverses URLs, the
  dashboard address, the element \<open>set.pop\<close> takes, the typed readers of django-environ, the signal
  \<open>emit_post_migrate_signal\<close>, and the permissions \<open>DjangoModelPermissions\<close> asks for. For the operator they are the calls to
  Kubernetes (\<open>kube_client\<close>, any functions of a state of the cluster), the libraries that
  quote a command and merge lists of variables, volumes and containers (with the order of
  a range over a map, \<open>libraries\<close>), and the parsers of durations and quantities (\<open>parsers\<close>). An
  answer over HTTP is its status code and its value. Properties that depend on them name what
  they rely on: \<open>fresh_pk\<close> (a new key is unused), \<open>fsm_lists\<close> (the available transitions are
  those whose source allows the state, in any order), \<open>fsm_moves\<close> (a transition method leads to its
  target or is refused), \<open>slugs\<close> (a slug keeps lower-case letters and digits and has only slug
  characters). \<open>sample_env\<close> is a world in which all of it holds, \<open>sample_db\<close> a small database.
  The order of a table stands for the unspecified order of an unordered query; the
  statements that compare lists of copied rows use it only to pair copies and originals.
  Except in Races, Interleaving and Concurrent a request runs alone.

  What the lemmas show. The lemmas that end in \<open>_eq\<close> give the exact result of an operation on
  a well-formed database; \<open>wf_\<close> lemmas keep integrity; \<open>safe_\<close> and \<open>fast_\<close> lemmas are the
  guarantees per request. The properties are stated at the end of the theory of their
  component, and here where they span components.

  The properties of the operator say that it keeps to the transition table whatever its cluster
  answers, that it leaves other runs alone, that together with its cluster it takes a run to its end, that all pods of a run
  execute each segment once and all operators start them at the same time, and in which situations the code does not do what it is meant to:
  an answer that cannot be decoded, a start that is missed, a retry, an error that comes late, a
  creation that is not completed.

  Bounds. No definition needs fuel: all loops are over finite lists. \<open>float_quot\<close> represents
  timestamps from a microsecond to the end of the year 9999 as Python does; on whole seconds
  it is exact for all. A schedule of Interleaving gives each request four steps, one of Races
  seven, which is shown to be enough for it to be answered; a request of Concurrent needs as many as
  its first access finds runs to work on.

  Not modelled: request parsing, authentication, the processing and rendering of pages and
  forms, and the checks of field lengths and formats (Django and its REST framework do them);
  the locks and isolation levels of the database (a transaction reads what is committed and its
  writes appear at once); the options of the tables
  other than their columns in the comparison of the schema. Of the operator: the flags of metrics, probes and
  leader election and the wiring of the manager (cmd/main.go), objects made by reflection
  (loadtesting/runtime, internal/help.go), failures of the network (they are errors
  before anything is written, or after it), the work queue of the controller, and
  requests to pods that are canceled while they are under way. The charts and the dashboards are
  configuration.
\<close>

section \<open>Sessions of requests\<close>





end
